(* ===== verification/Prelude.thy ===== *)
theory Prelude
  imports Main "HOL-Library.Sublist"
begin

text \<open>
  The shared base of the development: the type synonyms of the model, the generic lemmas
  on lists, options and maps that the components use, and the \<open>named_theorems\<close>
  collections that carry the component proofs.
  Money is an integer number of cents, a point in time on the SIP control plane is a Unix
  time in seconds, an id is the \<open>BIGSERIAL\<close> of its table.
\<close>

type_synonym cents = int
type_synonym unix_time = int
type_synonym db_id = int

named_theorems go_str \<open>definitions of the Go string operations\<close>
named_theorems inv_intros \<open>operations that keep an invariant\<close>
named_theorems row_simps \<open>row-level effect of the SQL statements\<close>

subsection \<open>Lists\<close>

lemma filter_ne_Nil_conv: "filter P xs \<noteq> [] \<longleftrightarrow> (\<exists>x \<in> set xs. P x)"
  by (induction xs) auto

lemma takeWhile_notin: "x \<notin> set (takeWhile (\<lambda>y. y \<noteq> x) xs)"
  by (auto dest: set_takeWhileD)

lemma takeWhile_id: "x \<notin> set xs \<Longrightarrow> takeWhile (\<lambda>y. y \<noteq> x) xs = xs"
  by (induction xs) auto

lemma sum_list_append_map: "sum_list (map f (xs @ ys)) = sum_list (map f xs) + (sum_list (map f ys) :: int)"
  by simp

lemma prefix_trans_not: "prefix xs ys \<Longrightarrow> \<not> prefix zs ys \<Longrightarrow> \<not> prefix zs xs"
  by (metis prefix_order.trans)

lemma in_map_filter [simp]: "y \<in> set (List.map_filter f xs) \<longleftrightarrow> (\<exists>x \<in> set xs. f x = Some y)"
  by (induction xs) (auto simp: List.map_filter_def split: option.splits)

lemma set_drop_mono: "x \<in> set (drop n xs) \<Longrightarrow> x \<in> set xs"
  by (rule in_set_dropD)

lemma sort_key_Nil_iff [simp]: "sort_key f xs = [] \<longleftrightarrow> xs = []"
  by (metis set_empty set_sort)

subsection \<open>Maps keyed by id\<close>

text \<open>
  \<open>SQL UPDATE .. WHERE id = k\<close>: the row is rewritten when it exists and nothing happens
  otherwise. \<open>RowsAffected\<close> is whether the key was present.
\<close>

definition upd_row :: "'k \<Rightarrow> ('v \<Rightarrow> 'v) \<Rightarrow> ('k \<rightharpoonup> 'v) \<Rightarrow> ('k \<rightharpoonup> 'v)" where
  "upd_row k f m = (case m k of None \<Rightarrow> m | Some v \<Rightarrow> m(k \<mapsto> f v))"

lemma upd_row_same [simp]: "upd_row k f m k = map_option f (m k)"
  by (simp add: upd_row_def split: option.splits)

lemma upd_row_other [simp]: "j \<noteq> k \<Longrightarrow> upd_row k f m j = m j"
  by (simp add: upd_row_def split: option.splits)

lemma upd_row_apply: "upd_row k f m j = (if j = k then map_option f (m k) else m j)"
  by simp

lemma dom_upd_row [simp]: "dom (upd_row k f m) = dom m"
  by (auto simp: upd_row_def split: option.splits)

text \<open>\<open>SQL UPDATE .. WHERE P\<close> over a whole table.\<close>

definition upd_where :: "('v \<Rightarrow> bool) \<Rightarrow> ('v \<Rightarrow> 'v) \<Rightarrow> ('k \<rightharpoonup> 'v) \<Rightarrow> ('k \<rightharpoonup> 'v)" where
  "upd_where P f m = (\<lambda>k. case m k of None \<Rightarrow> None | Some v \<Rightarrow> Some (if P v then f v else v))"

lemma upd_where_None [simp]: "upd_where P f m k = None \<longleftrightarrow> m k = None"
  by (simp add: upd_where_def split: option.splits)

lemma upd_where_Some: "m k = Some v \<Longrightarrow> upd_where P f m k = Some (if P v then f v else v)"
  by (simp add: upd_where_def)

lemma dom_upd_where [simp]: "dom (upd_where P f m) = dom m"
  by (auto simp: upd_where_def split: option.splits)

subsection \<open>Loops that fold over a list with early error\<close>

fun fold_result :: "('x \<Rightarrow> 's \<Rightarrow> 'e + 's) \<Rightarrow> 'x list \<Rightarrow> 's \<Rightarrow> 'e + 's" where
  "fold_result f [] s = Inr s"
| "fold_result f (x # xs) s = (case f x s of Inl e \<Rightarrow> Inl e | Inr s' \<Rightarrow> fold_result f xs s')"

text \<open>A step that runs only when the one before succeeded.\<close>

definition sum_bind :: "'err + 'ok \<Rightarrow> ('ok \<Rightarrow> 'err + 'next) \<Rightarrow> 'err + 'next" where
  "sum_bind r f = (case r of Inr x \<Rightarrow> f x | Inl e \<Rightarrow> Inl e)"

lemma sum_bind_simps [simp]: "sum_bind (Inl e) f = Inl e" "sum_bind (Inr x) f = f x"
  by (simp_all add: sum_bind_def)

lemma sum_bind_Inr: "sum_bind r f = Inr y \<longleftrightarrow> (\<exists>x. r = Inr x \<and> f x = Inr y)"
  by (cases r) auto

lemma fold_invariant:
  assumes "P s" and "\<And>x s. x \<in> set xs \<Longrightarrow> P s \<Longrightarrow> P (f x s)"
  shows "P (fold f xs s)"
  using assms by (induction xs arbitrary: s) auto

lemma fold_shrinks:
  assumes "\<And>x s. g (f x s) \<subseteq> g s"
  shows "g (fold f xs s) \<subseteq> g s"
  by (induction xs arbitrary: s) (auto dest: subsetD [OF assms])

subsection \<open>Machines with an invariant\<close>

text \<open>
  The contract of a component that runs as a sequence of steps: every step keeps the
  invariant, so every reachable state has it.
\<close>

locale safe_machine =
  fixes step :: "'s \<Rightarrow> 's \<Rightarrow> bool"
    and inv :: "'s \<Rightarrow> bool"
  assumes step_inv: "step s t \<Longrightarrow> inv s \<Longrightarrow> inv t"
begin

lemma run_inv: "step\<^sup>*\<^sup>* s t \<Longrightarrow> inv s \<Longrightarrow> inv t"
  by (induction rule: rtranclp_induct) (auto intro: step_inv)

end

end
