(* ===== verification/Go_Strings.thy ===== *)
theory Go_Strings
  imports Prelude "HOL-Library.Char_ord" "HOL-Library.List_Lexorder"
begin

text \<open>
  The part of Go's \<open>strings\<close>, \<open>strconv\<close> and slicing that the program uses. A Go string is
  a byte sequence, so it is a \<open>string\<close> here (a list of 8-bit characters): \<open>len\<close> counts
  bytes, \<open>s[i:j]\<close> is \<open>take\<close> and \<open>drop\<close>. \<open>Index\<close> returns an option in place of Go's
  \<open>-1\<close>. \<open>TrimSpace\<close> removes every rune that \<open>unicode.IsSpace\<close> accepts, given by its
  UTF-8 encoding. \<open>ToLower\<close> and \<open>ToUpper\<close> map the ASCII letters and the four
  non-ASCII runes whose case mapping is an ASCII letter; the program compares their results
  with ASCII text only, so the letters that map outside ASCII are left as they are.
\<close>

subsection \<open>Prefixes, suffixes, searching\<close>

abbreviation has_prefix :: "string \<Rightarrow> string \<Rightarrow> bool" where
  "has_prefix s p \<equiv> prefix p s"

abbreviation has_suffix :: "string \<Rightarrow> string \<Rightarrow> bool" where
  "has_suffix s p \<equiv> suffix p s"

definition trim_prefix :: "string \<Rightarrow> string \<Rightarrow> string" where
  "trim_prefix s p = (if prefix p s then drop (length p) s else s)"

definition trim_suffix :: "string \<Rightarrow> string \<Rightarrow> string" where
  "trim_suffix s p = (if suffix p s then take (length s - length p) s else s)"

text \<open>\<open>strings.Index\<close> and \<open>strings.Contains\<close>.\<close>

fun str_index :: "string \<Rightarrow> string \<Rightarrow> nat option" where
  "str_index [] p = (if p = [] then Some 0 else None)"
| "str_index (c # cs) p =
     (if prefix p (c # cs) then Some 0 else map_option Suc (str_index cs p))"

definition str_contains :: "string \<Rightarrow> string \<Rightarrow> bool" where
  "str_contains s p \<longleftrightarrow> str_index s p \<noteq> None"

text \<open>\<open>strings.IndexByte\<close>, \<open>strings.LastIndexByte\<close>: the single-byte searches.\<close>

fun index_byte :: "string \<Rightarrow> char \<Rightarrow> nat option" where
  "index_byte [] b = None"
| "index_byte (c # cs) b = (if c = b then Some 0 else map_option Suc (index_byte cs b))"

fun last_index_byte :: "string \<Rightarrow> char \<Rightarrow> nat option" where
  "last_index_byte [] b = None"
| "last_index_byte (c # cs) b =
     (case last_index_byte cs b of Some i \<Rightarrow> Some (Suc i)
      | None \<Rightarrow> (if c = b then Some 0 else None))"

lemma str_index_single: "str_index s [b] = index_byte s b"
  by (induction s) auto

lemma index_byte_None [simp]: "index_byte s b = None \<longleftrightarrow> b \<notin> set s"
  by (induction s) auto

lemma last_index_byte_None [simp]: "last_index_byte s b = None \<longleftrightarrow> b \<notin> set s"
  by (induction s) (auto split: option.splits)

lemma index_byte_Some:
  "index_byte s b = Some i \<Longrightarrow> i < length s \<and> s ! i = b \<and> b \<notin> set (take i s)"
  by (induction s arbitrary: i) (auto split: if_splits)

lemma last_index_byte_Some:
  "last_index_byte s b = Some i \<Longrightarrow> i < length s \<and> s ! i = b \<and> b \<notin> set (drop (Suc i) s)"
  by (induction s arbitrary: i) (auto split: option.splits if_splits)

lemma take_index_byte: "index_byte s b = Some i \<Longrightarrow> take i s = takeWhile (\<lambda>c. c \<noteq> b) s"
  by (induction s arbitrary: i) (auto split: if_splits)

subsection \<open>White space\<close>

text \<open>The UTF-8 encodings of the runes with \<open>unicode.IsSpace\<close>.\<close>

definition space_seqs :: "string list" where
  "space_seqs =
     [[CHR 0x09], [CHR 0x0A], [CHR 0x0B], [CHR 0x0C], [CHR 0x0D], [CHR 0x20],
      [CHR 0xC2, CHR 0x85], [CHR 0xC2, CHR 0xA0], [CHR 0xE1, CHR 0x9A, CHR 0x80],
      [CHR 0xE2, CHR 0x80, CHR 0x80], [CHR 0xE2, CHR 0x80, CHR 0x81],
      [CHR 0xE2, CHR 0x80, CHR 0x82], [CHR 0xE2, CHR 0x80, CHR 0x83],
      [CHR 0xE2, CHR 0x80, CHR 0x84], [CHR 0xE2, CHR 0x80, CHR 0x85],
      [CHR 0xE2, CHR 0x80, CHR 0x86], [CHR 0xE2, CHR 0x80, CHR 0x87],
      [CHR 0xE2, CHR 0x80, CHR 0x88], [CHR 0xE2, CHR 0x80, CHR 0x89],
      [CHR 0xE2, CHR 0x80, CHR 0x8A], [CHR 0xE2, CHR 0x80, CHR 0xA8],
      [CHR 0xE2, CHR 0x80, CHR 0xA9], [CHR 0xE2, CHR 0x80, CHR 0xAF],
      [CHR 0xE2, CHR 0x81, CHR 0x9F], [CHR 0xE3, CHR 0x80, CHR 0x80]]"

text \<open>Remove leading occurrences of any of the given sequences, as long as there are some.\<close>

function strip_any :: "string list \<Rightarrow> string \<Rightarrow> string" where
  "strip_any ws s =
     (case List.find (\<lambda>w. w \<noteq> [] \<and> prefix w s) ws of
        None \<Rightarrow> s
      | Some w \<Rightarrow> strip_any ws (drop (length w) s))"
  by pat_completeness auto
termination
  by (relation "measure (\<lambda>(ws, s). length s)")
     (auto simp: find_Some_iff prefix_def)

declare strip_any.simps [simp del]

definition trim_left_space :: "string \<Rightarrow> string" where
  "trim_left_space s = strip_any space_seqs s"

definition trim_right_space :: "string \<Rightarrow> string" where
  "trim_right_space s = rev (strip_any (map rev space_seqs) (rev s))"

definition trim_space :: "string \<Rightarrow> string" where
  "trim_space s = trim_right_space (trim_left_space s)"

lemma strip_any_suffix: "suffix (strip_any ws s) s"
proof (induction ws s rule: strip_any.induct)
  case (1 ws s)
  show ?case
  proof (cases "List.find (\<lambda>w. w \<noteq> [] \<and> prefix w s) ws")
    case None
    then show ?thesis by (simp add: strip_any.simps [of ws s])
  next
    case (Some w)
    have "suffix (strip_any ws (drop (length w) s)) s"
      using "1" [OF Some] suffix_drop suffix_order.trans by blast
    with Some show ?thesis by (simp add: strip_any.simps [of ws s])
  qed
qed

lemma strip_any_stripped: "w \<in> set ws \<Longrightarrow> w \<noteq> [] \<Longrightarrow> \<not> prefix w (strip_any ws s)"
proof (induction ws s rule: strip_any.induct)
  case (1 ws s)
  show ?case
  proof (cases "List.find (\<lambda>w. w \<noteq> [] \<and> prefix w s) ws")
    case None
    then have "strip_any ws s = s" by (simp add: strip_any.simps [of ws s])
    with None "1.prems" show ?thesis by (auto simp: find_None_iff)
  next
    case (Some w')
    with "1" show ?thesis by (simp add: strip_any.simps [of ws s])
  qed
qed

lemma strip_any_id:
  assumes "\<And>w. w \<in> set ws \<Longrightarrow> w \<noteq> [] \<Longrightarrow> \<not> prefix w s"
  shows "strip_any ws s = s"
proof -
  have "List.find (\<lambda>w. w \<noteq> [] \<and> prefix w s) ws = None"
    using assms by (auto simp: find_None_iff)
  then show ?thesis by (simp add: strip_any.simps [of ws s])
qed

lemma trim_right_prefix: "prefix (trim_right_space s) s"
  using strip_any_suffix [of "map rev space_seqs" "rev s"]
  by (simp add: trim_right_space_def suffix_to_prefix)

lemma trim_left_suffix: "suffix (trim_left_space s) s"
  by (simp add: trim_left_space_def strip_any_suffix)

lemma set_trim_space: "set (trim_space s) \<subseteq> set s"
  using set_mono_prefix [OF trim_right_prefix] set_mono_suffix [OF trim_left_suffix]
  unfolding trim_space_def by blast

lemma trim_space_Nil [simp]: "trim_space [] = []"
  by (simp add: trim_space_def trim_left_space_def trim_right_space_def strip_any_id space_seqs_def)

lemma trim_left_trim_space: "trim_left_space (trim_space s) = trim_space s"
  unfolding trim_left_space_def
proof (rule strip_any_id)
  fix w assume w: "w \<in> set space_seqs" "w \<noteq> []"
  then have "\<not> prefix w (trim_left_space s)"
    by (simp add: trim_left_space_def strip_any_stripped)
  then show "\<not> prefix w (trim_space s)"
    unfolding trim_space_def using prefix_trans_not trim_right_prefix by blast
qed

lemma trim_right_idem: "trim_right_space (trim_right_space s) = trim_right_space s"
proof -
  have "strip_any (map rev space_seqs) (rev (trim_right_space s)) = rev (trim_right_space s)"
    unfolding trim_right_space_def rev_rev_ident
    by (rule strip_any_id) (use strip_any_stripped in blast)
  then show ?thesis by (simp add: trim_right_space_def)
qed

lemma trim_space_idem [simp]: "trim_space (trim_space s) = trim_space s"
  using trim_left_trim_space trim_right_idem by (simp add: trim_space_def)


text \<open>A string without a byte of a space is left as it is.\<close>

lemma trim_space_plain:
  assumes "\<And>c. c \<in> set s \<Longrightarrow> c \<notin> set (concat space_seqs)"
  shows "trim_space s = s"
proof -
  have np: "\<not> prefix w t" if "w \<noteq> []" "set w \<subseteq> set (concat space_seqs)" "set t = set s" for w t
    using that assms [of "hd w"] by (metis hd_in_set set_mono_prefix subsetD)
  have "strip_any space_seqs s = s"
    by (rule strip_any_id) (rule np; auto)
  moreover have "strip_any (map rev space_seqs) (rev s) = rev s"
    by (rule strip_any_id) (rule np; auto)
  ultimately show ?thesis by (simp add: trim_space_def trim_left_space_def trim_right_space_def)
qed

lemma trim_space_no_byte: "b \<notin> set s \<Longrightarrow> b \<notin> set (trim_space s)"
  using set_trim_space by blast

subsection \<open>Letters and digits\<close>

definition byte_val :: "char \<Rightarrow> nat" where
  "byte_val c = of_char c"

definition is_digit :: "char \<Rightarrow> bool" where
  "is_digit c \<longleftrightarrow> 48 \<le> byte_val c \<and> byte_val c \<le> 57"

definition is_upper_ascii :: "char \<Rightarrow> bool" where
  "is_upper_ascii c \<longleftrightarrow> 65 \<le> byte_val c \<and> byte_val c \<le> 90"

definition is_lower_ascii :: "char \<Rightarrow> bool" where
  "is_lower_ascii c \<longleftrightarrow> 97 \<le> byte_val c \<and> byte_val c \<le> 122"

definition lower_byte :: "char \<Rightarrow> char" where
  "lower_byte c = (if is_upper_ascii c then char_of (byte_val c + 32) else c)"

definition upper_byte :: "char \<Rightarrow> char" where
  "upper_byte c = (if is_lower_ascii c then char_of (byte_val c - 32) else c)"

text \<open>
  U+0130 and U+212A are the only runes outside ASCII whose lower case is an ASCII letter
  (\<open>i\<close> and \<open>k\<close>), U+0131 and U+017F the only ones whose upper case is one (\<open>I\<close> and \<open>S\<close>).
\<close>

fun to_lower :: "string \<Rightarrow> string" where
  "to_lower [] = []"
| "to_lower (c # cs) =
     (if c = CHR 0xC4 \<and> prefix [CHR 0xB0] cs then CHR ''i'' # to_lower (drop 1 cs)
      else if c = CHR 0xE2 \<and> prefix [CHR 0x84, CHR 0xAA] cs then CHR ''k'' # to_lower (drop 2 cs)
      else lower_byte c # to_lower cs)"

fun to_upper :: "string \<Rightarrow> string" where
  "to_upper [] = []"
| "to_upper (c # cs) =
     (if c = CHR 0xC4 \<and> prefix [CHR 0xB1] cs then CHR ''I'' # to_upper (drop 1 cs)
      else if c = CHR 0xC5 \<and> prefix [CHR 0xBF] cs then CHR ''S'' # to_upper (drop 1 cs)
      else upper_byte c # to_upper cs)"

definition only_ascii_digits :: "string \<Rightarrow> string" where
  "only_ascii_digits s = filter is_digit s"

subsection \<open>Decimal numbers\<close>

text \<open>The value an \<open>int64\<close> operation leaves: arithmetic modulo \<open>2 ^ 64\<close>, signed.\<close>

definition wrap64 :: "int \<Rightarrow> int" where
  "wrap64 n = (n + 2 ^ 63) mod 2 ^ 64 - 2 ^ 63"

lemma wrap64_id: "- (2 ^ 63) \<le> n \<Longrightarrow> n < 2 ^ 63 \<Longrightarrow> wrap64 n = n"
  by (simp add: wrap64_def)

lemma wrap64_range: "- (2 ^ 63) \<le> wrap64 n \<and> wrap64 n < 2 ^ 63"
  using pos_mod_bound [of "2 ^ 64" "n + 2 ^ 63"] pos_mod_sign [of "2 ^ 64" "n + 2 ^ 63"]
  by (simp add: wrap64_def)

definition digit_char :: "nat \<Rightarrow> char" where
  "digit_char d = char_of (48 + d)"

fun nat_digits :: "nat \<Rightarrow> string" where
  "nat_digits n = (if n < 10 then [digit_char n] else nat_digits (n div 10) @ [digit_char (n mod 10)])"

declare nat_digits.simps [simp del]

text \<open>\<open>strconv.FormatInt(i, 10)\<close>, \<open>strconv.Itoa\<close> and \<open>%d\<close>.\<close>

definition itoa :: "int \<Rightarrow> string" where
  "itoa i = (if i < 0 then CHR ''-'' # nat_digits (nat (- i)) else nat_digits (nat i))"

definition digits_val :: "string \<Rightarrow> nat" where
  "digits_val s = foldl (\<lambda>a c. a * 10 + (byte_val c - 48)) 0 s"

text \<open>\<open>strconv.ParseInt(s, 10, 64)\<close> and \<open>strconv.Atoi\<close>: \<open>None\<close> is any error.\<close>

definition parse_int64 :: "string \<Rightarrow> int option" where
  "parse_int64 s =
     (let neg = prefix ''-'' s;
          ds = (if prefix ''-'' s \<or> prefix ''+'' s then drop 1 s else s)
      in if ds = [] \<or> \<not> list_all is_digit ds then None
         else let v = int (digits_val ds); i = (if neg then - v else v)
              in if - (2 ^ 63) \<le> i \<and> i < 2 ^ 63 then Some i else None)"

text \<open>\<open>strconv.Atoi\<close> with its error dropped: out of range it saturates, on a syntax error it is 0.\<close>

definition atoi64 :: "string \<Rightarrow> int" where
  "atoi64 s =
     (case parse_int64 s of
        Some n \<Rightarrow> n
      | None \<Rightarrow>
          let neg = prefix ''-'' s; ds = (if prefix ''-'' s \<or> prefix ''+'' s then drop 1 s else s) in
          if ds = [] \<or> \<not> list_all is_digit ds then 0 else if neg then - (2 ^ 63) else 2 ^ 63 - 1)"

lemma byte_val_digit_char: "d < 10 \<Longrightarrow> byte_val (digit_char d) = 48 + d"
  by (simp add: byte_val_def digit_char_def)

lemma is_digit_digit_char [simp]: "d < 10 \<Longrightarrow> is_digit (digit_char d)"
  by (simp add: is_digit_def byte_val_digit_char)

lemma nat_digits_is_digit: "list_all is_digit (nat_digits n)"
proof (induction n rule: nat_digits.induct)
  case (1 n)
  then show ?case by (cases "n < 10") (auto simp: nat_digits.simps [of n])
qed

lemma nat_digits_ne [simp]: "nat_digits n \<noteq> []"
  by (subst nat_digits.simps) simp

lemma digits_val_snoc [simp]: "digits_val (s @ [c]) = digits_val s * 10 + (byte_val c - 48)"
  by (simp add: digits_val_def)

lemma digits_val_Nil [simp]: "digits_val [] = 0"
  by (simp add: digits_val_def)

lemma digits_val_nat_digits [simp]: "digits_val (nat_digits n) = n"
proof (induction n rule: nat_digits.induct)
  case (1 n)
  show ?case
  proof (cases "n < 10")
    case True
    then show ?thesis
      by (simp add: nat_digits.simps [of n] digits_val_def byte_val_digit_char)
  next
    case False
    with "1" show ?thesis
      by (simp add: nat_digits.simps [of n] byte_val_digit_char)
  qed
qed

lemma nat_digits_inj [simp]: "nat_digits m = nat_digits n \<longleftrightarrow> m = n"
  by (metis digits_val_nat_digits)

lemma minus_not_digit [simp]: "\<not> is_digit (CHR ''-'')" "\<not> is_digit (CHR ''+'')"
  by (simp_all add: is_digit_def byte_val_def)

lemma nat_digits_not_minus:
  "\<not> prefix ''-'' (nat_digits n)" "\<not> prefix ''+'' (nat_digits n)"
  using nat_digits_is_digit [of n] by (cases "nat_digits n"; auto)+

theorem parse_itoa: "- (2 ^ 63) \<le> i \<Longrightarrow> i < 2 ^ 63 \<Longrightarrow> parse_int64 (itoa i) = Some i"
  by (cases "i < 0")
     (auto simp: parse_int64_def itoa_def Let_def nat_digits_is_digit nat_digits_not_minus)

lemma itoa_inj [simp]: "itoa i = itoa j \<longleftrightarrow> i = j"
proof -
  have "CHR ''-'' # xs \<noteq> nat_digits n" for xs n
    using nat_digits_not_minus [of n] by (metis append_Cons append_Nil prefixI)
  moreover have "nat_digits n \<noteq> CHR ''-'' # xs" for xs n
    using calculation by metis
  ultimately show ?thesis by (auto simp: itoa_def)
qed

text \<open>Evaluation of the two conversions on binary integers.\<close>

lemma int_digits_val [code_unfold]:
  "int (digits_val s) = foldl (\<lambda>a c. a * 10 + int (byte_val c - 48)) 0 s"
  by (induction s rule: rev_induct) simp_all

function int_digits :: "int \<Rightarrow> string" where
  "int_digits n = (if n < 10 then [digit_char (nat n)] else int_digits (n div 10) @ [digit_char (nat (n mod 10))])"
  by pat_completeness auto

termination int_digits
  by (relation "measure nat") auto

declare int_digits.simps [simp del]

lemma int_digits_nat: "int_digits (int n) = nat_digits n"
proof (induction n rule: nat_digits.induct)
  case (1 n)
  then show ?case
    by (subst int_digits.simps, subst nat_digits.simps) (auto simp: nat_mod_distrib zdiv_int simp flip: of_nat_mod)
qed

lemma itoa_code [code]: "itoa i = (if i < 0 then CHR ''-'' # int_digits (- i) else int_digits i)"
  using int_digits_nat [of "nat (- i)"] int_digits_nat [of "nat i"]
  by (cases "i < 0") (simp_all add: itoa_def)

subsection \<open>Splitting and joining\<close>

text \<open>\<open>strings.Split(s, sep)\<close> for a one-byte separator.\<close>

fun split_byte :: "char \<Rightarrow> string \<Rightarrow> string list" where
  "split_byte b [] = [[]]"
| "split_byte b (c # cs) =
     (if c = b then [] # split_byte b cs
      else (case split_byte b cs of [] \<Rightarrow> [[c]] | w # ws \<Rightarrow> (c # w) # ws))"

text \<open>\<open>strings.FieldsFunc\<close>: the non-empty runs between separators.\<close>

fun split_pred :: "(char \<Rightarrow> bool) \<Rightarrow> string \<Rightarrow> string list" where
  "split_pred P [] = [[]]"
| "split_pred P (c # cs) =
     (if P c then [] # split_pred P cs
      else (case split_pred P cs of [] \<Rightarrow> [[c]] | w # ws \<Rightarrow> (c # w) # ws))"

definition fields_func :: "(char \<Rightarrow> bool) \<Rightarrow> string \<Rightarrow> string list" where
  "fields_func P s = filter (\<lambda>w. w \<noteq> []) (split_pred P s)"

fun str_join :: "string list \<Rightarrow> string \<Rightarrow> string" where
  "str_join [] sep = []"
| "str_join [w] sep = w"
| "str_join (w # v # ws) sep = w @ sep @ str_join (v # ws) sep"

lemma split_byte_ne [simp]: "split_byte b s \<noteq> []"
  by (cases s) (auto split: list.splits)

lemma split_pred_ne [simp]: "split_pred P s \<noteq> []"
  by (cases s) (auto split: list.splits)

lemma str_join_Cons: "ws \<noteq> [] \<Longrightarrow> str_join (w # ws) sep = w @ sep @ str_join ws sep"
  by (cases ws) auto

lemma join_split_byte: "str_join (split_byte b s) [b] = s"
proof (induction s)
  case (Cons c cs)
  obtain w ws where sp: "split_byte b cs = w # ws" by (meson neq_Nil_conv split_byte_ne)
  with Cons show ?case by (cases ws) (auto simp: str_join_Cons)
qed simp

lemma split_pred_no_sep: "w \<in> set (split_pred P s) \<Longrightarrow> c \<in> set w \<Longrightarrow> \<not> P c"
proof (induction s arbitrary: w)
  case (Cons d cs)
  obtain v vs where "split_pred P cs = v # vs" by (meson neq_Nil_conv split_pred_ne)
  with Cons.prems Cons.IH [of v] Cons.IH [of w] show ?case by (auto split: if_splits)
qed simp

end
