(* ===== verification/Snapshot.thy ===== *)
theory Snapshot
  imports Go_Strings "HOL-Library.AList"
begin

text \<open>
  The pattern of \<open>internal/causes\<close> and \<open>internal/settings\<close>: a table keyed by text and an
  in-memory snapshot of it that the readers use. A store is the rows of the table and the
  snapshot, both under their keys. \<open>reload_rows\<close> is the read loop of \<open>Reload\<close> with its
  faults: the query fails, the scan of a row fails, or the iteration ends early, which
  \<open>rows.Next\<close> reports like the end of the rows. The locale states what such a package promises.
\<close>

record 'r store =
  st_rows :: "(string \<times> 'r) list"
  st_snap :: "(string \<times> 'r) list"

datatype read_fault = ReadOk | QueryFails | ScanFails nat | ReadStops nat

text \<open>The loop \<open>for rows.Next() \<dots> next[key] = row\<close>.\<close>

definition collect_rows :: "(string \<times> 'r) list \<Rightarrow> (string \<times> 'r) list" where
  "collect_rows rows = fold (\<lambda>(k, r). AList.update k r) rows []"

text \<open>\<open>True\<close>: no error. The snapshot is replaced only at the end.\<close>

definition reload_rows :: "read_fault \<Rightarrow> 'r store \<Rightarrow> bool \<times> 'r store" where
  "reload_rows flt s =
     (case flt of
        QueryFails \<Rightarrow> (False, s)
      | ScanFails n \<Rightarrow> if n < length (st_rows s) then (False, s) else (True, s\<lparr>st_snap := collect_rows (st_rows s)\<rparr>)
      | ReadStops n \<Rightarrow> (True, s\<lparr>st_snap := collect_rows (take n (st_rows s))\<rparr>)
      | ReadOk \<Rightarrow> (True, s\<lparr>st_snap := collect_rows (st_rows s)\<rparr>))"

definition table_of :: "'r store \<Rightarrow> (string \<rightharpoonup> 'r)" where
  "table_of s = map_of (st_rows s)"

definition snap_of :: "'r store \<Rightarrow> (string \<rightharpoonup> 'r)" where
  "snap_of s = map_of (st_snap s)"

definition keyed :: "'r store \<Rightarrow> bool" where
  "keyed s \<longleftrightarrow> distinct (map fst (st_rows s))"

text \<open>\<open>INSERT .. ON CONFLICT (key) DO UPDATE\<close>: \<open>f\<close> gives the row from the one there, if any.\<close>

definition upsert_row :: "string \<Rightarrow> ('r option \<Rightarrow> 'r) \<Rightarrow> 'r store \<Rightarrow> 'r store" where
  "upsert_row k f s = s\<lparr>st_rows := AList.update k (f (map_of (st_rows s) k)) (st_rows s)\<rparr>"

lemma collect_rows_map_of:
  "distinct (map fst rows) \<Longrightarrow> map_of (collect_rows rows) = map_of rows"
proof -
  have "map_of (fold (\<lambda>(k, r). AList.update k r) rows xs) = map_of xs ++ map_of rows"
    if "distinct (map fst rows)" for xs
    using that
  proof (induction rows arbitrary: xs)
    case (Cons p rows)
    then have "map_of rows (fst p) = None" by (simp add: map_of_eq_None_iff)
    with Cons show ?case
      by (cases p) (auto simp: update_conv map_add_def intro!: ext split: option.splits)
  qed simp
  then show "distinct (map fst rows) \<Longrightarrow> map_of (collect_rows rows) = map_of rows"
    by (simp add: collect_rows_def)
qed

lemma collect_rows_distinct: "distinct (map fst (collect_rows rows))"
proof -
  have "distinct (map fst (fold (\<lambda>(k, r). AList.update k r) rows xs))" if "distinct (map fst xs)" for xs
    using that by (induction rows arbitrary: xs) (auto simp: distinct_update)
  then show ?thesis by (simp add: collect_rows_def)
qed

lemma keyed_upsert [simp]: "keyed s \<Longrightarrow> keyed (upsert_row k f s)"
  by (simp add: keyed_def upsert_row_def distinct_update)

lemma table_upsert [simp]: "table_of (upsert_row k f s) = (table_of s)(k \<mapsto> f (table_of s k))"
  by (simp add: table_of_def upsert_row_def update_conv')

lemma snap_upsert [simp]: "snap_of (upsert_row k f s) = snap_of s"
  by (simp add: snap_of_def upsert_row_def)

text \<open>The faults in which the read loop sees every row or reports an error.\<close>

definition honest_read :: "read_fault \<Rightarrow> bool" where
  "honest_read flt \<longleftrightarrow> (case flt of ReadStops n \<Rightarrow> False | _ \<Rightarrow> True)"

subsection \<open>The contract\<close>

text \<open>
  A package that keeps a snapshot: \<open>reload\<close> either reports an error and keeps the old
  snapshot, or leaves the snapshot equal to the table, when the read is honest.
\<close>

locale snapshot_store =
  fixes reload :: "'f \<Rightarrow> 's \<Rightarrow> bool \<times> 's"
    and tab :: "'s \<Rightarrow> 'k \<rightharpoonup> 'r"
    and snap :: "'s \<Rightarrow> 'k \<rightharpoonup> 'r"
    and wf :: "'s \<Rightarrow> bool"
    and honest :: "'f \<Rightarrow> bool"
  assumes reload_done: "wf s \<Longrightarrow> honest f \<Longrightarrow> reload f s = (True, t) \<Longrightarrow> snap t = tab s"
    and reload_kept: "reload f s = (False, t) \<Longrightarrow> t = s"
    and reload_tab: "reload f s = (b, t) \<Longrightarrow> tab t = tab s \<and> (wf s \<longrightarrow> wf t)"
begin

text \<open>A write to the table followed by a reload, the shape of every writing operation.\<close>

lemma write_through:
  assumes "wf (w s)" "honest f" "reload f (w s) = (True, t)"
  shows "snap t = tab t \<and> tab t = tab (w s) \<and> wf t"
  using assms reload_done reload_tab by metis

lemma reads_after_write:
  assumes "wf (w s)" "honest f" "reload f (w s) = (b, t)" "snap (w s) = snap s"
  shows "snap t = (if b then tab (w s) else snap s) \<and> tab t = tab (w s)"
  using assms reload_done reload_kept reload_tab by (cases b) force+

end

lemma reload_rows_sel:
  assumes "reload_rows flt s = (b, t)"
  shows "st_rows t = st_rows s" "\<not> b \<Longrightarrow> t = s"
    "b \<Longrightarrow> keyed s \<Longrightarrow> honest_read flt \<Longrightarrow> snap_of t = table_of s"
  using assms
  by (auto simp: reload_rows_def snap_of_def table_of_def keyed_def honest_read_def collect_rows_map_of
      split: read_fault.splits if_splits)

interpretation rows: snapshot_store reload_rows table_of snap_of keyed honest_read
  by unfold_locales (auto simp: reload_rows_sel table_of_def keyed_def dest: reload_rows_sel)

text \<open>
  A reload whose row stream breaks off after \<open>n\<close> rows reports success and swaps in a
  snapshot of those rows only: the error that \<open>rows.Err\<close> would give is not looked at.
\<close>

theorem reload_truncates:
  assumes "keyed s"
  shows "fst (reload_rows (ReadStops n) s) \<and>
    snap_of (snd (reload_rows (ReadStops n) s)) = map_of (take n (st_rows s))"
proof -
  have "distinct (map fst (take n (st_rows s)))"
    using assms by (simp add: keyed_def distinct_take flip: take_map)
  then show ?thesis by (simp add: reload_rows_def snap_of_def collect_rows_map_of)
qed

theorem reload_truncates_witness:
  "snap_of (snd (reload_rows (ReadStops 1) \<lparr>st_rows = [(''a'', 1 :: nat), (''b'', 2)], st_snap = []\<rparr>)) ''b'' = None"
  using reload_truncates [of "\<lparr>st_rows = [(''a'', 1 :: nat), (''b'', 2)], st_snap = []\<rparr>" 1]
  by (simp add: keyed_def)

end
