(* ===== verification/Causes.thy ===== *)
theory Causes
  imports Snapshot
begin

text \<open>
  \<open>internal/causes/causes.go\<close> and the handlers of \<open>web/cause_handlers.go\<close>: the hangup-cause
  table, its snapshot and the admin's edits. \<open>sort.Slice\<close> is an argument of \<open>cause_all\<close>: the
  comparison is not a strict weak order, and then Go leaves the result open.
\<close>

record cause =
  cs_code :: string
  cs_label :: string
  cs_detail :: string
  cs_family :: string
  cs_builtin :: bool

type_synonym causes = "cause store"

definition describe :: "causes \<Rightarrow> string \<Rightarrow> string \<times> string" where
  "describe s code = (case snap_of s code of Some i \<Rightarrow> (cs_label i, cs_detail i) | None \<Rightarrow> (code, []))"

definition is_platform :: "causes \<Rightarrow> string \<Rightarrow> bool" where
  "is_platform s code = (case snap_of s code of Some i \<Rightarrow> cs_family i = ''platform'' | None \<Rightarrow> False)"

text \<open>\<open>parseInt\<close>: the digits of any string of digits, in \<open>int\<close> arithmetic that wraps.\<close>

fun parse_digits :: "int \<Rightarrow> string \<Rightarrow> int option" where
  "parse_digits n [] = Some n"
| "parse_digits n (c # cs) =
     (if is_digit c then parse_digits (wrap64 (wrap64 (n * 10) + int (byte_val c - 48))) cs else None)"

definition cause_int :: "string \<Rightarrow> int option" where
  "cause_int s = parse_digits 0 s"

text \<open>The comparison that \<open>All\<close> sorts with.\<close>

definition cause_less :: "cause \<Rightarrow> cause \<Rightarrow> bool" where
  "cause_less a b =
     (if cs_family a \<noteq> cs_family b then cs_family a = ''platform''
      else case (cause_int (cs_code a), cause_int (cs_code b)) of
        (Some i, Some j) \<Rightarrow> i < j
      | _ \<Rightarrow> cs_code a < cs_code b)"

definition cause_all :: "((cause \<Rightarrow> cause \<Rightarrow> bool) \<Rightarrow> cause list \<Rightarrow> cause list) \<Rightarrow> causes \<Rightarrow> cause list" where
  "cause_all sort_slice s = sort_slice cause_less (map snd (st_snap s))"

datatype cause_error = CauseRequired | CauseFamily | CauseExec | CauseReload | CauseProtected

definition after_write :: "read_fault \<Rightarrow> 'r store \<Rightarrow> bool \<times> 'r store" where
  "after_write flt s = reload_rows flt s"

text \<open>The row after \<open>INSERT .. ON CONFLICT (code) DO UPDATE\<close>; \<open>builtin\<close> is not in the update.\<close>

definition edited_cause :: "string \<Rightarrow> string \<Rightarrow> string \<Rightarrow> string \<Rightarrow> cause option \<Rightarrow> cause" where
  "edited_cause code label detail family old =
     (case old of
        None \<Rightarrow> \<lparr>cs_code = code, cs_label = label, cs_detail = detail, cs_family = family, cs_builtin = False\<rparr>
      | Some r \<Rightarrow> r\<lparr>cs_label := label, cs_detail := detail, cs_family := family\<rparr>)"

definition cause_upsert ::
  "bool \<Rightarrow> read_fault \<Rightarrow> string \<Rightarrow> string \<Rightarrow> string \<Rightarrow> string \<Rightarrow> causes \<Rightarrow> cause_error option \<times> causes" where
  "cause_upsert exec_ok flt code label detail family s =
     (if code = [] \<or> label = [] then (Some CauseRequired, s)
      else if family \<noteq> ''sip'' \<and> family \<noteq> ''platform'' then (Some CauseFamily, s)
      else if \<not> exec_ok then (Some CauseExec, s)
      else let (ok, s2) = after_write flt (upsert_row code (edited_cause code label detail family) s)
           in (if ok then None else Some CauseReload, s2))"

definition cause_delete :: "bool \<Rightarrow> read_fault \<Rightarrow> string \<Rightarrow> causes \<Rightarrow> cause_error option \<times> causes" where
  "cause_delete exec_ok flt code s =
     (if \<not> exec_ok then (Some CauseExec, s)
      else let hit = (\<lambda>(k, r). k = code \<and> \<not> cs_builtin r);
               s1 = s\<lparr>st_rows := filter (\<lambda>p. \<not> hit p) (st_rows s)\<rparr>
           in if filter hit (st_rows s) = [] then (Some CauseProtected, s1)
              else let (ok, s2) = after_write flt s1 in (if ok then None else Some CauseReload, s2))"

subsection \<open>The admin's pages\<close>

text \<open>The list page: the filter over \<open>All\<close>; the query parameters are trimmed.\<close>

definition cause_page :: "((cause \<Rightarrow> cause \<Rightarrow> bool) \<Rightarrow> cause list \<Rightarrow> cause list) \<Rightarrow> string \<Rightarrow> string \<Rightarrow> causes \<Rightarrow> cause list" where
  "cause_page sort_slice q0 fam0 s =
     (let q = trim_space q0; fam = trim_space fam0; ql = to_lower q in
      filter (\<lambda>c. \<not> (fam \<noteq> [] \<and> cs_family c \<noteq> fam) \<and>
          (q = [] \<or> str_contains (to_lower (cs_code c)) ql \<or> str_contains (to_lower (cs_label c)) ql \<or>
           str_contains (to_lower (cs_detail c)) ql))
        (cause_all sort_slice s))"

text \<open>The form of the create and edit page; an error becomes a flash message.\<close>

definition cause_code_upsert ::
  "bool \<Rightarrow> read_fault \<Rightarrow> (string \<Rightarrow> string) option \<Rightarrow> causes \<Rightarrow> cause_error option \<times> causes" where
  "cause_code_upsert exec_ok flt form s =
     (case form of
        None \<Rightarrow> (Some CauseRequired, s)
      | Some get \<Rightarrow>
          let family = trim_space (get ''family'');
              family' = (if family = [] then ''platform'' else family)
          in cause_upsert exec_ok flt (trim_space (get ''code'')) (trim_space (get ''label'')) (trim_space (get ''detail'')) family' s)"

datatype cause_op =
    OpUpsert bool read_fault "(string \<Rightarrow> string) option"
  | OpDelete bool read_fault string
  | OpReload read_fault

definition cause_step :: "cause_op \<Rightarrow> causes \<Rightarrow> causes" where
  "cause_step x s =
     (case x of
        OpUpsert b flt form \<Rightarrow> snd (cause_code_upsert b flt form s)
      | OpDelete b flt code \<Rightarrow> snd (cause_delete b flt code s)
      | OpReload flt \<Rightarrow> snd (reload_rows flt s))"

subsection \<open>Writes are seen by the readers\<close>

text \<open>
  C16: after a saved edit the readers see exactly the new wording, the other rows are
  untouched, and a builtin row stays builtin whatever the form said.
\<close>

theorem cause_upsert_visible:
  assumes "keyed s" "honest_read flt" and "cause_upsert exec_ok flt code label detail family s = (None, t)"
  shows "describe t code = (label, detail) \<and> is_platform t code = (family = ''platform'') \<and> keyed t \<and>
    (\<forall>k. k \<noteq> code \<longrightarrow> snap_of t k = table_of s k) \<and>
    map_option cs_builtin (table_of t code) =
      Some (case table_of s code of Some r \<Rightarrow> cs_builtin r | None \<Rightarrow> False)"
proof -
  let ?f = "edited_cause code label detail family"
  have r: "reload_rows flt (upsert_row code ?f s) = (True, t)"
    using assms(3) by (auto simp: cause_upsert_def after_write_def split: if_splits prod.splits)
  have "snap_of t = table_of t \<and> table_of t = table_of (upsert_row code ?f s) \<and> keyed t"
    using rows.write_through [of "upsert_row code ?f", OF _ assms(2) r] assms(1) by simp
  then show ?thesis
    by (cases "table_of s code") (simp_all add: describe_def is_platform_def edited_cause_def)
qed

subsection \<open>Builtin causes\<close>

definition has_builtin :: "string \<Rightarrow> causes \<Rightarrow> bool" where
  "has_builtin k s \<longleftrightarrow> keyed s \<and> (case table_of s k of Some r \<Rightarrow> cs_builtin r | None \<Rightarrow> False)"

lemma has_builtin_reload: "has_builtin k (snd (reload_rows flt s)) = has_builtin k s"
  using reload_rows_sel(1) [of flt s] by (cases "reload_rows flt s") (simp add: has_builtin_def table_of_def keyed_def)

lemma has_builtin_upsert_row:
  "has_builtin k s \<Longrightarrow> (\<And>r. cs_builtin r \<Longrightarrow> cs_builtin (f (Some r))) \<Longrightarrow> has_builtin k (upsert_row code f s)"
  by (auto simp: has_builtin_def split: option.splits)

lemma has_builtin_upsert:
  assumes "has_builtin k s"
  shows "has_builtin k (snd (cause_upsert b flt code label detail family s))"
proof -
  have "has_builtin k (upsert_row code (edited_cause code label detail family) s)"
    by (rule has_builtin_upsert_row [OF assms]) (simp add: edited_cause_def)
  with assms show ?thesis by (auto simp: cause_upsert_def after_write_def has_builtin_reload split_def Let_def)
qed

lemma has_builtin_delete:
  assumes "has_builtin k s"
  shows "has_builtin k (snd (cause_delete b flt code s))"
proof -
  let ?s = "s\<lparr>st_rows := filter (\<lambda>p. \<not> (case p of (k, r) \<Rightarrow> k = code \<and> \<not> cs_builtin r)) (st_rows s)\<rparr>"
  obtain r where r: "table_of s k = Some r" "cs_builtin r" "keyed s"
    using assms by (auto simp: has_builtin_def split: option.splits)
  then have "(k, r) \<in> set (st_rows s)" by (simp add: table_of_def map_of_SomeD)
  with r have "(k, r) \<in> set (st_rows ?s)" by simp
  moreover have "keyed ?s" using r(3) by (simp add: keyed_def distinct_map_filter)
  ultimately have "table_of ?s k = Some r" by (simp add: table_of_def keyed_def)
  then have "has_builtin k ?s" using r \<open>keyed ?s\<close> by (simp add: has_builtin_def)
  then show ?thesis
    using has_builtin_reload [of k flt ?s] assms
    by (auto simp: cause_delete_def after_write_def Let_def split_def)
qed

text \<open>
  No sequence of edits, deletions and reloads, with whatever faults, removes a builtin
  cause from the table or makes it deletable.
\<close>

theorem builtin_causes_survive:
  assumes "has_builtin k s"
  shows "has_builtin k (fold cause_step ops s)"
proof (rule fold_invariant [where P = "has_builtin k"])
  show "has_builtin k (cause_step x u)" if "has_builtin k u" for x u
    using that has_builtin_reload [of k _ u]
    by (cases x) (auto simp: cause_step_def cause_code_upsert_def Let_def has_builtin_upsert has_builtin_delete split: option.splits)
qed (rule assms)

subsection \<open>The order of the list\<close>

text \<open>
  The comparison of the list page is not an order: among the codes 9, 10 and 5x of one
  family each is less than the next in a circle, so what the page shows depends on the map
  iteration; it is irreflexive and asymmetric, and on numeric codes alone it is transitive.
\<close>

theorem cause_less_cyclic:
  "\<exists>a b c. cs_family a = ''sip'' \<and> cs_family b = ''sip'' \<and> cs_family c = ''sip'' \<and>
     cause_less a b \<and> cause_less b c \<and> cause_less c a"
proof -
  define mk where "mk code = \<lparr>cs_code = code, cs_label = ''x'', cs_detail = [], cs_family = ''sip'', cs_builtin = False\<rparr>" for code
  have "cause_less (mk ''9'') (mk ''10'')" "cause_less (mk ''10'') (mk ''5x'')" "cause_less (mk ''5x'') (mk ''9'')"
    unfolding mk_def by code_simp+
  moreover have "cs_family (mk x) = ''sip''" for x by (simp add: mk_def)
  ultimately show ?thesis by blast
qed

lemma cause_less_irrefl: "\<not> cause_less a a"
  by (simp add: cause_less_def split: option.splits)

lemma cause_less_numeric_trans:
  assumes "cause_int (cs_code a) \<noteq> None" "cause_int (cs_code b) \<noteq> None" "cause_int (cs_code c) \<noteq> None"
    and "cs_family a \<in> {''sip'', ''platform''}" "cs_family b \<in> {''sip'', ''platform''}" "cs_family c \<in> {''sip'', ''platform''}"
    and "cause_less a b" "cause_less b c"
  shows "cause_less a c"
  using assms by (elim insertE emptyE) (auto simp: cause_less_def split: if_splits option.splits)

definition sample_causes :: causes where
  "sample_causes = (let r = [(''16'', \<lparr>cs_code = ''16'', cs_label = ''normal'', cs_detail = [], cs_family = ''sip'', cs_builtin = True\<rparr>)]
    in \<lparr>st_rows = r, st_snap = r\<rparr>)"

theorem cause_upsert_visible_witness:
  "describe (snd (cause_upsert True ReadOk ''16'' ''Normal'' ''ok'' ''sip'' sample_causes)) ''16'' = (''Normal'', ''ok'')"
proof -
  have "fst (cause_upsert True ReadOk ''16'' ''Normal'' ''ok'' ''sip'' sample_causes) = None" "keyed sample_causes"
    by code_simp+
  then show ?thesis
    using cause_upsert_visible [of sample_causes ReadOk True "''16''" "''Normal''" "''ok''" "''sip''"
        "snd (cause_upsert True ReadOk ''16'' ''Normal'' ''ok'' ''sip'' sample_causes)"]
    by (cases "cause_upsert True ReadOk ''16'' ''Normal'' ''ok'' ''sip'' sample_causes") (simp add: honest_read_def)
qed

theorem builtin_causes_survive_witness:
  "has_builtin ''16'' (fold cause_step [OpDelete True ReadOk ''16'', OpReload (ReadStops 0), OpDelete True ReadOk ''16''] sample_causes)"
  by (rule builtin_causes_survive) code_simp

end
