(* ===== verification/Settings.thy ===== *)
theory Settings
  imports Snapshot "HOL-Library.Product_Lexorder" "HOL-Library.Multiset"
begin

text \<open>
  \<open>internal/settings/settings.go\<close> and \<open>settingsBulkUpdate\<close> of \<open>web/settings_handlers.go\<close>:
  the key-value settings, the readers of the snapshot and the admin's forms. The posted form
  is a list in the order the map iteration visits it.
\<close>

record setting =
  sg_key :: string
  sg_value :: string
  sg_category :: string
  sg_description :: string

type_synonym settings = "setting store"

definition setting_get :: "settings \<Rightarrow> string \<Rightarrow> string" where
  "setting_get s k = (case snap_of s k of Some r \<Rightarrow> sg_value r | None \<Rightarrow> [])"

definition get_with_default :: "settings \<Rightarrow> string \<Rightarrow> string \<Rightarrow> string" where
  "get_with_default s k dflt = (let v = setting_get s k in if v = [] then dflt else v)"

definition get_int :: "settings \<Rightarrow> string \<Rightarrow> int \<Rightarrow> int" where
  "get_int s k dflt =
     (let v = setting_get s k in
      if v = [] then dflt else case parse_int64 v of None \<Rightarrow> dflt | Some n \<Rightarrow> n)"

definition settings_all :: "settings \<Rightarrow> setting list" where
  "settings_all s = sort_key (\<lambda>r. (sg_category r, sg_key r)) (map snd (st_snap s))"

definition by_category :: "settings \<Rightarrow> string \<Rightarrow> setting list" where
  "by_category s c = sort_key sg_key (filter (\<lambda>r. sg_category r = c) (map snd (st_snap s)))"

definition edited_setting :: "string \<Rightarrow> string \<Rightarrow> setting option \<Rightarrow> setting" where
  "edited_setting k v old =
     (case old of
        None \<Rightarrow> \<lparr>sg_key = k, sg_value = v, sg_category = ''general'', sg_description = []\<rparr>
      | Some r \<Rightarrow> r\<lparr>sg_value := v\<rparr>)"

text \<open>\<open>Set\<close>: \<open>True\<close> is no error.\<close>

definition setting_set :: "bool \<Rightarrow> read_fault \<Rightarrow> string \<Rightarrow> string \<Rightarrow> settings \<Rightarrow> bool \<times> settings" where
  "setting_set exec_ok flt k v s =
     (if \<not> exec_ok then (False, s) else reload_rows flt (upsert_row k (edited_setting k v) s))"

subsection \<open>The forms\<close>

datatype bulk_reply = BulkFailed string | BulkSaved nat

text \<open>The loop over the posted fields; \<open>fl\<close> gives the faults of the \<open>i\<close>-th write.\<close>

fun bulk_loop ::
  "string list \<Rightarrow> (nat \<Rightarrow> bool \<times> read_fault) \<Rightarrow> nat \<Rightarrow> (string \<times> string list) list \<Rightarrow> settings \<Rightarrow> bulk_reply \<times> settings" where
  "bulk_loop known fl saved [] s = (BulkSaved saved, s)"
| "bulk_loop known fl saved ((k, vs) # rest) s =
     (if \<not> has_prefix k ''kv:'' \<or> vs = [] then bulk_loop known fl saved rest s
      else let key = trim_prefix k ''kv:'' in
        if key \<notin> set known then bulk_loop known fl saved rest s
        else let (ok, s') = setting_set (fst (fl saved)) (snd (fl saved)) key (hd vs) s in
          if \<not> ok then (BulkFailed key, s') else bulk_loop known fl (saved + 1) rest s')"

definition settings_bulk_update ::
  "(nat \<Rightarrow> bool \<times> read_fault) \<Rightarrow> (string \<times> string list) list \<Rightarrow> settings \<Rightarrow> bulk_reply \<times> settings" where
  "settings_bulk_update fl form s = bulk_loop (map sg_key (settings_all s)) fl 0 form s"

subsection \<open>Readers\<close>

text \<open>
  After a successful save a reader sees the new value, the category and description of
  an existing setting are kept, and no other setting changes in the table.
\<close>

theorem setting_set_visible:
  assumes "keyed s" "honest_read flt" and "setting_set exec_ok flt k v s = (True, t)"
  shows "setting_get t k = v \<and> keyed t \<and> snap_of t = table_of t \<and>
    table_of t = (table_of s)(k \<mapsto> edited_setting k v (table_of s k))"
proof -
  have r: "reload_rows flt (upsert_row k (edited_setting k v) s) = (True, t)"
    using assms(3) by (auto simp: setting_set_def split: if_splits)
  from rows.write_through [of "upsert_row k (edited_setting k v)", OF _ assms(2) r] assms(1)
  have "snap_of t = table_of t" "keyed t" "table_of t = (table_of s)(k \<mapsto> edited_setting k v (table_of s k))"
    by simp_all
  then show ?thesis by (cases "table_of s k") (simp_all add: setting_get_def edited_setting_def)
qed

text \<open>
  The settings page does not depend on the iteration order of the map: any two snapshots
  with the same rows give the same list, sorted by category and key.
\<close>

theorem settings_all_stable:
  assumes "distinct (map sg_key (map snd (st_snap s)))" "mset (st_snap s) = mset (st_snap t)"
  shows "settings_all s = settings_all t \<and>
    sorted (map (\<lambda>r. (sg_category r, sg_key r)) (settings_all s)) \<and> mset (settings_all s) = mset (map snd (st_snap s))"
proof -
  let ?f = "\<lambda>r. (sg_category r, sg_key r)"
  have "inj_on ?f (set (map snd (st_snap s)))"
    using assms(1) by (auto simp: distinct_map inj_on_def)
  moreover have "mset (map snd (st_snap s)) = mset (map snd (st_snap t))"
    using assms(2) by simp
  ultimately have "sort_key ?f (map snd (st_snap s)) = sort_key ?f (map snd (st_snap t))"
    by (intro sort_key_inj_key_eq) simp_all
  then show ?thesis using assms(2) by (simp add: settings_all_def)
qed

subsection \<open>The bulk form\<close>

text \<open>What a run of the form can change: values of known settings, and the snapshot.\<close>

definition only_values :: "string set \<Rightarrow> settings \<Rightarrow> settings \<Rightarrow> bool" where
  "only_values known s t \<longleftrightarrow>
     dom (table_of t) = dom (table_of s) \<and>
     (\<forall>k r. table_of s k = Some r \<longrightarrow>
        (\<exists>v. table_of t k = Some (r\<lparr>sg_value := v\<rparr>)) \<and> (k \<notin> known \<longrightarrow> table_of t k = Some r))"

lemma ex_same_value [simp]: "\<exists>v. (r :: setting) = r\<lparr>sg_value := v\<rparr>"
  by (rule exI [of _ "sg_value r"]) simp

lemma only_values_refl [simp]: "only_values K s s"
  by (simp add: only_values_def)

lemma only_values_trans: "only_values K s t \<Longrightarrow> only_values K t u \<Longrightarrow> only_values K s u"
  unfolding only_values_def by (intro conjI allI impI) (simp, fastforce, fastforce)

lemma setting_set_only_values:
  assumes "setting_set ok flt k v s = (b, t)" "k \<in> K" "k \<in> dom (table_of s)"
  shows "only_values K s t"
proof (cases ok)
  case True
  with assms(1) reload_rows_sel(1) have "st_rows t = st_rows (upsert_row k (edited_setting k v) s)"
    by (fastforce simp: setting_set_def)
  then have "table_of t = (table_of s)(k \<mapsto> edited_setting k v (table_of s k))"
    by (metis table_of_def table_upsert)
  with assms(2,3) show ?thesis
    by (auto simp: only_values_def edited_setting_def)
qed (use assms in \<open>simp add: setting_set_def\<close>)

lemma bulk_loop_only_values:
  "bulk_loop known fl n form s = (rep, t) \<Longrightarrow> set known \<subseteq> dom (table_of s) \<Longrightarrow> only_values (set known) s t"
proof (induction known fl n form s rule: bulk_loop.induct)
  case (2 known fl n k vs rest s)
  show ?case
  proof (cases "has_prefix k ''kv:'' \<and> vs \<noteq> [] \<and> trim_prefix k ''kv:'' \<in> set known")
    case False
    with 2 show ?thesis by (auto simp: Let_def split: if_splits)
  next
    case True
    obtain ok s' where w: "setting_set (fst (fl n)) (snd (fl n)) (trim_prefix k ''kv:'') (hd vs) s = (ok, s')" by fastforce
    with True 2(5) have v: "only_values (set known) s s'" by (intro setting_set_only_values) auto
    show ?thesis
    proof (cases ok)
      case False
      with True w 2(4) v show ?thesis by simp
    next
      case ok: True
      have "set known \<subseteq> dom (table_of s')" using v 2(5) by (simp add: only_values_def)
      moreover have "bulk_loop known fl (n + 1) rest s' = (rep, t)" using True w ok 2(4) by simp
      ultimately have "only_values (set known) s' t"
        using 2(3) [OF _ refl] True w ok by auto
      with v show ?thesis by (rule only_values_trans)
    qed
  qed
qed simp

text \<open>
  A posted settings form changes nothing but values of settings that exist: it creates no
  key, removes none and re-categorises none, whatever fields it carries and whichever write
  fails in the middle.
\<close>

theorem settings_form_only_values:
  assumes "keyed s" "snap_of s = table_of s" "\<forall>(k, r) \<in> set (st_snap s). sg_key r = k"
    and "settings_bulk_update fl form s = (rep, t)"
  shows "dom (table_of t) = dom (table_of s) \<and>
    (\<forall>k r. table_of s k = Some r \<longrightarrow> (\<exists>v. table_of t k = Some (r\<lparr>sg_value := v\<rparr>)))"
proof -
  have "set (map sg_key (settings_all s)) \<subseteq> dom (table_of s)"
    using assms(3) by (auto simp: settings_all_def snap_of_def dom_map_of_conv_image_fst simp flip: assms(2)) force
  from bulk_loop_only_values [OF assms(4) [unfolded settings_bulk_update_def] this] show ?thesis
    by (auto simp: only_values_def)
qed

definition sample_settings :: settings where
  "sample_settings = (let r = [(''company.name'', \<lparr>sg_key = ''company.name'', sg_value = ''Acme'', sg_category = ''company'', sg_description = []\<rparr>),
      (''site.url'', \<lparr>sg_key = ''site.url'', sg_value = [], sg_category = ''site'', sg_description = []\<rparr>)]
    in \<lparr>st_rows = r, st_snap = r\<rparr>)"

theorem setting_set_visible_witness:
  "setting_get (snd (setting_set True ReadOk ''site.url'' ''x'' sample_settings)) ''site.url'' = ''x''"
proof -
  have "fst (setting_set True ReadOk ''site.url'' ''x'' sample_settings)" "keyed sample_settings" by code_simp+
  then show ?thesis
    using setting_set_visible [of sample_settings ReadOk True "''site.url''" "''x''"
        "snd (setting_set True ReadOk ''site.url'' ''x'' sample_settings)"]
    by (cases "setting_set True ReadOk ''site.url'' ''x'' sample_settings") (simp add: honest_read_def)
qed

theorem settings_all_stable_witness:
  "settings_all sample_settings = settings_all (sample_settings\<lparr>st_snap := rev (st_snap sample_settings)\<rparr>)"
  using settings_all_stable [of sample_settings "sample_settings\<lparr>st_snap := rev (st_snap sample_settings)\<rparr>"]
  by (simp add: sample_settings_def Let_def)

theorem settings_form_only_values_witness:
  "dom (table_of (snd (settings_bulk_update (\<lambda>i. (True, ReadOk)) [(''kv:site.url'', [''u'']), (''kv:rogue'', [''v''])] sample_settings)))
   = dom (table_of sample_settings) \<and>
   fst (settings_bulk_update (\<lambda>i. (True, ReadOk)) [(''kv:site.url'', [''u'']), (''kv:rogue'', [''v''])] sample_settings) = BulkSaved 1"
proof
  have p: "keyed sample_settings" "snap_of sample_settings = table_of sample_settings"
    "\<forall>(k, r) \<in> set (st_snap sample_settings). sg_key r = k"
    by (simp_all add: sample_settings_def keyed_def snap_of_def table_of_def Let_def)
  show "dom (table_of (snd (settings_bulk_update (\<lambda>i. (True, ReadOk)) [(''kv:site.url'', [''u'']), (''kv:rogue'', [''v''])] sample_settings)))
      = dom (table_of sample_settings)"
    using settings_form_only_values [OF p surjective_pairing] by blast
  show "fst (settings_bulk_update (\<lambda>i. (True, ReadOk)) [(''kv:site.url'', [''u'']), (''kv:rogue'', [''v''])] sample_settings) = BulkSaved 1"
    by code_simp
qed

end
