(* ===== verification/Go_Float.thy ===== *)
theory Go_Float
  imports Complex_Main Prelude "HOL-Library.Log_Nat"
begin

text \<open>
  Go's \<open>float64\<close>: the finite values are rationals, and every operation is the exact result
  rounded to 53 significant bits, ties to even. The exponent is not bounded: the program
  computes with rates \<open>NUMERIC(10,4)\<close>, durations and balances, whose products and
  quotients stay far from \<open>2 ^ 1024\<close> and from the subnormal range. The locale
  \<open>rounding\<close> is the interface the money computations rely on; \<open>fl64\<close> implements it.
\<close>

subsection \<open>Rounding to an integer, ties to even\<close>

definition round_even :: "rat \<Rightarrow> int" where
  "round_even x =
     (let f = \<lfloor>x\<rfloor>; r = x - of_int f
      in if r < 1 / 2 then f else if 1 / 2 < r then f + 1 else if even f then f else f + 1)"

lemma round_even_err: "\<bar>of_int (round_even x) - x\<bar> \<le> 1 / 2"
proof -
  define r where "r = x - of_int \<lfloor>x\<rfloor>"
  have x: "x = of_int \<lfloor>x\<rfloor> + r" and r: "0 \<le> r" "r < 1" unfolding r_def by linarith+
  have "round_even x = \<lfloor>x\<rfloor> \<and> r \<le> 1 / 2 \<or> round_even x = \<lfloor>x\<rfloor> + 1 \<and> 1 / 2 \<le> r"
    by (auto simp: round_even_def Let_def r_def)
  then have "of_int (round_even x) - x = - r \<and> r \<le> 1 / 2 \<or> of_int (round_even x) - x = 1 - r \<and> 1 / 2 \<le> r"
    using x by auto
  with r show ?thesis by (auto simp: abs_if)
qed

lemma round_even_of_int [simp]: "round_even (of_int n) = n"
  by (simp add: round_even_def)

lemma round_even_mono:
  assumes "x \<le> y" shows "round_even x \<le> round_even y"
proof (cases "\<lfloor>x\<rfloor> = \<lfloor>y\<rfloor>")
  case True
  with assms show ?thesis by (auto simp: round_even_def Let_def)
next
  case False
  with assms have "\<lfloor>x\<rfloor> + 1 \<le> \<lfloor>y\<rfloor>" using floor_mono [OF assms] by linarith
  then show ?thesis by (auto simp: round_even_def Let_def)
qed

subsection \<open>The binary exponent\<close>

text \<open>\<open>ilog2 x\<close> is the integer \<open>k\<close> with \<open>2 powi k \<le> x < 2 powi (k + 1)\<close>, for positive \<open>x\<close>.\<close>

definition ilog2 :: "rat \<Rightarrow> int" where
  "ilog2 x =
     (let (n, d) = quotient_of x; k = bitlen n - bitlen d
      in if 2 powi k \<le> x then k else k - 1)"

lemma powi_nat_sub: "2 powi (int a - int b) = (2 ^ a / 2 ^ b :: rat)"
  by (simp add: power_int_diff)

lemma ilog2_bounds:
  assumes "0 < x"
  shows "2 powi (ilog2 x) \<le> x \<and> x < 2 powi (ilog2 x + 1)"
proof -
  obtain n d where q: "quotient_of x = (n, d)" by (cases "quotient_of x")
  have d: "0 < d" using quotient_of_denom_pos [OF q] .
  have x: "x = of_int n / of_int d" using quotient_of_div [OF q] .
  have n: "0 < n" using assms d x by (simp add: zero_less_divide_iff)
  define a where "a = nat (bitlen n - 1)"
  define b where "b = nat (bitlen d - 1)"
  have bn: "bitlen n = int a + 1" and bd: "bitlen d = int b + 1"
    using n d bitlen_bounds [OF n] bitlen_nonneg [of n] bitlen_nonneg [of d]
    by (auto simp: a_def b_def bitlen_eq_zero_iff order_le_less)
  have "2 ^ a \<le> n" "n < 2 ^ (a + 1)" "2 ^ b \<le> d" "d < 2 ^ (b + 1)"
    using bitlen_bounds [OF n] bitlen_bounds [OF d] by (auto simp: bn bd nat_add_distrib)
  then have ra: "(2 ^ a :: rat) \<le> of_int n" "(of_int n :: rat) < 2 ^ (a + 1)"
    and rb: "(2 ^ b :: rat) \<le> of_int d" "(of_int d :: rat) < 2 ^ (b + 1)"
    by (metis of_int_le_iff of_int_less_iff of_int_numeral of_int_power)+
  have lo: "2 ^ a / 2 ^ (b + 1) \<le> x"
    unfolding x using ra rb d n by (intro frac_le) auto
  have hi: "x < 2 ^ (a + 1) / 2 ^ b"
    unfolding x using ra rb n by (intro frac_less) auto
  have k: "bitlen n - bitlen d = int a - int b" by (simp add: bn bd)
  have p1: "2 powi (int a - int b - 1) = (2 ^ a / 2 ^ (b + 1) :: rat)"
    using powi_nat_sub [of a "b + 1"] by (simp add: algebra_simps)
  have p2: "2 powi (int a - int b + 1) = (2 ^ (a + 1) / 2 ^ b :: rat)"
    using powi_nat_sub [of "a + 1" b] by (simp add: algebra_simps)
  show ?thesis using lo hi by (auto simp: ilog2_def q k p1 p2 Let_def)
qed

lemma powi_mono: "i \<le> j \<Longrightarrow> (2::rat) powi i \<le> 2 powi j"
  by (rule power_int_increasing) auto

lemma ilog2_unique:
  assumes "2 powi k \<le> x" "x < 2 powi (k + 1)"
  shows "ilog2 x = k"
proof -
  have "0 < (2::rat) powi k" by simp
  with assms have x: "0 < x" by linarith
  note b = ilog2_bounds [OF x]
  have "\<not> k + 1 \<le> ilog2 x" using powi_mono [of "k + 1" "ilog2 x"] b assms by linarith
  moreover have "\<not> ilog2 x + 1 \<le> k" using powi_mono [of "ilog2 x + 1" k] b assms by linarith
  ultimately show ?thesis by linarith
qed

lemma ilog2_mono:
  assumes "0 < x" "x \<le> y" shows "ilog2 x \<le> ilog2 y"
proof (rule ccontr)
  assume "\<not> ilog2 x \<le> ilog2 y"
  then have "2 powi (ilog2 y + 1) \<le> (2::rat) powi ilog2 x" by (intro powi_mono) linarith
  moreover have "2 powi ilog2 x \<le> x" "y < 2 powi (ilog2 y + 1)"
    using ilog2_bounds [of x] ilog2_bounds [of y] assms by auto
  ultimately show False using assms by linarith
qed

subsection \<open>float64 rounding\<close>

definition fl64 :: "rat \<Rightarrow> rat" where
  "fl64 x =
     (if x = 0 then 0
      else let u = 2 powi (ilog2 \<bar>x\<bar> - 52) in of_int (round_even (x / u)) * u)"


lemma ulp_scale: "2 ^ 52 * 2 powi (k - 52) = (2 powi k :: rat)"
proof -
  have "(2::rat) powi (52 + (k - 52)) = 2 powi 52 * 2 powi (k - 52)" by (rule power_int_add) simp
  moreover have "(2::rat) powi 52 = 2 ^ 52" by (simp add: power_int_numeral)
  ultimately show ?thesis by simp
qed

lemma fl64_unfold:
  assumes "0 < x"
  obtains u where "0 < u" "fl64 x = of_int (round_even (x / u)) * u"
    "2 ^ 52 \<le> x / u" "x / u < 2 ^ 53" "2 ^ 52 * u = 2 powi ilog2 x"
proof
  define u :: rat where "u = 2 powi (ilog2 x - 52)"
  show "0 < u" by (simp add: u_def)
  show "fl64 x = of_int (round_even (x / u)) * u" using assms by (simp add: fl64_def u_def Let_def)
  show s: "2 ^ 52 * u = 2 powi ilog2 x" unfolding u_def by (rule ulp_scale)
  have "2 powi (ilog2 x + 1) = 2 ^ 53 * u" using s by (simp add: power_int_add)
  with ilog2_bounds [OF assms] s \<open>0 < u\<close> show "2 ^ 52 \<le> x / u" "x / u < 2 ^ 53"
    by (simp_all add: field_simps)
qed

lemma round_even_minus: "round_even (- x) = - round_even x"
proof (cases "x = of_int \<lfloor>x\<rfloor>")
  case True
  then show ?thesis by (metis of_int_minus round_even_of_int)
next
  case False
  then have f: "\<lfloor>- x\<rfloor> = - \<lfloor>x\<rfloor> - 1" by linarith
  have "even (- \<lfloor>x\<rfloor> - 1) \<longleftrightarrow> odd \<lfloor>x\<rfloor>" by simp
  then show ?thesis by (auto simp: round_even_def Let_def f)
qed

lemma fl64_0 [simp]: "fl64 0 = 0"
  by (simp add: fl64_def)

lemma fl64_minus: "fl64 (- x) = - fl64 x"
  by (simp add: fl64_def round_even_minus Let_def)

lemma fl64_err_pos:
  assumes "0 < x" shows "\<bar>fl64 x - x\<bar> \<le> x / 2 ^ 53"
proof -
  obtain u where u: "0 < u" "fl64 x = of_int (round_even (x / u)) * u" "2 ^ 52 \<le> x / u"
    using fl64_unfold [OF assms] by metis
  have "fl64 x - x = (of_int (round_even (x / u)) - x / u) * u"
    using u by (simp add: left_diff_distrib)
  then have "\<bar>fl64 x - x\<bar> = \<bar>of_int (round_even (x / u)) - x / u\<bar> * u"
    using u(1) by (simp add: abs_mult)
  also have "\<dots> \<le> 1 / 2 * u" using round_even_err u(1) by (intro mult_right_mono) auto
  also have "\<dots> \<le> x / 2 ^ 53" using u(1,3) by (simp add: field_simps)
  finally show ?thesis .
qed

theorem fl64_err: "\<bar>fl64 x - x\<bar> \<le> \<bar>x\<bar> / 2 ^ 53"
proof (cases "0 < x \<or> x = 0")
  case True
  then show ?thesis using fl64_err_pos by auto
next
  case False
  then have "\<bar>fl64 (- x) - (- x)\<bar> \<le> (- x) / 2 ^ 53" by (intro fl64_err_pos) auto
  with False show ?thesis by (simp add: fl64_minus abs_if split: if_splits)
qed

lemma fl64_binade:
  assumes "0 < x" shows "2 powi ilog2 x \<le> fl64 x \<and> fl64 x \<le> 2 powi (ilog2 x + 1)"
proof -
  obtain u where u: "0 < u" "fl64 x = of_int (round_even (x / u)) * u" "2 ^ 52 \<le> x / u"
      "x / u < 2 ^ 53" "2 ^ 52 * u = 2 powi ilog2 x"
    using fl64_unfold [OF assms] by metis
  have p: "2 powi (ilog2 x + 1) = 2 ^ 53 * u" using u(5) by (simp add: power_int_add)
  have "round_even (of_int (2 ^ 52)) \<le> round_even (x / u)"
    using u(3) by (intro round_even_mono) simp
  then have "(2 ^ 52 :: int) \<le> round_even (x / u)" by (simp only: round_even_of_int)
  then have "of_int (2 ^ 52) \<le> (of_int (round_even (x / u)) :: rat)" by (simp only: of_int_le_iff)
  then have lo: "(2 ^ 52 :: rat) \<le> of_int (round_even (x / u))" by simp
  have "round_even (x / u) \<le> round_even (of_int (2 ^ 53))"
    using u(4) by (intro round_even_mono) simp
  then have "round_even (x / u) \<le> (2 ^ 53 :: int)" by (simp only: round_even_of_int)
  then have "of_int (round_even (x / u)) \<le> (of_int (2 ^ 53) :: rat)" by (simp only: of_int_le_iff)
  then have hi: "of_int (round_even (x / u)) \<le> (2 ^ 53 :: rat)" by simp
  show ?thesis
    unfolding u(2) p u(5) [symmetric] using lo hi u(1) by (auto intro: mult_right_mono)
qed

lemma fl64_nonneg: "0 \<le> x \<Longrightarrow> 0 \<le> fl64 x"
  using fl64_binade [of x] zero_le_power_int [of "2::rat" "ilog2 x"]
  by (cases "x = 0") (auto simp del: zero_le_power_int intro: order_trans)

theorem fl64_mono:
  assumes "0 \<le> x" "x \<le> y" shows "fl64 x \<le> fl64 y"
proof (cases "x = 0")
  case True
  with assms show ?thesis using fl64_nonneg by simp
next
  case False
  with assms have x: "0 < x" and y: "0 < y" by auto
  show ?thesis
  proof (cases "ilog2 x = ilog2 y")
    case True
    have u: "0 < (2::rat) powi (ilog2 y - 52)" by simp
    have "round_even (x / 2 powi (ilog2 y - 52)) \<le> round_even (y / 2 powi (ilog2 y - 52))"
      using assms u by (intro round_even_mono divide_right_mono) auto
    with True x y u show ?thesis by (simp add: fl64_def Let_def)
  next
    case False
    then have "ilog2 x + 1 \<le> ilog2 y" using ilog2_mono [OF x assms(2)] by linarith
    then have "2 powi (ilog2 x + 1) \<le> (2::rat) powi ilog2 y" by (rule powi_mono)
    then show ?thesis using fl64_binade [OF x] fl64_binade [OF y] by linarith
  qed
qed

lemma fl64_pos_int:
  assumes "0 < n" "n < 2 ^ 53" shows "fl64 (of_int n) = of_int n"
proof -
  have "(of_int n :: rat) < of_int (2 ^ 53)" using assms by (simp only: of_int_less_iff)
  then have n53: "(of_int n :: rat) < 2 powi 53" by (simp add: power_int_numeral)
  have "\<not> 53 \<le> ilog2 (of_int n)"
    using powi_mono [of 53 "ilog2 (of_int n)"] ilog2_bounds [of "of_int n"] assms n53 by auto
  then obtain m where m: "ilog2 (of_int n) - 52 = - int m"
    by (metis add.inverse_inverse diff_le_0_iff_le le_minus_iff nonneg_int_cases not_less
        add.inverse_neutral zle_add1_eq_le numeral_plus_one add_num_simps)
  have "(of_int n :: rat) / 2 powi (- int m) = of_int (n * 2 ^ m)"
    by (simp add: power_int_minus field_simps)
  then have "round_even (of_int n / 2 powi (- int m)) = n * 2 ^ m"
    by (simp only: round_even_of_int)
  then show ?thesis
    using assms by (simp add: fl64_def m Let_def power_int_minus)
qed

theorem fl64_exact:
  assumes "\<bar>n\<bar> < 2 ^ 53" shows "fl64 (of_int n) = of_int n"
proof -
  consider "n = 0" | "0 < n" | "0 < - n" by linarith
  then show ?thesis
  proof cases
    case 2
    with assms show ?thesis by (intro fl64_pos_int) auto
  next
    case 3
    with assms have "fl64 (of_int (- n)) = of_int (- n)" by (intro fl64_pos_int) auto
    then show ?thesis by (simp add: fl64_minus)
  qed simp
qed

subsection \<open>The interface of a rounding operation\<close>

text \<open>
  What the money computations need of the rounding: a relative error of one half unit in
  the last place, monotonicity, and exactness on the integers below \<open>2 ^ 53\<close>.
\<close>

locale rounding =
  fixes rnd :: "rat \<Rightarrow> rat"
  assumes err: "\<bar>rnd x - x\<bar> \<le> \<bar>x\<bar> / 2 ^ 53"
    and mono: "0 \<le> x \<Longrightarrow> x \<le> y \<Longrightarrow> rnd x \<le> rnd y"
    and exact: "\<bar>n\<bar> < 2 ^ 53 \<Longrightarrow> rnd (of_int n) = of_int n"
begin

lemma zero [simp]: "rnd 0 = 0"
  using exact [of 0] by simp

lemma nonneg: "0 \<le> x \<Longrightarrow> 0 \<le> rnd x"
  using mono [of 0 x] by simp

lemma upper: "0 \<le> x \<Longrightarrow> rnd x \<le> x * (1 + 1 / 2 ^ 53)"
  using err [of x] by (simp add: algebra_simps abs_if split: if_splits)

lemma lower: "0 \<le> x \<Longrightarrow> x * (1 - 1 / 2 ^ 53) \<le> rnd x"
  using err [of x] by (simp add: algebra_simps abs_if split: if_splits)

text \<open>A non-negative product of an exact integer with a rounded factor is off by less than one.\<close>

lemma product_error:
  assumes "0 \<le> n" "n < 2 ^ 53" "0 \<le> q" "of_int n * q \<le> 2 ^ 50"
  shows "\<bar>rnd (rnd (of_int n) * rnd q) - of_int n * q\<bar> \<le> 1 / 2"
proof -
  let ?e = "1 / 2 ^ 53 :: rat"
  have n: "rnd (of_int n) = of_int n" using assms by (intro exact) auto
  have rq: "\<bar>rnd q - q\<bar> \<le> q * ?e" using err [of q] assms by simp
  have "\<bar>of_int n * rnd q - of_int n * q\<bar> = of_int n * \<bar>rnd q - q\<bar>"
    using assms by (simp add: right_diff_distrib [symmetric] abs_mult)
  also have "\<dots> \<le> of_int n * (q * ?e)" using rq assms by (intro mult_left_mono) auto
  also have "\<dots> \<le> 2 ^ 50 * ?e" using assms by (simp add: field_simps)
  finally have p: "\<bar>of_int n * rnd q - of_int n * q\<bar> \<le> 1 / 8" by simp
  have nn: "0 \<le> of_int n * rnd q" using assms nonneg by auto
  have "\<bar>rnd (of_int n * rnd q) - of_int n * rnd q\<bar> \<le> (of_int n * rnd q) * ?e"
    using err [of "of_int n * rnd q"] nn by simp
  also have "\<dots> \<le> (2 ^ 50 + 1) * ?e"
  proof (rule mult_right_mono)
    show "of_int n * rnd q \<le> 2 ^ 50 + 1" using p assms(4) by linarith
  qed simp
  finally have "\<bar>rnd (of_int n * rnd q) - of_int n * rnd q\<bar> \<le> 1 / 4" by simp
  with p n show ?thesis by (simp add: abs_if split: if_splits)
qed

lemma ceiling_product:
  assumes "0 \<le> n" "n < 2 ^ 53" "0 \<le> q" "of_int n * q \<le> 2 ^ 50"
  shows "\<bar>\<lceil>rnd (rnd (of_int n) * rnd q)\<rceil> - \<lceil>of_int n * q\<rceil>\<bar> \<le> 1"
  using product_error [OF assms] by linarith

end

interpretation ieee: rounding fl64
  by unfold_locales (rule fl64_err fl64_mono fl64_exact; assumption?)+

end
