(* ===== verification/Go_Number.thy ===== *)
theory Go_Number
  imports Go_Strings Go_Float
begin

text \<open>
  \<open>strconv.ParseFloat\<close> and the conversion of a float to an integer. A decimal number has an
  exact value, which is rounded once; \<open>float_syntax\<close> is \<open>None\<close> for text that is no decimal
  number, \<open>parse_float\<close> also for one that rounds past the largest float64. The words inf and
  nan are recognised by \<open>float_word\<close>; hexadecimal floats count as text. A float that no
  \<open>int64\<close> represents converts to the least \<open>int64\<close>, as on amd64, where the program runs.
\<close>

definition exp10 :: "int \<Rightarrow> rat \<Rightarrow> rat" where
  "exp10 e v = (if 0 \<le> e then v * 10 ^ nat e else v / 10 ^ nat (- e))"

text \<open>The exponent part: nothing, or a sign and at least one digit up to the end.\<close>

definition parse_exponent :: "string \<Rightarrow> int option" where
  "parse_exponent s =
     (if s = [] then Some 0
      else if hd s \<in> {CHR ''e'', CHR ''E''} then
        (let t = tl s; neg = prefix ''-'' t; ds = (if prefix ''-'' t \<or> prefix ''+'' t then tl t else t)
         in if ds = [] \<or> \<not> list_all is_digit ds then None
            else let v = int (digits_val ds) in Some (if neg then - v else v))
      else None)"

definition float_syntax :: "string \<Rightarrow> rat option" where
  "float_syntax s =
     (let neg = prefix ''-'' s;
          b = (if prefix ''-'' s \<or> prefix ''+'' s then tl s else s);
          m = takeWhile is_digit b; r = dropWhile is_digit b;
          f = (if prefix ''.'' r then takeWhile is_digit (tl r) else []);
          r' = (if prefix ''.'' r then dropWhile is_digit (tl r) else r)
      in if m @ f = [] then None
         else case parse_exponent r' of
           None \<Rightarrow> None
         | Some e \<Rightarrow>
             let x = fl64 (exp10 (e - int (length f)) (of_int (int (digits_val (m @ f)))))
             in Some (if neg then - x else x))"

definition float_limit :: rat where "float_limit = 2 ^ 1024"

definition parse_float :: "string \<Rightarrow> rat option" where
  "parse_float s = (case float_syntax s of None \<Rightarrow> None | Some x \<Rightarrow> if float_limit \<le> \<bar>x\<bar> then None else Some x)"

definition float_word :: "string \<Rightarrow> bool" where
  "float_word s \<longleftrightarrow>
     (let t = map lower_byte s; b = (if prefix ''-'' t \<or> prefix ''+'' t then tl t else t)
      in t = ''nan'' \<or> b = ''inf'' \<or> b = ''infinity'')"

definition trunc :: "rat \<Rightarrow> int" where
  "trunc x = (if 0 \<le> x then \<lfloor>x\<rfloor> else \<lceil>x\<rceil>)"

definition min_int64 :: int where "min_int64 = - (2 ^ 63)"

definition float_to_int64 :: "rat \<Rightarrow> int" where
  "float_to_int64 x = (let n = trunc x in if - (2 ^ 63) \<le> n \<and> n < 2 ^ 63 then n else min_int64)"

subsection \<open>Decimal numbers with a fraction\<close>

text \<open>The value of a plain decimal number is its digits over a power of ten, rounded.\<close>

lemma float_syntax_decimal:
  assumes "list_all is_digit m" "m \<noteq> []" "list_all is_digit f"
  shows "float_syntax (m @ CHR ''.'' # f) = Some (fl64 (of_nat (digits_val (m @ f)) / 10 ^ length f))"
proof -
  let ?s = "m @ CHR ''.'' # f"
  have d: "\<not> is_digit (CHR ''.'')" by code_simp
  have sgn: "\<not> prefix ''-'' ?s" "\<not> prefix ''+'' ?s" using assms(1,2) by (cases m; auto)+
  have tw: "takeWhile is_digit ?s = m" "dropWhile is_digit ?s = CHR ''.'' # f"
    "takeWhile is_digit f = f" "dropWhile is_digit f = []"
    using assms d by (simp_all add: takeWhile_eq_all_conv dropWhile_eq_Nil_conv list_all_iff takeWhile_append2 dropWhile_append2)
  show ?thesis
    unfolding float_syntax_def Let_def using sgn assms(2)
    by (simp add: tw parse_exponent_def exp10_def)
qed

lemma float_syntax_minus:
  assumes "t \<noteq> []" "is_digit (hd t)"
  shows "float_syntax (CHR ''-'' # t) = map_option uminus (float_syntax t)"
proof -
  have sgn: "\<not> prefix ''-'' t" "\<not> prefix ''+'' t" using assms by (cases t; auto)+
  show ?thesis unfolding float_syntax_def Let_def using sgn by (auto split: option.split)
qed

text \<open>Words start with a letter, numbers with a digit or a sign.\<close>

lemma float_word_number: "t \<noteq> [] \<Longrightarrow> is_digit (hd t) \<Longrightarrow> \<not> float_word t \<and> \<not> float_word (CHR ''-'' # t)"
proof -
  assume t: "t \<noteq> []" "is_digit (hd t)"
  have low: "lower_byte (CHR ''-'') = CHR ''-''" by code_simp
  obtain c cs where c: "t = c # cs" "is_digit c" using t by (cases t) auto
  have "lower_byte c = c" using c(2) by (auto simp: is_digit_def lower_byte_def is_upper_ascii_def)
  moreover have "c \<noteq> CHR ''n''" "c \<noteq> CHR ''i''" "c \<noteq> CHR ''-''" "c \<noteq> CHR ''+''"
    using c(2) by (auto simp: is_digit_def byte_val_def)
  ultimately show ?thesis by (simp add: float_word_def low c(1) Let_def)
qed

end
