(* ===== verification/Callquality.thy ===== *)
theory Callquality
  imports Go_Number "HOL-Library.Multiset"
begin

text \<open>
  \<open>internal/callquality/callquality.go\<close>: the parser of tshark's RTP stream table, the
  classification of a stream's timing and the verdict over the streams of a call. What
  tshark prints for a capture file and a time window is an argument (\<open>None\<close>: no slot or an
  error); \<open>sort.Slice\<close> is an argument too, as it leaves ties open. An issue of the verdict is
  kept as its kind and stream instead of its English text.
\<close>

subsection \<open>Text\<close>

text \<open>\<open>strings.Fields\<close>; tshark separates its columns by ASCII blanks.\<close>

definition ws_fields :: "string \<Rightarrow> string list" where
  "ws_fields s = fields_func (\<lambda>c. c \<in> {CHR 0x09, CHR 0x0A, CHR 0x0B, CHR 0x0C, CHR 0x0D, CHR 0x20}) s"

definition trim_right_set :: "char set \<Rightarrow> string \<Rightarrow> string" where
  "trim_right_set cs s = rev (dropWhile (\<lambda>c. c \<in> cs) (rev s))"

text \<open>The lines of a \<open>bufio.Scanner\<close>: no line end, no empty line after the last one.\<close>

definition scan_lines :: "string \<Rightarrow> string list" where
  "scan_lines s =
     (let ls = split_byte (CHR 0x0A) s; ls' = (if List.last ls = [] then butlast ls else ls)
      in map (\<lambda>l. trim_suffix l [CHR 0x0D]) ls')"

subsection \<open>Streams\<close>

datatype timing_note = NoNote | NoteCnMixed | NoteCodecChange string | NoteCnOnly | NoteCeiling

datatype direction = DirNone | DirIn | DirOut | DirUnknown

definition direction_text :: "direction \<Rightarrow> string" where
  "direction_text d = (case d of DirNone \<Rightarrow> [] | DirIn \<Rightarrow> ''in'' | DirOut \<Rightarrow> ''out'' | DirUnknown \<Rightarrow> ''?'')"

record rtp_stream =
  rt_src :: string
  rt_dst :: string
  rt_ssrc :: string
  rt_payload :: string
  rt_packets :: int
  rt_lost :: int
  rt_loss :: rat
  rt_max_delta :: rat
  rt_mean_jitter :: rat
  rt_max_jitter :: rat
  rt_problems :: bool
  rt_direction :: direction
  rt_unreliable :: bool
  rt_note :: timing_note

definition codec_names :: "string \<Rightarrow> string list" where
  "codec_names p = remdups (filter (\<lambda>n. n \<noteq> []) (map trim_space (split_byte (CHR '','') p)))"

definition is_cn :: "string \<Rightarrow> bool" where
  "is_cn n \<longleftrightarrow> n = ''CN'' \<or> has_suffix n ''-CN''"

definition classify_payload :: "rtp_stream \<Rightarrow> rtp_stream" where
  "classify_payload s =
     (let p = to_upper (filter (\<lambda>c. c \<noteq> CHR '' '') (rt_payload s));
          s1 = (if CHR '','' \<in> set p \<and> 1 < length (codec_names p)
                then s\<lparr>rt_unreliable := True,
                       rt_note := (if list_ex is_cn (codec_names p) then NoteCnMixed else NoteCodecChange (rt_payload s))\<rparr>
                else s);
          s2 = (if p = ''CN'' then s1\<lparr>rt_unreliable := True, rt_note := NoteCnOnly\<rparr> else s1)
      in if 500 < rt_mean_jitter s2 \<or> 1000 < rt_max_jitter s2
         then s2\<lparr>rt_unreliable := True, rt_note := (if rt_note s2 = NoNote then NoteCeiling else rt_note s2)\<rparr>
         else s2)"

definition parse_num :: "string \<Rightarrow> rat option" where
  "parse_num x = parse_float (trim_suffix (trim_space x) ''ms'')"

definition numeric_tail :: "string list \<Rightarrow> nat" where
  "numeric_tail f = length (takeWhile (\<lambda>t. parse_num t \<noteq> None) (rev (drop 7 f)))"

definition loss_percent :: "int \<Rightarrow> int \<Rightarrow> rat" where
  "loss_percent packets lost =
     (if 0 < packets + lost then fl64 (fl64 (of_int lost / of_int (packets + lost)) * 100) else 0)"

text \<open>The columns of the three layouts: packets, lost, max delta, mean jitter, max jitter.\<close>

definition stream_columns :: "nat \<Rightarrow> rat list \<Rightarrow> int \<times> int \<times> rat \<times> rat \<times> rat" where
  "stream_columns n nums =
     (let (d, j, m) = (if n = 8 then (4, 6, 7) else if n = 6 then (3, 4, 5) else (2, 3, 4))
      in (trunc (nums ! 0), trunc (nums ! 1), nums ! d, nums ! j, nums ! m))"

definition num_columns :: "string list \<Rightarrow> nat option" where
  "num_columns f =
     (let k = numeric_tail f in if 8 \<le> k then Some 8 else if 6 \<le> k then Some 6 else if 5 \<le> k then Some 5 else None)"

text \<open>The parenthesised percentage after the lost packets.\<close>

definition loss_token :: "string \<Rightarrow> bool" where
  "loss_token t \<longleftrightarrow> has_prefix t ''('' \<and> has_suffix t ''%)''"

definition parse_stream_line :: "string list \<Rightarrow> rtp_stream option" where
  "parse_stream_line f0 =
     (if length f0 < 10 then None
      else let problems = (List.last f0 = ''X'');
               f1 = (if problems then butlast f0 else f0);
               f = filter (\<lambda>t. \<not> loss_token t) f1
           in if length f < 10 then None
              else case num_columns f of
                None \<Rightarrow> None
              | Some n \<Rightarrow>
                  let base = length f - n;
                      nums = map (\<lambda>t. case parse_num t of Some v \<Rightarrow> v | None \<Rightarrow> 0) (drop base f);
                      (packets, lost, delta, jitter, maxj) = stream_columns n nums
                  in Some (classify_payload
                       \<lparr>rt_src = f ! 2 @ '':'' @ f ! 3, rt_dst = f ! 4 @ '':'' @ f ! 5, rt_ssrc = f ! 6,
                        rt_payload = str_join (take (base - 7) (drop 7 f)) '' '',
                        rt_packets = packets, rt_lost = lost, rt_loss = loss_percent packets lost,
                        rt_max_delta = delta, rt_mean_jitter = jitter, rt_max_jitter = maxj,
                        rt_problems = problems, rt_direction = DirNone, rt_unreliable = False, rt_note = NoNote\<rparr>))"

fun table_rows :: "bool \<Rightarrow> string list \<Rightarrow> rtp_stream list" where
  "table_rows inside [] = []"
| "table_rows inside (raw # raws) =
     (let line = trim_right_set {CHR '' '', CHR 0x09, CHR 0x0D} raw; trim = trim_space line; low = to_lower trim in
      if str_contains line ''RTP Streams'' then table_rows True raws
      else if \<not> inside \<or> trim = [] then table_rows inside raws
      else if has_prefix trim ''='' then table_rows False raws
      else if str_contains low ''start time'' \<and> str_contains low ''end time'' then table_rows inside raws
      else case parse_stream_line (ws_fields line) of
        None \<Rightarrow> table_rows inside raws
      | Some s \<Rightarrow> s # table_rows inside raws)"

definition parse_rtp_streams :: "string \<Rightarrow> rtp_stream list" where
  "parse_rtp_streams out = table_rows False (scan_lines out)"

subsection \<open>The verdict\<close>

datatype level = Unknown | Good | Acceptable | Poor | Bad

text \<open>The map \<open>rank\<close>; a name that is not in it ranks 0.\<close>

definition level_rank :: "level \<Rightarrow> nat" where
  "level_rank l = (case l of Unknown \<Rightarrow> 0 | Good \<Rightarrow> 1 | Acceptable \<Rightarrow> 2 | Poor \<Rightarrow> 3 | Bad \<Rightarrow> 4)"

instantiation level :: linorder
begin

definition less_eq_level :: "level \<Rightarrow> level \<Rightarrow> bool" where
  "less_eq_level a b \<longleftrightarrow> level_rank a \<le> level_rank b"

definition less_level :: "level \<Rightarrow> level \<Rightarrow> bool" where
  "less_level a b \<longleftrightarrow> level_rank a < level_rank b"

instance
proof
  fix a b c :: level
  show "a < b \<longleftrightarrow> a \<le> b \<and> \<not> b \<le> a" "a \<le> a" "a \<le> b \<or> b \<le> a"
    by (auto simp: less_eq_level_def less_level_def)
  show "a \<le> b \<Longrightarrow> b \<le> c \<Longrightarrow> a \<le> c" by (simp add: less_eq_level_def)
  show "a \<le> b \<Longrightarrow> b \<le> a \<Longrightarrow> a = b"
    by (cases a; cases b) (simp_all add: less_eq_level_def level_rank_def)
qed

end

datatype issue =
    IssueLoss level rtp_stream
  | IssueGap level rtp_stream
  | IssueJitter level rtp_stream
  | IssueUnreliable
  | IssueOneWay direction

record verdict =
  vd_level :: level
  vd_issues :: "issue list"

definition set_level :: "level \<Rightarrow> verdict \<Rightarrow> verdict" where
  "set_level l v = (if vd_level v < l then v\<lparr>vd_level := l\<rparr> else v)"

definition report_issue :: "level \<Rightarrow> issue \<Rightarrow> verdict \<Rightarrow> verdict" where
  "report_issue l i v = (set_level l v)\<lparr>vd_issues := vd_issues v @ [i]\<rparr>"

definition judge_loss :: "rtp_stream \<Rightarrow> verdict \<Rightarrow> verdict" where
  "judge_loss s v =
     (if 5 \<le> rt_loss s then report_issue Bad (IssueLoss Bad s) v
      else if 1 \<le> rt_loss s then report_issue Poor (IssueLoss Poor s) v
      else if 0 < rt_loss s then report_issue Acceptable (IssueLoss Acceptable s) v else v)"

definition judge_gap :: "rtp_stream \<Rightarrow> verdict \<Rightarrow> verdict" where
  "judge_gap s v =
     (if 200 \<le> rt_max_delta s then report_issue Bad (IssueGap Bad s) v
      else if 100 \<le> rt_max_delta s then report_issue Poor (IssueGap Poor s) v
      else if 60 \<le> rt_max_delta s then report_issue Acceptable (IssueGap Acceptable s) v else v)"

definition judge_jitter :: "rtp_stream \<Rightarrow> verdict \<Rightarrow> verdict" where
  "judge_jitter s v =
     (if 50 \<le> rt_mean_jitter s then report_issue Bad (IssueJitter Bad s) v
      else if 30 \<le> rt_mean_jitter s then report_issue Poor (IssueJitter Poor s) v
      else if 20 \<le> rt_mean_jitter s then report_issue Acceptable (IssueJitter Acceptable s) v else v)"

definition judge_stream :: "rtp_stream \<Rightarrow> verdict \<Rightarrow> verdict" where
  "judge_stream s v =
     (let v1 = judge_loss s v in if rt_unreliable s then v1 else judge_jitter s (judge_gap s v1))"

definition one_way :: "rtp_stream list \<Rightarrow> bool" where
  "one_way ss \<longleftrightarrow> list_ex (\<lambda>s. rt_direction s = DirIn) ss \<noteq> list_ex (\<lambda>s. rt_direction s = DirOut) ss"

definition derive_verdict :: "rtp_stream list \<Rightarrow> verdict" where
  "derive_verdict ss =
     (if ss = [] then \<lparr>vd_level = Unknown, vd_issues = []\<rparr>
      else let v1 = fold judge_stream ss (set_level Good \<lparr>vd_level = Unknown, vd_issues = []\<rparr>);
               v2 = (if list_ex rt_unreliable ss then v1\<lparr>vd_issues := vd_issues v1 @ [IssueUnreliable]\<rparr> else v1)
           in if one_way ss
              then report_issue Poor (IssueOneWay (if list_ex (\<lambda>s. rt_direction s = DirIn) ss then DirIn else DirOut)) v2
              else v2)"

subsection \<open>The report\<close>

record quality_report =
  qr_streams :: "rtp_stream list"
  qr_verdict :: verdict
  qr_pcaps :: "string list"
  qr_no_rtp :: bool

definition split_addr :: "string \<Rightarrow> string \<times> string" where
  "split_addr a =
     (case last_index_byte a (CHR '':'') of
        Some i \<Rightarrow> if 0 < i then (take i a, drop (i + 1) a) else (a, [])
      | None \<Rightarrow> (a, []))"

definition stream_key :: "rtp_stream \<Rightarrow> string" where
  "stream_key s = rt_ssrc s @ ''|'' @ rt_src s @ ''|'' @ rt_dst s"

definition with_direction :: "string \<Rightarrow> rtp_stream \<Rightarrow> rtp_stream" where
  "with_direction our s =
     s\<lparr>rt_direction := (if fst (split_addr (rt_src s)) = our then DirOut
                       else if fst (split_addr (rt_dst s)) = our then DirIn else DirUnknown)\<rparr>"

fun scope_streams :: "string \<Rightarrow> string set \<Rightarrow> string set \<Rightarrow> rtp_stream list \<Rightarrow> rtp_stream list" where
  "scope_streams our ips seen [] = []"
| "scope_streams our ips seen (s # ss) =
     (if ips \<noteq> {} \<and> fst (split_addr (rt_src s)) \<notin> ips \<and> fst (split_addr (rt_dst s)) \<notin> ips
      then scope_streams our ips seen ss
      else if stream_key s \<in> seen then scope_streams our ips seen ss
      else with_direction our s # scope_streams our ips (insert (stream_key s) seen) ss)"

definition stream_before :: "rtp_stream \<Rightarrow> rtp_stream \<Rightarrow> bool" where
  "stream_before a b =
     (if rt_direction a \<noteq> rt_direction b then direction_text (rt_direction a) < direction_text (rt_direction b)
      else rt_packets b < rt_packets a)"

text \<open>
  \<open>tshark p from to\<close> is the output for the capture file, \<open>pcaps\<close> what the glob found (\<open>None\<close>:
  its error). A zero time is \<open>None\<close>.
\<close>

definition analyze ::
  "((rtp_stream \<Rightarrow> rtp_stream \<Rightarrow> bool) \<Rightarrow> rtp_stream list \<Rightarrow> rtp_stream list) \<Rightarrow>
   (string \<Rightarrow> int \<Rightarrow> int \<Rightarrow> string option) \<Rightarrow> string list option \<Rightarrow> string \<Rightarrow> string list \<Rightarrow>
   unix_time option \<Rightarrow> unix_time option \<Rightarrow> unix_time \<Rightarrow> quality_report option" where
  "analyze sort_slice tshark pcaps0 our dialog from0 till0 now =
     (case pcaps0 of
        None \<Rightarrow> None
      | Some found \<Rightarrow>
          let pcaps = sort found in
          if pcaps = [] then Some \<lparr>qr_streams = [], qr_verdict = \<lparr>vd_level = Unknown, vd_issues = []\<rparr>, qr_pcaps = [], qr_no_rtp = True\<rparr>
          else let t0 = (case from0 of Some t \<Rightarrow> t - 5 | None \<Rightarrow> 0);
                   t1 = (case till0 of Some t \<Rightarrow> t + 5 | None \<Rightarrow> now + 24 * 3600);
                   ips = set (filter (\<lambda>h. h \<noteq> []) (map (\<lambda>a. fst (split_addr a)) dialog));
                   all = concat (map (\<lambda>p. case tshark p t0 t1 of None \<Rightarrow> [] | Some out \<Rightarrow> parse_rtp_streams out) pcaps);
                   scoped = sort_slice stream_before (scope_streams our ips {} all)
               in Some \<lparr>qr_streams = scoped, qr_verdict = derive_verdict scoped, qr_pcaps = pcaps,
                        qr_no_rtp = (scoped = [])\<rparr>)"

subsection \<open>The level is the worst grade\<close>

text \<open>The grade of one stream, stated on its figures at once.\<close>

definition stream_grade :: "rtp_stream \<Rightarrow> level" where
  "stream_grade s =
     (let timed = (\<lambda>g j. \<not> rt_unreliable s \<and> (g \<le> rt_max_delta s \<or> j \<le> rt_mean_jitter s)) in
      if 5 \<le> rt_loss s \<or> timed 200 50 then Bad
      else if 1 \<le> rt_loss s \<or> timed 100 30 then Poor
      else if 0 < rt_loss s \<or> timed 60 20 then Acceptable else Good)"

lemma level_order [simp]:
  "Unknown \<le> l" "l \<le> Bad" "Good \<le> Acceptable" "Good \<le> Poor" "Acceptable \<le> Poor"
  "\<not> Bad \<le> Poor" "\<not> Bad \<le> Acceptable" "\<not> Bad \<le> Good" "\<not> Poor \<le> Acceptable" "\<not> Poor \<le> Good" "\<not> Acceptable \<le> Good"
  "Good \<le> l \<longleftrightarrow> l \<noteq> Unknown" "l \<le> Unknown \<longleftrightarrow> l = Unknown"
  by (cases l; simp add: less_eq_level_def level_rank_def)+

lemma set_level_level [simp]: "vd_level (set_level l v) = max (vd_level v) l"
  by (cases "vd_level v < l") (auto simp: set_level_def max.absorb1 max.absorb2)

lemma set_level_issues [simp]: "vd_issues (set_level l v) = vd_issues v"
  by (simp add: set_level_def)

lemma report_issue_sel [simp]:
  "vd_level (report_issue l i v) = max (vd_level v) l" "vd_issues (report_issue l i v) = vd_issues v @ [i]"
  by (simp_all add: report_issue_def)

lemma max_levels:
  "max Bad l = Bad" "max l Bad = Bad" "max Good l = (if l = Unknown then Good else l)"
  "max l Good = (if l = Unknown then Good else l)" "max Poor Acceptable = Poor" "max Acceptable Poor = Poor"
  by (cases l; simp add: max_def less_eq_level_def level_rank_def)+

lemma judge_stream_level:
  "vd_level v \<noteq> Unknown \<Longrightarrow> vd_level (judge_stream s v) = max (vd_level v) (stream_grade s)"
  by (cases "vd_level v")
    (simp_all add: judge_stream_def judge_loss_def judge_gap_def judge_jitter_def stream_grade_def max_levels Let_def)

lemma Max_insert_max:
  "finite A \<Longrightarrow> Max (insert (max a b) A) = Max (insert a (insert b A))" for a b :: "'a :: linorder"
  by (cases "A = {}") (simp_all add: max.assoc)

lemma fold_judge_level:
  "vd_level v \<noteq> Unknown \<Longrightarrow>
   vd_level (fold judge_stream ss v) = Max (insert (vd_level v) (stream_grade ` set ss)) \<and> vd_level (fold judge_stream ss v) \<noteq> Unknown"
proof (induction ss arbitrary: v)
  case (Cons s ss)
  have l: "vd_level (judge_stream s v) = max (vd_level v) (stream_grade s)" by (rule judge_stream_level [OF Cons.prems])
  then have "vd_level (judge_stream s v) \<noteq> Unknown" using Cons.prems by (auto simp: max_def split: if_splits)
  moreover have "Max (insert (vd_level (judge_stream s v)) (stream_grade ` set ss)) =
      Max (insert (vd_level v) (stream_grade ` set (s # ss)))"
    using l by (simp add: Max_insert_max del: Max_insert)
  ultimately show ?case using Cons.IH [of "judge_stream s v"] by (metis fold_simps(2))
qed simp

lemma verdict_level_set:
  "vd_level (derive_verdict ss) =
     (if ss = [] then Unknown
      else Max (insert (if one_way ss then Poor else Good) (stream_grade ` set ss)))"
proof (cases "ss = []")
  case False
  let ?v = "fold judge_stream ss (set_level Good \<lparr>vd_level = Unknown, vd_issues = []\<rparr>)"
  have g: "vd_level (set_level Good \<lparr>vd_level = Unknown, vd_issues = []\<rparr>) = Good" by (simp add: max_levels)
  then have f: "vd_level ?v = Max (insert Good (stream_grade ` set ss))"
    using fold_judge_level [of "set_level Good \<lparr>vd_level = Unknown, vd_issues = []\<rparr>" ss] by simp
  have "vd_level (derive_verdict ss) = (if one_way ss then max (vd_level ?v) Poor else vd_level ?v)"
    using False by (simp add: derive_verdict_def Let_def)
  also have "\<dots> = Max (insert (if one_way ss then Poor else Good) (stream_grade ` set ss))"
  proof (cases "one_way ss")
    case True
    have "max (Max (insert Good (stream_grade ` set ss))) Poor = Max (insert Poor (insert Good (stream_grade ` set ss)))"
      by (simp add: max.commute)
    also have "\<dots> = Max (insert Poor (stream_grade ` set ss))"
      using False by (simp add: max.left_commute flip: max.assoc)
    finally show ?thesis using True f by simp
  qed (simp add: f)
  finally show ?thesis using False by simp
qed (simp add: derive_verdict_def)


definition explained :: "verdict \<Rightarrow> bool" where
  "explained v \<longleftrightarrow> vd_level v \<noteq> Unknown \<and> (vd_level v = Good \<longleftrightarrow> vd_issues v = []) \<and> IssueUnreliable \<notin> set (vd_issues v)"

lemma explained_report:
  "explained v \<Longrightarrow> l \<in> {Acceptable, Poor, Bad} \<Longrightarrow> i \<noteq> IssueUnreliable \<Longrightarrow> explained (report_issue l i v)"
  by (cases "vd_level v") (auto simp: explained_def max_def less_eq_level_def level_rank_def)

lemma explained_judge: "explained v \<Longrightarrow> explained (judge_stream s v)"
proof -
  have "explained v \<Longrightarrow> explained (judge_loss s v)" "explained v \<Longrightarrow> explained (judge_gap s v)"
    "explained v \<Longrightarrow> explained (judge_jitter s v)" for v
    by (simp_all add: judge_loss_def judge_gap_def judge_jitter_def explained_report)
  then show "explained v \<Longrightarrow> explained (judge_stream s v)" by (simp add: judge_stream_def Let_def)
qed

text \<open>
  The badge is good exactly when the report lists no symptom: every degradation is
  explained by an issue and no issue but the note on unreliable timing goes with a good badge.
\<close>

theorem good_iff_no_symptom:
  "vd_level (derive_verdict ss) = Good \<longleftrightarrow> ss \<noteq> [] \<and> set (vd_issues (derive_verdict ss)) \<subseteq> {IssueUnreliable}"
proof (cases "ss = []")
  case False
  let ?v = "fold judge_stream ss (set_level Good \<lparr>vd_level = Unknown, vd_issues = []\<rparr>)"
  have only: "xs \<noteq> [] \<Longrightarrow> IssueUnreliable \<notin> set xs \<Longrightarrow> \<not> set xs \<subseteq> {IssueUnreliable}" for xs
    by (cases xs) auto
  have "explained ?v"
  proof (rule fold_invariant [where P = explained])
    show "explained (set_level Good \<lparr>vd_level = Unknown, vd_issues = []\<rparr>)" by (simp add: explained_def max_levels)
  qed (rule explained_judge)
  then show ?thesis
    using False only [of "vd_issues ?v"]
    by (cases "vd_level ?v") (auto simp: derive_verdict_def Let_def max_levels explained_def)
qed (simp add: derive_verdict_def)

subsection \<open>What the report shows\<close>

definition dialog_hosts :: "string list \<Rightarrow> string set" where
  "dialog_hosts dialog = set (filter (\<lambda>h. h \<noteq> []) (map (\<lambda>a. fst (split_addr a)) dialog))"

definition touches :: "string set \<Rightarrow> rtp_stream \<Rightarrow> bool" where
  "touches ips s \<longleftrightarrow> fst (split_addr (rt_src s)) \<in> ips \<or> fst (split_addr (rt_dst s)) \<in> ips"

lemma with_direction_sel [simp]:
  "stream_key (with_direction our s) = stream_key s" "touches ips (with_direction our s) = touches ips s"
  by (simp_all add: with_direction_def stream_key_def touches_def)

lemma scope_streams_spec:
  "distinct (map stream_key (scope_streams our ips seen ss)) \<and>
   stream_key ` set (scope_streams our ips seen ss) \<inter> seen = {} \<and>
   (\<forall>s \<in> set (scope_streams our ips seen ss). ips = {} \<or> touches ips s) \<and>
   (\<forall>s \<in> set ss. ips = {} \<or> touches ips s \<longrightarrow> stream_key s \<in> stream_key ` set (scope_streams our ips seen ss) \<union> seen)"
proof (induction our ips seen ss rule: scope_streams.induct)
  case (2 our ips seen s ss)
  consider "ips \<noteq> {} \<and> \<not> touches ips s" | "\<not> (ips \<noteq> {} \<and> \<not> touches ips s)" "stream_key s \<in> seen"
    | "\<not> (ips \<noteq> {} \<and> \<not> touches ips s)" "stream_key s \<notin> seen" by blast
  then show ?case
  proof cases
    case 1
    with 2(1) show ?thesis by (simp add: touches_def)
  next
    case b: 2
    with 2(2) show ?thesis by (auto simp: touches_def)
  next
    case 3
    with 2(3) show ?thesis by (auto simp: touches_def [of ips s]) 
  qed
qed simp

text \<open>
  The report is scoped to the call: every stream shown touches a host of the SIP dialog
  (when one is known), none is shown twice, every stream of the captures that touches the
  dialog is shown, and however the sort breaks ties, the badge is the same.
\<close>

theorem report_scoped:
  assumes "\<And>xs. mset (srt stream_before xs) = mset xs" "\<And>xs. mset (srt' stream_before xs) = mset xs"
    and "analyze srt tshark pcaps our dialog from till now = Some r"
    and "analyze srt' tshark pcaps our dialog from till now = Some r'"
  shows "(\<forall>s \<in> set (qr_streams r). dialog_hosts dialog = {} \<or> touches (dialog_hosts dialog) s) \<and>
    distinct (map stream_key (qr_streams r)) \<and> (qr_no_rtp r \<longleftrightarrow> qr_streams r = []) \<and>
    vd_level (qr_verdict r) = vd_level (qr_verdict r')"
proof (cases "pcaps = Some []")
  case True
  with assms(3,4) show ?thesis by (auto simp: analyze_def)
next
  case False
  then obtain found where f: "pcaps = Some found" "sort found \<noteq> []"
    using assms(3) by (cases pcaps) (auto simp: analyze_def)
  define xs where "xs = concat (map (\<lambda>p. case tshark p (case from of Some t \<Rightarrow> t - 5 | None \<Rightarrow> 0)
      (case till of Some t \<Rightarrow> t + 5 | None \<Rightarrow> now + 24 * 3600) of None \<Rightarrow> [] | Some out \<Rightarrow> parse_rtp_streams out) (sort found))"
  have x: "qr_streams r = srt stream_before (scope_streams our (dialog_hosts dialog) {} xs)"
    "qr_verdict r = derive_verdict (qr_streams r)" "qr_no_rtp r \<longleftrightarrow> qr_streams r = []"
    "qr_verdict r' = derive_verdict (srt' stream_before (scope_streams our (dialog_hosts dialog) {} xs))"
    using assms(3,4) f unfolding analyze_def Let_def dialog_hosts_def xs_def by auto
  let ?ys = "scope_streams our (dialog_hosts dialog) {} xs"
  have m: "mset (srt stream_before ?ys) = mset ?ys" "mset (srt' stream_before ?ys) = mset ?ys" using assms(1,2) by auto
  then have s: "set (srt stream_before ?ys) = set ?ys" "set (srt' stream_before ?ys) = set ?ys"
    by (metis set_mset_mset)+
  have "distinct (map stream_key (srt stream_before ?ys))"
    using scope_streams_spec [of our "dialog_hosts dialog" "{}" xs] m(1)
    by (metis distinct_map mset_eq_imp_distinct_iff s(1))
  moreover have "vd_level (qr_verdict r) = vd_level (qr_verdict r')"
    unfolding x(2,4) x(1) verdict_level_set one_way_def using s by (auto simp: list_ex_iff)
  ultimately show ?thesis
    using scope_streams_spec [of our "dialog_hosts dialog" "{}" xs] x s by auto
qed

fun insert_by :: "('a \<Rightarrow> 'a \<Rightarrow> bool) \<Rightarrow> 'a \<Rightarrow> 'a list \<Rightarrow> 'a list" where
  "insert_by lt x [] = [x]"
| "insert_by lt x (y # ys) = (if lt y x then y # insert_by lt x ys else x # y # ys)"

definition sort_by :: "('a \<Rightarrow> 'a \<Rightarrow> bool) \<Rightarrow> 'a list \<Rightarrow> 'a list" where
  "sort_by lt xs = foldr (insert_by lt) xs []"

lemma mset_sort_by [simp]: "mset (sort_by lt xs) = mset xs"
proof -
  have "mset (insert_by lt x ys) = add_mset x (mset ys)" for x ys by (induction ys) auto
  then show ?thesis by (induction xs) (simp_all add: sort_by_def)
qed

lemma parse_int_column:
  assumes "list_all is_digit ds" "ds \<noteq> []" "digits_val ds = n" "n < 1000"
    and "trim_suffix (trim_space ds) ''ms'' = ds"
  shows "parse_num ds = Some (of_nat n)"
proof -
  have fl: "fl64 (of_nat n) = of_nat n" using fl64_exact [of "int n"] assms(4) by simp
  have sgn: "\<not> prefix ''-'' ds" "\<not> prefix ''+'' ds" using assms(1,2) by (cases ds; auto)+
  have tw: "takeWhile is_digit ds = ds" "dropWhile is_digit ds = []"
    using assms(1) by (simp_all add: takeWhile_eq_all_conv dropWhile_eq_Nil_conv list_all_iff)
  have lim: "\<not> float_limit \<le> (of_nat n :: rat)"
  proof -
    have "(of_nat n :: rat) < 1000" using assms(4) by simp
    also have "\<dots> < 2 ^ 10" by simp
    also have "\<dots> \<le> 2 ^ 1024" by (rule power_increasing) simp_all
    finally show ?thesis unfolding float_limit_def not_le .
  qed
  have "parse_float ds = Some (of_nat n)"
    by (simp add: parse_float_def float_syntax_def Let_def tw lim sgn fl assms(2,3) parse_exponent_def exp10_def)
  then show ?thesis unfolding parse_num_def assms(5) .
qed

definition sample_text :: string where
  "sample_text = ''0 5 10.0.0.1 4000 10.0.0.2 5000 0xAB PCMU 100 0 44 2 3''"

definition sample_tshark :: "string \<Rightarrow> int \<Rightarrow> int \<Rightarrow> string option" where
  "sample_tshark p a b = Some (''= RTP Streams ='' @ [CHR 0x0A] @ sample_text @ [CHR 0x0A])"

lemma sample_numbers:
  "parse_num ''100'' = Some 100" "parse_num ''0'' = Some 0" "parse_num ''44'' = Some 44" "parse_num ''2'' = Some 2" "parse_num ''3'' = Some 3"
  by (rule parse_int_column [where n = 100, simplified], code_simp, simp, code_simp, code_simp)
     (rule parse_int_column [where n = 0, simplified], code_simp, simp, code_simp, code_simp,
      rule parse_int_column [where n = 44, simplified], code_simp, simp, code_simp, code_simp,
      rule parse_int_column [where n = 2, simplified], code_simp, simp, code_simp, code_simp,
      rule parse_int_column [where n = 3, simplified], code_simp, simp, code_simp, code_simp)

definition sample_stream :: rtp_stream where
  "sample_stream = \<lparr>rt_src = ''10.0.0.1:4000'', rt_dst = ''10.0.0.2:5000'', rt_ssrc = ''0xAB'', rt_payload = ''PCMU'',
     rt_packets = 100, rt_lost = 0, rt_loss = 0, rt_max_delta = 44, rt_mean_jitter = 2, rt_max_jitter = 3,
     rt_problems = False, rt_direction = DirNone, rt_unreliable = False, rt_note = NoNote\<rparr>"

definition sample_row :: "string list" where
  "sample_row = [''0'', ''5'', ''10.0.0.1'', ''4000'', ''10.0.0.2'', ''5000'', ''0xAB'', ''PCMU'', ''100'', ''0'', ''44'', ''2'', ''3'']"

lemma sample_row_columns: "num_columns sample_row = Some 5"
proof -
  have "parse_num ''PCMU'' = None" by code_simp
  then show ?thesis by (simp add: num_columns_def numeric_tail_def sample_numbers sample_row_def)
qed

lemma sample_row_stream: "parse_stream_line sample_row = Some sample_stream"
proof -
  have f: "filter (\<lambda>t. \<not> loss_token t) sample_row = sample_row" by code_simp
  have l: "length sample_row = 13" "List.last sample_row \<noteq> ''X''" "drop 8 sample_row = [''100'', ''0'', ''44'', ''2'', ''3'']"
    "take 1 (drop 7 sample_row) = [''PCMU'']" "sample_row ! 2 = ''10.0.0.1''" "sample_row ! 3 = ''4000''"
    "sample_row ! 4 = ''10.0.0.2''" "sample_row ! 5 = ''5000''" "sample_row ! 6 = ''0xAB''"
    by (simp_all add: sample_row_def)
  have c: "classify_payload sample_stream = sample_stream" by code_simp
  show ?thesis
    unfolding parse_stream_line_def Let_def using l
    by (simp add: f sample_row_columns sample_numbers stream_columns_def trunc_def loss_percent_def
        c [unfolded sample_stream_def] sample_stream_def)
qed

text \<open>
  In the five-column layout a payload label that ends in a number, such as GSM 06.10, is
  taken for a column: the label loses its number, which becomes the packet count, and the
  packet count is read as the lost packets.
\<close>

definition short_row :: "string list" where
  "short_row = [''0'', ''5'', ''10.0.0.1'', ''4000'', ''10.0.0.2'', ''5000'', ''0xAB'', ''GSM'', ''3'', ''100'', ''0'', ''44'', ''2'', ''3'']"

lemma short_layout_misparses:
  "map_option (\<lambda>s. (rt_payload s, rt_packets s, rt_lost s)) (parse_stream_line short_row) = Some (''GSM'', 3, 100)"
proof -
  have "parse_num ''GSM'' = None" by code_simp
  then have n: "num_columns short_row = Some 6"
    by (simp add: num_columns_def numeric_tail_def sample_numbers short_row_def)
  have f: "filter (\<lambda>t. \<not> loss_token t) short_row = short_row" by code_simp
  have c: "rt_payload (classify_payload s) = rt_payload s" "rt_packets (classify_payload s) = rt_packets s"
    "rt_lost (classify_payload s) = rt_lost s" for s
    by (simp_all add: classify_payload_def Let_def)
  have l: "length short_row = 14" "List.last short_row \<noteq> ''X''" "drop 8 short_row = [''3'', ''100'', ''0'', ''44'', ''2'', ''3'']"
    "take 1 (drop 7 short_row) = [''GSM'']"
    by (simp_all add: short_row_def)
  show ?thesis
    unfolding parse_stream_line_def Let_def using l
    by (simp add: f n c sample_numbers stream_columns_def trunc_def)
qed

lemma sample_table: "parse_rtp_streams (''= RTP Streams ='' @ [CHR 0x0A] @ sample_text @ [CHR 0x0A]) = [sample_stream]"
proof -
  have l: "scan_lines (''= RTP Streams ='' @ [CHR 0x0A] @ sample_text @ [CHR 0x0A]) = [''= RTP Streams ='', sample_text]"
    by code_simp
  have b: "str_contains (trim_right_set {CHR '' '', CHR 0x09, CHR 0x0D} ''= RTP Streams ='') ''RTP Streams''" by code_simp
  have r: "trim_right_set {CHR '' '', CHR 0x09, CHR 0x0D} sample_text = sample_text"
    "\<not> str_contains sample_text ''RTP Streams''" "trim_space sample_text \<noteq> []" "\<not> has_prefix (trim_space sample_text) ''=''"
    "\<not> str_contains (to_lower (trim_space sample_text)) ''start time''" "ws_fields sample_text = sample_row"
    by code_simp+
  show ?thesis
    unfolding parse_rtp_streams_def l table_rows.simps Let_def
    by (simp only: b if_True r sample_row_stream if_False simp_thms option.case)
qed

definition sample_report :: quality_report where
  "sample_report = the (analyze sort_by sample_tshark (Some [''b'', ''a'']) ''10.0.0.2'' [''10.0.0.1:5060''] (Some 100) (Some 200) 300)"

lemma sample_analyze:
  "analyze sort_by sample_tshark (Some [''b'', ''a'']) ''10.0.0.2'' [''10.0.0.1:5060''] (Some 100) (Some 200) 300 = Some sample_report"
  "qr_streams sample_report = [sample_stream\<lparr>rt_direction := DirIn\<rparr>]"
proof -
  have s: "sort [''b'', ''a''] = [''a'', ''b'']" "[''a'', ''b''] \<noteq> []" by code_simp+
  have d: "filter (\<lambda>h. h \<noteq> []) (map (\<lambda>a. fst (split_addr a)) [''10.0.0.1:5060'']) = [''10.0.0.1'']" by code_simp
  have p: "concat (map (\<lambda>p. case sample_tshark p t u of None \<Rightarrow> [] | Some out \<Rightarrow> parse_rtp_streams out) [''a'', ''b'']) = [sample_stream, sample_stream]" for t u
    using sample_table by (simp add: sample_tshark_def)
  have c: "sort_by stream_before (scope_streams ''10.0.0.2'' (set [''10.0.0.1'']) {} [sample_stream, sample_stream]) = [sample_stream\<lparr>rt_direction := DirIn\<rparr>]"
    by code_simp
  show e: "analyze sort_by sample_tshark (Some [''b'', ''a'']) ''10.0.0.2'' [''10.0.0.1:5060''] (Some 100) (Some 200) 300 = Some sample_report"
    unfolding sample_report_def analyze_def Let_def by simp
  show "qr_streams sample_report = [sample_stream\<lparr>rt_direction := DirIn\<rparr>]"
    unfolding sample_report_def analyze_def Let_def option.case s(1) p d c using s(2) by simp
qed

theorem report_scoped_witness:
  "qr_streams sample_report = [sample_stream\<lparr>rt_direction := DirIn\<rparr>] \<and> distinct (map stream_key (qr_streams sample_report)) \<and>
   \<not> qr_no_rtp sample_report"
  using report_scoped [OF mset_sort_by mset_sort_by sample_analyze(1) sample_analyze(1)] sample_analyze(2)
  by simp

end
