(* ===== verification/Go_Url.thy ===== *)
theory Go_Url
  imports Go_Strings "HOL-Library.AList"
begin

text \<open>
  The part of \<open>net/url\<close> that the list pages use: query escaping, \<open>Values\<close> and \<open>ParseQuery\<close>.
  \<open>Values\<close> is an association list from keys to their values; \<open>Encode\<close> sorts the keys.
\<close>

type_synonym url_values = "(string \<times> string list) list"

subsection \<open>Escaping\<close>

definition unreserved :: "char \<Rightarrow> bool" where
  "unreserved c \<longleftrightarrow> is_digit c \<or> is_upper_ascii c \<or> is_lower_ascii c \<or> c \<in> set ''-_.~''"

definition upper_hex :: "nat \<Rightarrow> char" where
  "upper_hex n = ''0123456789ABCDEF'' ! n"

definition unhex :: "char \<Rightarrow> nat option" where
  "unhex c =
     (let b = byte_val c in
      if is_digit c then Some (b - 48)
      else if 97 \<le> b \<and> b \<le> 102 then Some (b - 87)
      else if 65 \<le> b \<and> b \<le> 70 then Some (b - 55) else None)"

definition escape_char :: "char \<Rightarrow> string" where
  "escape_char c =
     (if unreserved c then [c] else if c = CHR '' '' then ''+''
      else [CHR ''%'', upper_hex (byte_val c div 16), upper_hex (byte_val c mod 16)])"

definition query_escape :: "string \<Rightarrow> string" where
  "query_escape s = concat (map escape_char s)"

fun query_unescape :: "string \<Rightarrow> string option" where
  "query_unescape [] = Some []"
| "query_unescape (c # cs) =
     (if c = CHR ''%'' then
        (case cs of
           a # b # rest \<Rightarrow>
             (case (unhex a, unhex b) of
                (Some x, Some y) \<Rightarrow> map_option (\<lambda>t. char_of (x * 16 + y) # t) (query_unescape rest)
              | _ \<Rightarrow> None)
         | _ \<Rightarrow> None)
      else map_option (\<lambda>t. (if c = CHR ''+'' then CHR '' '' else c) # t) (query_unescape cs))"

lemma unhex_upper_hex: "n < 16 \<Longrightarrow> unhex (upper_hex n) = Some n"
proof -
  have "list_all (\<lambda>n. unhex (upper_hex n) = Some n) [0..<16]" by code_simp
  then show "n < 16 \<Longrightarrow> unhex (upper_hex n) = Some n" by (auto simp: list_all_iff)
qed

lemma byte_val_lt: "byte_val c < 256"
  by (cases c) (simp add: byte_val_def of_char_def horner_sum_simps)

lemma not_unreserved: "\<not> unreserved (CHR ''%'')" "\<not> unreserved (CHR ''+'')" "\<not> unreserved (CHR ''&'')"
  "\<not> unreserved (CHR ''='')" "\<not> unreserved (CHR '';'')" "\<not> unreserved (CHR '' '')"
  by code_simp+

lemma unescape_escape_char: "query_unescape (escape_char c @ s) = map_option (\<lambda>t. c # t) (query_unescape s)"
proof -
  have "byte_val c div 16 < 16" "byte_val c mod 16 < 16" using byte_val_lt [of c] by auto
  moreover have "char_of (byte_val c div 16 * 16 + byte_val c mod 16) = c" by (simp add: byte_val_def)
  ultimately show ?thesis using not_unreserved by (auto simp: escape_char_def unhex_upper_hex)
qed

theorem unescape_escape: "query_unescape (query_escape s) = Some s"
  by (induction s) (simp_all add: query_escape_def unescape_escape_char)

lemma upper_hex_plain: "n < 16 \<Longrightarrow> upper_hex n \<notin> {CHR ''&'', CHR ''='', CHR '';''}"
proof -
  have "list_all (\<lambda>n. upper_hex n \<notin> {CHR ''&'', CHR ''='', CHR '';''}) [0..<16]" by code_simp
  then show "n < 16 \<Longrightarrow> upper_hex n \<notin> {CHR ''&'', CHR ''='', CHR '';''}" by (auto simp: list_all_iff)
qed

lemma query_escape_plain: "c \<in> set (query_escape s) \<Longrightarrow> c \<notin> {CHR ''&'', CHR ''='', CHR '';''}"
proof -
  have "c \<in> set (escape_char d) \<Longrightarrow> c \<notin> {CHR ''&'', CHR ''='', CHR '';''}" for d
  proof -
    have "byte_val d div 16 < 16" "byte_val d mod 16 < 16" using byte_val_lt [of d] by auto
    then show "c \<in> set (escape_char d) \<Longrightarrow> c \<notin> {CHR ''&'', CHR ''='', CHR '';''}"
      using not_unreserved upper_hex_plain [of "byte_val d div 16"] upper_hex_plain [of "byte_val d mod 16"]
      by (auto simp: escape_char_def split: if_splits)
  qed
  then show "c \<in> set (query_escape s) \<Longrightarrow> c \<notin> {CHR ''&'', CHR ''='', CHR '';''}"
    by (auto simp: query_escape_def)
qed

subsection \<open>Values\<close>

definition vals_of :: "url_values \<Rightarrow> string \<Rightarrow> string list" where
  "vals_of v k = (case map_of v k of Some vs \<Rightarrow> vs | None \<Rightarrow> [])"

definition values_get :: "url_values \<Rightarrow> string \<Rightarrow> string" where
  "values_get v k = (case vals_of v k of [] \<Rightarrow> [] | x # _ \<Rightarrow> x)"

definition values_add :: "string \<Rightarrow> string \<Rightarrow> url_values \<Rightarrow> url_values" where
  "values_add k x v = AList.update k (vals_of v k @ [x]) v"

definition values_set :: "string \<Rightarrow> string \<Rightarrow> url_values \<Rightarrow> url_values" where
  "values_set k x v = AList.update k [x] v"

definition values_pairs :: "url_values \<Rightarrow> (string \<times> string) list" where
  "values_pairs v = concat (map (\<lambda>(k, vs). map (\<lambda>x. (k, x)) vs) (sort_key fst v))"

definition encode_pair :: "string \<times> string \<Rightarrow> string" where
  "encode_pair p = query_escape (fst p) @ ''='' @ query_escape (snd p)"

definition values_encode :: "url_values \<Rightarrow> string" where
  "values_encode v = str_join (map encode_pair (values_pairs v)) ''&''"

definition parse_pair :: "string \<Rightarrow> (string \<times> string) option" where
  "parse_pair seg =
     (if seg = [] \<or> CHR '';'' \<in> set seg then None
      else let k = takeWhile (\<lambda>c. c \<noteq> CHR ''='') seg; x = drop (length k + 1) seg in
        case (query_unescape k, query_unescape x) of (Some a, Some b) \<Rightarrow> Some (a, b) | _ \<Rightarrow> None)"

definition parse_query :: "string \<Rightarrow> url_values" where
  "parse_query q = fold (\<lambda>(k, x). values_add k x) (List.map_filter parse_pair (split_byte (CHR ''&'') q)) []"

lemma parse_encode_pair: "parse_pair (encode_pair p) = Some p"
proof -
  have "\<forall>c \<in> set (query_escape (fst p)). c \<noteq> CHR ''=''" "CHR '';'' \<notin> set (encode_pair p)"
    using query_escape_plain by (auto simp: encode_pair_def)
  then have "takeWhile (\<lambda>c. c \<noteq> CHR ''='') (encode_pair p) = query_escape (fst p)" "CHR '';'' \<notin> set (encode_pair p)"
    by (simp_all add: encode_pair_def takeWhile_append)
  then show ?thesis by (simp add: parse_pair_def Let_def) (simp add: encode_pair_def unescape_escape)
qed

lemma encode_pair_no_amp: "CHR ''&'' \<notin> set (encode_pair p)"
  using query_escape_plain by (auto simp: encode_pair_def)

lemma split_join_byte:
  "\<forall>w \<in> set ws. b \<notin> set w \<Longrightarrow> ws \<noteq> [] \<Longrightarrow> split_byte b (str_join ws [b]) = ws"
proof (induction ws)
  case (Cons w ws)
  have id: "b \<notin> set w \<Longrightarrow> split_byte b w = [w]" for w by (induction w) auto
  have app: "b \<notin> set w \<Longrightarrow> split_byte b (w @ b # s) = w # split_byte b s" for w s by (induction w) auto
  show ?case using Cons by (cases ws) (simp_all add: id app)
qed simp

text \<open>Decoding an encoded query gives the pairs back.\<close>

lemma parse_encoded: "parse_query (values_encode v) = fold (\<lambda>(k, x). values_add k x) (values_pairs v) []"
proof (cases "values_pairs v = []")
  case True
  then show ?thesis by (simp add: parse_query_def values_encode_def parse_pair_def List.map_filter_def)
next
  case False
  have "split_byte (CHR ''&'') (values_encode v) = map encode_pair (values_pairs v)"
    unfolding values_encode_def using False encode_pair_no_amp by (intro split_join_byte) auto
  moreover have "List.map_filter parse_pair (map encode_pair ps) = ps" for ps
    by (induction ps) (simp_all add: List.map_filter_simps parse_encode_pair)
  ultimately show ?thesis by (simp add: parse_query_def)
qed

lemma vals_of_add [simp]: "vals_of (values_add k x v) j = (if j = k then vals_of v k @ [x] else vals_of v j)"
  by (simp add: values_add_def vals_of_def update_conv)

lemma vals_of_set [simp]: "vals_of (values_set k x v) j = (if j = k then [x] else vals_of v j)"
  by (simp add: values_set_def vals_of_def update_conv)

lemma vals_of_adds: "vals_of (fold (\<lambda>(k, x). values_add k x) ps v) j = vals_of v j @ map snd (filter (\<lambda>p. fst p = j) ps)"
  by (induction ps arbitrary: v) auto

lemma values_set_keys: "distinct (map fst v) \<Longrightarrow> distinct (map fst (values_set k x v))"
  by (simp add: values_set_def distinct_update)

theorem vals_of_parse_encode:
  assumes "distinct (map fst v)"
  shows "vals_of (parse_query (values_encode v)) k = vals_of v k"
proof -
  have f: "map snd (filter (\<lambda>p. fst p = k) (concat (map (\<lambda>(k, vs). map (\<lambda>x. (k, x)) vs) w))) = vals_of w k"
    if "distinct (map fst w)" for w
    using that
  proof (induction w)
    case (Cons p w)
    have none: "k \<notin> fst ` set w \<Longrightarrow> vals_of w k = []"
      by (simp add: vals_of_def split: option.split) (metis map_of_eq_None_iff option.distinct(1))
    have same: "map snd (filter (\<lambda>p. fst p = k) (map (\<lambda>x. (j, x)) vs)) = (if j = k then vs else [])" for j and vs :: "string list"
      by (induction vs) auto
    from Cons none show ?case by (cases p) (auto simp: same vals_of_def)
  qed (simp add: vals_of_def)
  have "distinct (map fst (sort_key fst v))" using assms by (simp add: distinct_map)
  moreover from this have "map_of (sort_key fst v) = map_of v"
    using assms by (intro map_of_inject_set [THEN iffD2]) simp_all
  ultimately show ?thesis
    by (simp add: parse_encoded vals_of_adds values_pairs_def f) (simp add: vals_of_def)
qed

end
