(* ===== verification/Pagination.thy ===== *)
theory Pagination
  imports Go_Url
begin

text \<open>
  \<open>web/pagination.go\<close>: the page, the links and the ORDER BY clause of a list page, from the
  query parameters of the request. \<open>allowed\<close> is the handler's whitelist of sort columns, in the
  order its map is iterated; sizes and offsets are \<open>int\<close>, so the offset wraps. The two SVG
  icons are their names.
\<close>

record pagination =
  pg_page :: int
  pg_per_page :: int
  pg_total :: int
  pg_sort :: string
  pg_dir :: string
  pg_q :: string
  pg_base :: string
  pg_preserved :: url_values

text \<open>Integer division of Go, which truncates.\<close>

definition go_quot :: "int \<Rightarrow> int \<Rightarrow> int" where
  "go_quot a b = (if (a < 0) \<noteq> (b < 0) then - (\<bar>a\<bar> div \<bar>b\<bar>) else \<bar>a\<bar> div \<bar>b\<bar>)"

definition pages :: "pagination \<Rightarrow> int" where
  "pages p =
     (if pg_per_page p \<le> 0 then 1
      else let n = go_quot (pg_total p + pg_per_page p - 1) (pg_per_page p) in if n = 0 then 1 else n)"

definition page_offset :: "pagination \<Rightarrow> int" where
  "page_offset p = wrap64 (wrap64 (pg_page p - 1) * pg_per_page p)"

definition page_limit :: "pagination \<Rightarrow> int" where
  "page_limit p = pg_per_page p"

definition copy_values :: "url_values \<Rightarrow> url_values" where
  "copy_values pres = fold (\<lambda>(k, vs). fold (values_add k) vs) pres []"

definition page_values :: "pagination \<Rightarrow> int \<Rightarrow> url_values" where
  "page_values p n =
     (let v1 = values_set ''per_page'' (itoa (pg_per_page p)) (values_set ''page'' (itoa n) (copy_values (pg_preserved p)));
          v2 = (if pg_sort p \<noteq> [] then values_set ''sort'' (pg_sort p) v1 else v1);
          v3 = (if pg_dir p \<noteq> [] then values_set ''dir'' (pg_dir p) v2 else v2)
      in if pg_q p \<noteq> [] then values_set ''q'' (pg_q p) v3 else v3)"

definition page_url :: "pagination \<Rightarrow> int \<Rightarrow> string" where
  "page_url p n = pg_base p @ ''?'' @ values_encode (page_values p n)"

definition page_window :: "pagination \<Rightarrow> int list" where
  "page_window p =
     (let total = pages p; cur = pg_page p in
      if total \<le> 9 then [1..total]
      else let start = max 2 (cur - 2); end' = min (total - 1) (cur + 2)
           in [1] @ (if 2 < start then [-1] else []) @ [start..end'] @ (if end' < total - 1 then [-1] else []) @ [total])"

definition sort_link :: "pagination \<Rightarrow> string \<Rightarrow> string" where
  "sort_link p col =
     (let dir = (if pg_sort p = col \<and> pg_dir p = ''asc'' then ''desc'' else ''asc'');
          v1 = values_set ''dir'' dir (values_set ''sort'' col (values_set ''per_page'' (itoa (pg_per_page p))
                 (values_set ''page'' ''1'' (copy_values (pg_preserved p)))));
          v2 = (if pg_q p \<noteq> [] then values_set ''q'' (pg_q p) v1 else v1)
      in pg_base p @ ''?'' @ values_encode v2)"

definition sort_arrow :: "pagination \<Rightarrow> string \<Rightarrow> string" where
  "sort_arrow p col = (if pg_sort p \<noteq> col then [] else pg_dir p)"

definition sort_icon :: "pagination \<Rightarrow> string \<Rightarrow> string" where
  "sort_icon p col =
     (if pg_sort p \<noteq> col then ''sort-placeholder'' else if pg_dir p = ''asc'' then ''sort-asc'' else ''sort-desc'')"

definition url_extra :: "string \<Rightarrow> string \<Rightarrow> string" where
  "url_extra k v = (if v = [] then [] else ''&'' @ k @ ''='' @ query_escape v)"

definition own_params :: "string list" where
  "own_params = [''page'', ''per_page'', ''sort'', ''dir'', ''q'']"

definition read_pagination :: "url_values \<Rightarrow> string \<Rightarrow> (string \<times> string) list \<Rightarrow> string \<Rightarrow> pagination" where
  "read_pagination q base allowed dflt =
     (let n = atoi64 (values_get q ''page''); m = atoi64 (values_get q ''per_page'');
          s = values_get q ''sort''; d = values_get q ''dir'' in
      \<lparr>pg_page = (if values_get q ''page'' \<noteq> [] \<and> 0 < n then n else 1),
       pg_per_page = (if values_get q ''per_page'' \<noteq> [] \<and> 10 \<le> m \<and> m \<le> 1000 then m else 25),
       pg_total = 0,
       pg_sort = (if s \<noteq> [] \<and> map_of allowed s \<noteq> None then s else dflt),
       pg_dir = (if d = ''asc'' \<or> d = ''desc'' then d else ''desc''),
       pg_q = values_get q ''q'', pg_base = base,
       pg_preserved = filter (\<lambda>(k, vs). k \<notin> set own_params) q\<rparr>)"

definition order_by_clause :: "(string \<times> string) list \<Rightarrow> pagination \<Rightarrow> string" where
  "order_by_clause allowed p =
     (let expr = (case map_of allowed (pg_sort p) of Some e \<Rightarrow> e
                  | None \<Rightarrow> (case allowed of (k, e) # _ \<Rightarrow> e | [] \<Rightarrow> []));
          dir = (if pg_dir p = ''asc'' then ''ASC'' else ''DESC'')
      in '' ORDER BY '' @ expr @ '' '' @ dir)"

subsection \<open>The window of page numbers\<close>

lemma pages_pos: "0 \<le> pg_total p \<Longrightarrow> 1 \<le> pages p"
proof -
  assume t: "0 \<le> pg_total p"
  have "0 < pg_per_page p \<Longrightarrow> 0 \<le> (pg_total p + pg_per_page p - 1) div pg_per_page p"
    using t by (intro div_int_pos_iff [THEN iffD2]) auto
  with t show ?thesis by (auto simp: pages_def go_quot_def Let_def)
qed

text \<open>
  The page bar shows at most nine entries that are page numbers of the list in ascending
  order, from the first to the last page, with the current page and its neighbours, and gap
  marks elsewhere.
\<close>

theorem page_window_spec:
  assumes "0 \<le> pg_total p" "1 \<le> pg_page p" "pg_page p \<le> pages p"
  shows "length (page_window p) \<le> 9 \<and> hd (page_window p) = 1 \<and> List.last (page_window p) = pages p \<and>
    sorted_wrt (<) (filter (\<lambda>n. n \<noteq> -1) (page_window p)) \<and>
    {n. 1 \<le> n \<and> n \<le> pages p \<and> \<bar>n - pg_page p\<bar> \<le> 2} \<subseteq> set (page_window p) \<and>
    set (page_window p) \<subseteq> insert (-1) {1..pages p}"
proof (cases "pages p \<le> 9")
  case True
  have "hd [1..pages p] = 1" using pages_pos [OF assms(1)] by (simp add: upto_rec1)
  moreover have "List.last [1..pages p] = pages p" using pages_pos [OF assms(1)] by (simp add: upto_rec2)
  moreover have "filter (\<lambda>n. n \<noteq> -1) [1..pages p] = [1..pages p]" by (simp add: filter_id_conv)
  ultimately show ?thesis
    using True by (auto simp: page_window_def Let_def strict_sorted_iff)
next
  case False
  define a b where "a = max 2 (pg_page p - 2)" and "b = min (pages p - 1) (pg_page p + 2)"
  have w: "page_window p = [1] @ (if 2 < a then [-1] else []) @ [a..b] @ (if b < pages p - 1 then [-1] else []) @ [pages p]"
    using False by (simp add: page_window_def Let_def a_def b_def)
  have ab: "2 \<le> a" "b \<le> pages p - 1" "b - a \<le> 4" using False by (auto simp: a_def b_def)
  have f: "filter (\<lambda>n. n \<noteq> -1) [a..b] = [a..b]" using ab(1) by (simp add: filter_id_conv)
  have "length [a..b] \<le> 5" using ab by (simp add: length_upto)
  then have "length (page_window p) \<le> 9" by (simp add: w)
  moreover have "sorted_wrt (<) (filter (\<lambda>n. n \<noteq> -1) (page_window p))"
    using ab False by (auto simp: w f sorted_wrt_append strict_sorted_iff)
  moreover have "{n. 1 \<le> n \<and> n \<le> pages p \<and> \<bar>n - pg_page p\<bar> \<le> 2} \<subseteq> set (page_window p)"
    using assms False by (auto simp: w a_def b_def)
  moreover have "set (page_window p) \<subseteq> insert (-1) {1..pages p}" using ab False by (auto simp: w)
  ultimately show ?thesis by (simp add: w)
qed

theorem page_window_spec_witness:
  "page_window \<lparr>pg_page = 7, pg_per_page = 25, pg_total = 500, pg_sort = [], pg_dir = [], pg_q = [], pg_base = [], pg_preserved = []\<rparr>
     = [1, -1, 5, 6, 7, 8, 9, -1, 20] \<and>
   length (page_window \<lparr>pg_page = 7, pg_per_page = 25, pg_total = 500, pg_sort = [], pg_dir = [], pg_q = [], pg_base = [], pg_preserved = []\<rparr>) \<le> 9"
  (is "page_window ?p = _ \<and> _")
proof
  show "page_window ?p = [1, -1, 5, 6, 7, 8, 9, -1, 20]" by code_simp
  have "pages ?p = 20" by code_simp
  then show "length (page_window ?p) \<le> 9" using page_window_spec [of ?p] by simp
qed

text \<open>
  A request can only sort by what the handler lists: the clause is one of the whitelisted
  expressions and a direction, whatever the query says.
\<close>

theorem order_by_whitelisted:
  assumes "allowed \<noteq> []"
  shows "\<exists>e \<in> snd ` set allowed. \<exists>d \<in> {''ASC'', ''DESC''}.
    order_by_clause allowed (read_pagination q base allowed dflt) = '' ORDER BY '' @ e @ '' '' @ d"
proof -
  let ?p = "read_pagination q base allowed dflt"
  have "\<exists>e \<in> snd ` set allowed. (case map_of allowed (pg_sort ?p) of Some e \<Rightarrow> e
                  | None \<Rightarrow> (case allowed of (k, e) # _ \<Rightarrow> e | [] \<Rightarrow> [])) = e"
    using assms by (cases "map_of allowed (pg_sort ?p)") (force simp: neq_Nil_conv dest: map_of_SomeD)+
  then show ?thesis by (auto simp: order_by_clause_def Let_def)
qed

theorem order_by_whitelisted_witness:
  "\<exists>d \<in> {''ASC'', ''DESC''}. order_by_clause [(''id'', ''u.id'')]
     (read_pagination [(''sort'', [''id; DROP TABLE users'']), (''dir'', [''asc''])] ''/users'' [(''id'', ''u.id'')] ''id'') = '' ORDER BY '' @ ''u.id'' @ '' '' @ d"
  using order_by_whitelisted [of "[(''id'', ''u.id'')]" "[(''sort'', [''id; DROP TABLE users'']), (''dir'', [''asc''])]" "''/users''" "''id''"]
  by simp

text \<open>A page number in the billions of billions is accepted, and its offset wraps below zero.\<close>

lemma page_offset_overflows:
  "page_offset (read_pagination [(''page'', [''368934881474191034''])] ''/users'' [] []) < 0"
  by code_simp

subsection \<open>Links keep the state of the list\<close>

lemma atoi64_itoa: "- (2 ^ 63) \<le> i \<Longrightarrow> i < 2 ^ 63 \<Longrightarrow> atoi64 (itoa i) = i"
  by (simp add: atoi64_def parse_itoa)

lemma itoa_ne [simp]: "itoa i \<noteq> []"
  by (simp add: itoa_def)

lemma fold_add_distinct: "distinct (map fst v) \<Longrightarrow> distinct (map fst (fold (values_add k) vs v))"
  by (induction vs arbitrary: v) (simp_all add: values_add_def distinct_update)

lemma fold_add_vals: "vals_of (fold (values_add k) vs v) j = (if j = k then vals_of v k @ vs else vals_of v j)"
  by (induction vs arbitrary: v) auto

lemma copy_values_spec:
  assumes "distinct (map fst pres)"
  shows "distinct (map fst (copy_values pres))" "vals_of (copy_values pres) k = vals_of pres k"
proof -
  have "distinct (map fst (fold (\<lambda>(k, vs). fold (values_add k) vs) pres v))" if "distinct (map fst v)" for v
    using that by (induction pres arbitrary: v) (auto simp: fold_add_distinct)
  then show "distinct (map fst (copy_values pres))" by (simp add: copy_values_def)
  have "vals_of (fold (\<lambda>(k, vs). fold (values_add k) vs) pres v) k = vals_of v k @ vals_of pres k" for v
    using assms
  proof (induction pres arbitrary: v)
    case (Cons p pres)
    obtain a b where p: "p = (a, b)" by (cases p)
    have none: "a \<notin> fst ` set pres \<Longrightarrow> vals_of pres a = []"
      by (simp add: vals_of_def split: option.split) (metis map_of_eq_None_iff option.distinct(1))
    have "vals_of (p # pres) k = (if k = a then b else vals_of pres k)" by (simp add: vals_of_def p)
    with Cons none show ?case by (simp add: p fold_add_vals)
  qed (simp add: vals_of_def)
  then show "vals_of (copy_values pres) k = vals_of pres k" by (simp add: copy_values_def vals_of_def)
qed

lemma vals_of_filter: "vals_of (filter (\<lambda>(k, vs). P k) v) j = (if P j then vals_of v j else [])"
proof -
  have "map_of (filter (\<lambda>(k, vs). P k) v) j = (if P j then map_of v j else None)" by (induction v) auto
  then show ?thesis by (simp add: vals_of_def)
qed

lemma page_values_distinct:
  "distinct (map fst (pg_preserved p)) \<Longrightarrow> distinct (map fst (page_values p n))"
  by (simp add: page_values_def Let_def copy_values_spec values_set_keys)

text \<open>
  A page link carries the whole state of the list: following it gives page \<open>n\<close> with the
  same page size, order, direction, search text and every other filter of the request,
  whatever bytes these contain.
\<close>

theorem page_link_roundtrip:
  assumes "distinct (map fst q)" "1 \<le> n" "n < 2 ^ 63"
    and "p = read_pagination q base allowed dflt"
    and "p' = read_pagination (parse_query (values_encode (page_values p n))) base allowed dflt"
  shows "pg_page p' = n \<and> pg_per_page p' = pg_per_page p \<and> pg_sort p' = pg_sort p \<and> pg_dir p' = pg_dir p \<and>
    pg_q p' = pg_q p \<and> (\<forall>k. vals_of (pg_preserved p') k = vals_of (pg_preserved p) k)"
proof -
  let ?v = "page_values p n"
  have pres: "pg_preserved p = filter (\<lambda>(k, vs). k \<notin> set own_params) q" by (simp add: assms(4) read_pagination_def Let_def)
  have d: "distinct (map fst (pg_preserved p))" using assms(1) by (simp add: pres distinct_map_filter)
  have v: "vals_of (parse_query (values_encode ?v)) k = vals_of ?v k" for k
    by (rule vals_of_parse_encode [OF page_values_distinct [OF d]])
  have own: "k \<in> set own_params \<Longrightarrow> vals_of (pg_preserved p) k = []" for k by (simp add: pres vals_of_filter)
  have dir: "pg_dir p = ''asc'' \<or> pg_dir p = ''desc''" by (simp add: assms(4) read_pagination_def Let_def)
  have per: "10 \<le> pg_per_page p \<and> pg_per_page p \<le> 1000" by (simp add: assms(4) read_pagination_def Let_def)
  have sort: "pg_sort p = dflt \<or> pg_sort p \<noteq> [] \<and> map_of allowed (pg_sort p) \<noteq> None"
    by (simp add: assms(4) read_pagination_def Let_def)
  have get: "values_get ?v ''page'' = itoa n" "values_get ?v ''per_page'' = itoa (pg_per_page p)"
    "values_get ?v ''sort'' = pg_sort p" "values_get ?v ''dir'' = pg_dir p" "values_get ?v ''q'' = pg_q p"
    using dir own [of "''sort''"] own [of "''q''"]
    by (auto simp: values_get_def page_values_def Let_def copy_values_spec [OF d] own_params_def)
  have get': "values_get (parse_query (values_encode ?v)) k = values_get ?v k" for k by (simp add: values_get_def v)
  have rest: "vals_of (pg_preserved p') k = vals_of (pg_preserved p) k" for k
  proof (cases "k \<in> set own_params")
    case True
    then show ?thesis by (simp add: own assms(5) read_pagination_def Let_def vals_of_filter)
  next
    case False
    then have "vals_of ?v k = vals_of (pg_preserved p) k"
      by (simp add: page_values_def Let_def copy_values_spec [OF d] own_params_def)
    with False v show ?thesis by (simp add: assms(5) read_pagination_def Let_def vals_of_filter)
  qed
  have "atoi64 (itoa n) = n" "atoi64 (itoa (pg_per_page p)) = pg_per_page p"
    using assms(2,3) per by (simp_all add: atoi64_itoa)
  then have "pg_page p' = n" "pg_per_page p' = pg_per_page p" "pg_sort p' = pg_sort p" "pg_dir p' = pg_dir p" "pg_q p' = pg_q p"
    using assms(2) per dir sort by (auto simp: assms(5) read_pagination_def [of "parse_query _"] Let_def get' get)
  with rest show ?thesis by blast
qed

theorem page_link_roundtrip_witness:
  "pg_q (read_pagination (parse_query (values_encode (page_values
     (read_pagination [(''q'', [''a&b=c +%'']), (''status'', [''x'', ''y''])] ''/users'' [(''id'', ''u.id'')] ''id'') 3)))
     ''/users'' [(''id'', ''u.id'')] ''id'') = ''a&b=c +%''"
  using page_link_roundtrip [of "[(''q'', [''a&b=c +%'']), (''status'', [''x'', ''y''])]" 3, OF _ _ _ refl refl,
      of "''/users''" "[(''id'', ''u.id'')]" "''id''"]
  by (simp add: read_pagination_def [of "[(''q'', [''a&b=c +%'']), (''status'', [''x'', ''y''])]"] Let_def values_get_def vals_of_def)

end
