(* ===== verification/Go_Path.thy ===== *)
theory Go_Path
  imports Go_Strings
begin

text \<open>
  The part of Go's \<open>unicode/utf8\<close>, \<open>unicode\<close> and \<open>path/filepath\<close> (on Unix) that the
  program uses. \<open>decode_rune\<close> is the decoding of \<open>for _, r := range s\<close>: one rune with its
  bytes, where a byte that starts no valid encoding is U+FFFD of width one.
\<close>

subsection \<open>Runes\<close>

type_synonym rune = int

definition byte_int :: "char \<Rightarrow> int" where
  "byte_int c = of_char c"

definition rune_error :: rune where "rune_error = 0xFFFD"

definition is_cont :: "int \<Rightarrow> bool" where
  "is_cont b \<longleftrightarrow> 0x80 \<le> b \<and> b \<le> 0xBF"

text \<open>The rune at the start of a non-empty string and its width.\<close>

definition decode_rune :: "string \<Rightarrow> rune \<times> nat" where
  "decode_rune s =
     (let b = (\<lambda>i. byte_int (s ! i)); n = length s; b0 = b 0 in
      if b0 < 0x80 then (b0, 1)
      else if 0xC2 \<le> b0 \<and> b0 \<le> 0xDF \<and> 1 < n \<and> is_cont (b 1)
      then ((b0 - 0xC0) * 64 + (b 1 - 0x80), 2)
      else if 0xE0 \<le> b0 \<and> b0 \<le> 0xEF \<and> 2 < n \<and> is_cont (b 1) \<and> is_cont (b 2) \<and>
              (b0 = 0xE0 \<longrightarrow> 0xA0 \<le> b 1) \<and> (b0 = 0xED \<longrightarrow> b 1 \<le> 0x9F)
      then ((b0 - 0xE0) * 4096 + (b 1 - 0x80) * 64 + (b 2 - 0x80), 3)
      else if 0xF0 \<le> b0 \<and> b0 \<le> 0xF4 \<and> 3 < n \<and> is_cont (b 1) \<and> is_cont (b 2) \<and> is_cont (b 3) \<and>
              (b0 = 0xF0 \<longrightarrow> 0x90 \<le> b 1) \<and> (b0 = 0xF4 \<longrightarrow> b 1 \<le> 0x8F)
      then ((b0 - 0xF0) * 262144 + (b 1 - 0x80) * 4096 + (b 2 - 0x80) * 64 + (b 3 - 0x80), 4)
      else (rune_error, 1))"

lemma byte_int_range: "0 \<le> byte_int c \<and> byte_int c < 256"
  by (simp add: byte_int_def of_char_def horner_sum_simps)

lemma byte_int_eq [simp]: "byte_int c = byte_int d \<longleftrightarrow> c = d"
  by (simp add: byte_int_def)

lemma decode_rune_width: "1 \<le> snd (decode_rune s)"
  by (simp add: decode_rune_def Let_def)

lemma decode_rune_conts:
  "\<not> byte_int (s ! 0) < 0x80 \<Longrightarrow>
   snd (decode_rune s) = 1 \<or> snd (decode_rune s) = 2 \<and> is_cont (byte_int (s ! 1)) \<or>
   snd (decode_rune s) = 3 \<and> is_cont (byte_int (s ! 1)) \<and> is_cont (byte_int (s ! 2)) \<or>
   snd (decode_rune s) = 4 \<and> is_cont (byte_int (s ! 1)) \<and> is_cont (byte_int (s ! 2)) \<and> is_cont (byte_int (s ! 3))"
  unfolding decode_rune_def Let_def by (simp only: if_split snd_conv) simp

text \<open>A byte below 0x80 is never part of a longer encoding.\<close>

lemma decode_rune_ascii:
  assumes "s \<noteq> []" "c \<in> set (take (snd (decode_rune s)) s)" "byte_int c < 0x80"
  shows "decode_rune s = (byte_int c, 1)"
proof (cases "byte_int (s ! 0) < 0x80")
  case True
  then have d: "decode_rune s = (byte_int (s ! 0), 1)" by (simp add: decode_rune_def Let_def)
  with assms show ?thesis by (cases s) auto
next
  case False
  obtain i where i: "i < snd (decode_rune s)" "i < length s" "c = s ! i"
    using assms(2) by (auto simp: in_set_conv_nth)
  from decode_rune_conts [OF False] i(1) have "i = 0 \<or> is_cont (byte_int (s ! i))"
  proof (elim disjE conjE)
    assume "snd (decode_rune s) = 2" "is_cont (byte_int (s ! 1))"
    moreover from this i(1) have "i = 0 \<or> i = 1" by arith
    ultimately show ?thesis by blast
  next
    assume "snd (decode_rune s) = 3" "is_cont (byte_int (s ! 1))" "is_cont (byte_int (s ! 2))"
    moreover from this i(1) have "i = 0 \<or> i = 1 \<or> i = 2" by arith
    ultimately show ?thesis by blast
  next
    assume "snd (decode_rune s) = 4" "is_cont (byte_int (s ! 1))" "is_cont (byte_int (s ! 2))" "is_cont (byte_int (s ! 3))"
    moreover from this i(1) have "i = 0 \<or> i = 1 \<or> i = 2 \<or> i = 3" by arith
    ultimately show ?thesis by blast
  qed simp
  then have "0x80 \<le> byte_int c" using i(3) False by (auto simp: is_cont_def)
  with assms(3) show ?thesis by simp
qed

text \<open>The runes of a string, each with the bytes it was decoded from.\<close>

function runes :: "string \<Rightarrow> (rune \<times> string) list" where
  "runes s = (if s = [] then [] else let (r, w) = decode_rune s in (r, take w s) # runes (drop w s))"
  by pat_completeness auto
termination
proof (relation "measure length", goal_cases)
  case (2 s p r w)
  have "1 \<le> w" using decode_rune_width [of s] 2 by (metis snd_conv)
  with 2 show ?case by (cases s) auto
qed simp

declare runes.simps [simp del]

lemma runes_Nil [simp]: "runes [] = []"
  by (subst runes.simps) simp

lemma runes_ne: "s \<noteq> [] \<Longrightarrow> decode_rune s = (r, w) \<Longrightarrow> runes s = (r, take w s) # runes (drop w s)"
  by (subst runes.simps) simp

lemma runes_ascii: "(r, bs) \<in> set (runes s) \<Longrightarrow> c \<in> set bs \<Longrightarrow> byte_int c < 0x80 \<Longrightarrow> r = byte_int c \<and> bs = [c]"
proof (induction s rule: runes.induct)
  case (1 s)
  obtain r0 w where d: "decode_rune s = (r0, w)" by fastforce
  have ne: "s \<noteq> []" using 1(2) by auto
  from 1(2) runes_ne [OF ne d] consider "(r, bs) \<in> set (runes (drop w s))" | "r = r0" "bs = take w s" by auto
  then show ?case
  proof cases
    case 1
    with "1.IH" [OF ne d [symmetric] refl] "1.prems" show ?thesis by blast
  next
    case 2
    with "1.prems" d have "decode_rune s = (byte_int c, 1)" by (intro decode_rune_ascii [OF ne]) auto
    with 2 d "1.prems"(2) ne show ?thesis by (cases s) auto
  qed
qed

text \<open>The first runes of the runs of ten in \<open>unicode.Digit\<close> (Unicode 15.0), and the one run of fifty.\<close>

definition digit_starts :: "rune list" where
  "digit_starts =
     [0x30, 0x660, 0x6F0, 0x7C0, 0x966, 0x9E6, 0xA66, 0xAE6, 0xB66, 0xBE6, 0xC66, 0xCE6, 0xD66, 0xDE6, 0xE50,
      0xED0, 0xF20, 0x1040, 0x1090, 0x17E0, 0x1810, 0x1946, 0x19D0, 0x1A80, 0x1A90, 0x1B50, 0x1BB0, 0x1C40,
      0x1C50, 0xA620, 0xA8D0, 0xA900, 0xA9D0, 0xA9F0, 0xAA50, 0xABF0, 0xFF10, 0x104A0, 0x10D30, 0x11066,
      0x110F0, 0x11136, 0x111D0, 0x112F0, 0x11450, 0x114D0, 0x11650, 0x116C0, 0x11730, 0x118E0, 0x11950,
      0x11C50, 0x11D50, 0x11DA0, 0x11F50, 0x16A60, 0x16AC0, 0x16B50, 0x1D7CE, 0x1D7D8, 0x1D7E2, 0x1D7EC,
      0x1D7F6, 0x1E140, 0x1E2F0, 0x1E4F0, 0x1E950, 0x1FBF0]"

definition rune_is_digit :: "rune \<Rightarrow> bool" where
  "rune_is_digit r \<longleftrightarrow> list_ex (\<lambda>a. a \<le> r \<and> r < a + 10) digit_starts"

subsection \<open>Paths\<close>

definition slash :: char where "slash = CHR ''/''"

text \<open>\<open>filepath.Base\<close>.\<close>

definition path_base :: "string \<Rightarrow> string" where
  "path_base p =
     (if p = [] then ''.''
      else let q = rev (dropWhile (\<lambda>c. c = slash) (rev p)); b = rev (takeWhile (\<lambda>c. c \<noteq> slash) (rev q))
           in if b = [] then ''/'' else b)"

text \<open>\<open>filepath.Ext\<close>: from the last dot of the last element.\<close>

definition path_ext :: "string \<Rightarrow> string" where
  "path_ext p =
     (case last_index_byte p (CHR ''.'') of
        None \<Rightarrow> []
      | Some i \<Rightarrow> if slash \<in> set (drop i p) then [] else drop i p)"

text \<open>\<open>filepath.Clean\<close>: the elements left after \<open>.\<close> and \<open>..\<close> are resolved, on a stack.\<close>

fun clean_stack :: "bool \<Rightarrow> string list \<Rightarrow> string list \<Rightarrow> string list" where
  "clean_stack rooted [] st = rev st"
| "clean_stack rooted (e # es) st =
     (if e = [] \<or> e = ''.'' then clean_stack rooted es st
      else if e = ''..'' then
        (if st \<noteq> [] \<and> hd st \<noteq> ''..'' then clean_stack rooted es (tl st)
         else if rooted then clean_stack rooted es st
         else clean_stack rooted es (e # st))
      else clean_stack rooted es (e # st))"

definition path_clean :: "string \<Rightarrow> string" where
  "path_clean p =
     (let rooted = prefix ''/'' p; es = clean_stack rooted (split_byte slash p) [] in
      if rooted then ''/'' @ str_join es ''/''
      else if es = [] then ''.'' else str_join es ''/'')"

text \<open>\<open>filepath.Join\<close>: the leading empty elements are dropped.\<close>

definition path_join :: "string list \<Rightarrow> string" where
  "path_join es0 = (let es = dropWhile (\<lambda>e. e = []) es0 in if es = [] then [] else path_clean (str_join es ''/''))"

definition plain_element :: "string \<Rightarrow> bool" where
  "plain_element e \<longleftrightarrow> e \<noteq> [] \<and> e \<noteq> ''.'' \<and> e \<noteq> ''..'' \<and> slash \<notin> set e"

lemma split_byte_append: "b \<notin> set w \<Longrightarrow> split_byte b (w @ b # s) = w # split_byte b s"
  by (induction w) auto

lemma split_byte_id: "b \<notin> set w \<Longrightarrow> split_byte b w = [w]"
  by (induction w) auto

lemma split_join_plain:
  "list_all plain_element es \<Longrightarrow> es \<noteq> [] \<Longrightarrow> split_byte slash (str_join es ''/'') = es"
proof (induction es)
  case (Cons e es)
  then show ?case
    by (cases es) (auto simp: plain_element_def split_byte_id split_byte_append [unfolded slash_def] slash_def)
qed simp

lemma clean_stack_plain: "list_all plain_element es \<Longrightarrow> clean_stack r es st = rev st @ es"
  by (induction es arbitrary: st) (auto simp: plain_element_def)

text \<open>Joining a clean absolute root with plain elements only concatenates.\<close>

lemma path_join_plain:
  assumes "list_all plain_element rs" "rs \<noteq> []" "list_all plain_element es" "es \<noteq> []"
  shows "path_join ((''/'' @ str_join rs ''/'') # es) = ''/'' @ str_join (rs @ es) ''/''"
proof -
  have j: "str_join ((''/'' @ str_join rs ''/'') # es) ''/'' = ''/'' @ str_join (rs @ es) ''/''"
  proof -
    have "rs \<noteq> [] \<Longrightarrow> str_join rs ''/'' @ ''/'' @ str_join es ''/'' = str_join (rs @ es) ''/''"
    proof (induction rs)
      case (Cons r rs)
      then show ?case using assms(4) by (cases "rs = []") (simp_all add: str_join_Cons)
    qed simp
    then show ?thesis using assms by (simp add: str_join_Cons)
  qed
  have "list_all plain_element (rs @ es)" using assms by simp
  then have "path_clean (''/'' @ str_join (rs @ es) ''/'') = ''/'' @ str_join (rs @ es) ''/''"
    using split_join_plain [of "rs @ es"] clean_stack_plain [of "rs @ es" True "[]"] assms
    by (simp add: path_clean_def slash_def)
  then show ?thesis using j by (simp add: path_join_def)
qed

end
