(* ===== verification/Forms.thy ===== *)
theory Forms
  imports Go_Number Go_Path
begin

text \<open>
  The helpers of the forms of the web interface: \<open>dollarsToCents\<close>, \<open>atof\<close>, \<open>nonempty\<close> and
  \<open>isValidSIPUsername\<close> of \<open>web/crud.go\<close> and \<open>safeReturnTo\<close> of \<open>web/did_handlers.go\<close>. A form
  field is the string \<open>PostForm.Get\<close> returns.
\<close>

definition parsed_or_zero :: "string \<Rightarrow> rat" where
  "parsed_or_zero s = (case float_syntax s of None \<Rightarrow> 0 | Some v \<Rightarrow> v)"

definition dollars_to_cents :: "string \<Rightarrow> int" where
  "dollars_to_cents s =
     (let t = trim_space (trim_prefix (trim_space s) ''$'') in
      if float_word t then min_int64
      else float_to_int64 (fl64 (fl64 (parsed_or_zero t * 100) + 1 / 2)))"

definition nonempty :: "string \<Rightarrow> string \<Rightarrow> string" where
  "nonempty s dflt = (if trim_space s = [] then dflt else s)"

definition safe_return_to :: "string \<Rightarrow> string \<Rightarrow> string" where
  "safe_return_to field fallback =
     (let v = trim_space field in
      if v = [] \<or> \<not> has_prefix v ''/'' \<or> has_prefix v ''//'' then fallback else v)"

definition username_byte :: "char \<Rightarrow> bool" where
  "username_byte c \<longleftrightarrow> is_lower_ascii c \<or> is_upper_ascii c \<or> is_digit c \<or> c \<in> {CHR ''_'', CHR ''-''}"

text \<open>Every rune beyond ASCII is refused, so the loop over runes is one over bytes.\<close>

definition is_valid_sip_username :: "string \<Rightarrow> bool" where
  "is_valid_sip_username s \<longleftrightarrow> s \<noteq> [] \<and> length s \<le> 32 \<and> list_all username_byte s"

subsection \<open>Dollar amounts\<close>

text \<open>The text of a non-negative amount of cents, as \<open>%.2f\<close> prints it in dollars.\<close>

definition cents_text :: "int \<Rightarrow> string" where
  "cents_text n = itoa (n div 100) @ CHR ''.'' # [digit_char (nat (n div 10 mod 10)), digit_char (nat (n mod 10))]"

lemma cents_text_float:
  assumes "0 \<le> n"
  shows "float_syntax (cents_text n) = Some (fl64 (of_int n / 100))" "cents_text n \<noteq> []" "is_digit (hd (cents_text n))"
proof -
  let ?m = "nat_digits (nat (n div 100))" and ?f = "[digit_char (nat (n div 10 mod 10)), digit_char (nat (n mod 10))]"
  have t: "cents_text n = ?m @ CHR ''.'' # ?f" using assms by (simp add: cents_text_def itoa_def)
  have d: "nat (n div 10 mod 10) < 10" "nat (n mod 10) < 10" by auto
  have "digits_val (?m @ ?f) = digits_val ((?m @ [digit_char (nat (n div 10 mod 10))]) @ [digit_char (nat (n mod 10))])" by simp
  also have "\<dots> = (nat (n div 100) * 10 + nat (n div 10 mod 10)) * 10 + nat (n mod 10)"
    unfolding digits_val_snoc using d by (simp add: byte_val_digit_char)
  also have "\<dots> = nat n"
  proof -
    define a b c where "a = n div 100" and "b = n div 10 mod 10" and "c = n mod 10"
    have "(a * 10 + b) * 10 + c = n" unfolding a_def b_def c_def using zdiv_zmult2_eq [of 10 n 10] by simp
    moreover have "0 \<le> a" "0 \<le> b" "0 \<le> c" using assms by (simp_all add: a_def b_def c_def)
    moreover have "int ((nat a * 10 + nat b) * 10 + nat c) = (a * 10 + b) * 10 + c" using calculation(2-) by simp
    ultimately have "(nat a * 10 + nat b) * 10 + nat c = nat n" by linarith
    then show ?thesis by (simp only: a_def b_def c_def)
  qed
  finally have v: "digits_val (?m @ ?f) = nat n" .
  show "float_syntax (cents_text n) = Some (fl64 (of_int n / 100))"
    unfolding t by (subst float_syntax_decimal) (use d v assms in \<open>simp_all add: nat_digits_is_digit\<close>)
  show "cents_text n \<noteq> []" by (simp add: t)
  show "is_digit (hd (cents_text n))"
    using nat_digits_is_digit [of "nat (n div 100)"] by (simp add: t hd_append) (metis hd_in_set list_all_iff nat_digits_ne)
qed

lemma cents_rounding:
  assumes "0 \<le> n" "n \<le> 2 ^ 47"
  shows "\<bar>fl64 (fl64 (of_int n / 100) * 100) - of_int n\<bar> \<le> 1 / 16"
proof -
  let ?x = "of_int n / 100 :: rat" and ?v = "fl64 (of_int n / 100)"
  have n: "(of_int n :: rat) \<le> 2 ^ 47" "0 \<le> (of_int n :: rat)" using assms of_int_le_iff [of n "2 ^ 47", where 'a = rat] by simp_all
  define a where "a = ?v * 100"
  have v: "\<bar>?v - ?x\<bar> \<le> ?x / 2 ^ 53" using fl64_err [of ?x] n by simp
  have "\<bar>a - of_int n\<bar> = 100 * \<bar>?v - ?x\<bar>" by (simp add: a_def abs_if)
  with v have e: "\<bar>a - of_int n\<bar> \<le> of_int n / 2 ^ 53" by simp
  also have "\<dots> \<le> 2 ^ 47 / 2 ^ 53" using n by (intro divide_right_mono) simp_all
  finally have e: "\<bar>a - of_int n\<bar> \<le> 1 / 64" by simp
  then have "\<bar>a\<bar> \<le> 2 ^ 47 + 1" using n by linarith
  then have "\<bar>a\<bar> / 2 ^ 53 \<le> (2 ^ 47 + 1) / 2 ^ 53" by (intro divide_right_mono) simp_all
  then have "\<bar>fl64 a - a\<bar> \<le> 1 / 32" using fl64_err [of a] by simp
  with e have "\<bar>fl64 a - of_int n\<bar> \<le> 1 / 16" by linarith
  then show ?thesis by (simp add: a_def)
qed

lemma cents_half:
  assumes "0 \<le> n" "n \<le> 2 ^ 47" "\<bar>p - of_int n\<bar> \<le> 1 / 16" "h = 1 / 2 \<or> h = - (1 / 2)"
  shows "\<bar>fl64 (p + h) - (of_int n + h)\<bar> \<le> 1 / 8"
proof -
  have n: "(of_int n :: rat) \<le> 2 ^ 47" "0 \<le> (of_int n :: rat)"
    using assms of_int_le_iff [of n "2 ^ 47", where 'a = rat] by simp_all
  have "\<bar>p + h\<bar> \<le> 2 ^ 47 + 1" using n assms(3,4) by linarith
  then have "\<bar>p + h\<bar> / 2 ^ 53 \<le> (2 ^ 47 + 1) / 2 ^ 53" by (intro divide_right_mono) simp_all
  then have "\<bar>fl64 (p + h) - (p + h)\<bar> \<le> 1 / 32" using fl64_err [of "p + h"] by simp
  with assms(3) show ?thesis by linarith
qed

lemma trim_space_cents:
  "trim_space (cents_text n) = cents_text n" "trim_space (CHR ''-'' # cents_text n) = CHR ''-'' # cents_text n"
  "trim_space (CHR ''$'' # cents_text n) = CHR ''$'' # cents_text n"
proof -
  have d: "c \<notin> set (concat space_seqs)" if "is_digit c \<or> c \<in> set ''.-$''" for c
  proof -
    have "\<forall>c \<in> set (concat space_seqs). \<not> is_digit c \<and> c \<notin> set ''.-$''" by code_simp
    with that show ?thesis by blast
  qed
  have "is_digit c \<or> c \<in> set ''.-$''" if "c \<in> set (''-$'' @ cents_text n)" for c
    using that nat_digits_is_digit by (auto simp: cents_text_def itoa_def list_all_iff split: if_splits)
  then show "trim_space (cents_text n) = cents_text n" "trim_space (CHR ''-'' # cents_text n) = CHR ''-'' # cents_text n"
    "trim_space (CHR ''$'' # cents_text n) = CHR ''$'' # cents_text n"
    by (intro trim_space_plain d; auto)+
qed

lemma dollars_value:
  assumes "0 \<le> n" "n \<le> 2 ^ 47"
  shows "dollars_to_cents (cents_text n) = n \<and> dollars_to_cents (CHR ''$'' # cents_text n) = n \<and>
    dollars_to_cents (CHR ''-'' # cents_text n) = (if n = 0 then 0 else 1 - n)"
proof -
  note t = cents_text_float [OF assms(1)]
  have nd: "\<not> prefix ''$'' (cents_text n)" "\<not> is_digit (CHR ''$'')"
    using t(2,3) by (cases "cents_text n"; auto simp: is_digit_def byte_val_def)+
  have w: "\<not> float_word (cents_text n)" "\<not> float_word (CHR ''-'' # cents_text n)" using float_word_number t(2,3) by auto
  define p where "p = fl64 (fl64 (of_int n / 100) * 100)"
  have p: "\<bar>p - of_int n\<bar> \<le> 1 / 16" unfolding p_def by (rule cents_rounding [OF assms])
  have q: "\<bar>fl64 (p + 1 / 2) - (of_int n + 1 / 2)\<bar> \<le> 1 / 8" using cents_half [OF assms p] by simp
  have q': "\<bar>fl64 (p + - (1 / 2)) - (of_int n + - (1 / 2))\<bar> \<le> 1 / 8" by (rule cents_half [OF assms p]) simp
  have f: "float_to_int64 (fl64 (p + 1 / 2)) = n"
  proof -
    have fl: "\<lfloor>fl64 (p + 1 / 2)\<rfloor> = n" by (rule floor_unique) (use q in linarith)+
    have "0 \<le> fl64 (p + 1 / 2)" using q assms(1) of_int_nonneg [OF assms(1), where 'a = rat] by linarith
    with fl assms show ?thesis by (simp add: float_to_int64_def trunc_def Let_def)
  qed
  define r where "r = fl64 (- p + 1 / 2)"
  have neg: "r = - fl64 (p + - (1 / 2))" using fl64_minus [of "p + - (1 / 2)"] by (simp add: r_def)
  have g: "float_to_int64 r = (if n = 0 then 0 else 1 - n)"
  proof (cases "n = 0")
    case True
    then have p0: "p = 0" by (simp add: p_def)
    have "0 \<le> fl64 (1 / 2)" by (rule fl64_nonneg) simp
    moreover have "fl64 (1 / 2) < 1" using fl64_err [of "1 / 2"] by (simp add: abs_if split: if_splits)
    ultimately show ?thesis using True p0 by (simp add: r_def float_to_int64_def trunc_def floor_eq_iff)
  next
    case False
    then have n1: "1 \<le> (of_int n :: rat)" using assms(1) by simp
    have "\<lceil>r\<rceil> = 1 - n"
      by (rule ceiling_unique) (use q' neg of_int_diff [of 1 n, where 'a = rat] of_int_1 [where 'a = rat] in linarith)+
    moreover have "\<not> 0 \<le> r" using q' n1 neg by linarith
    ultimately show ?thesis using False assms by (simp add: float_to_int64_def trunc_def Let_def)
  qed
  have m: "fl64 (- fl64 (of_int n / 100) * 100) = - p" using fl64_minus [of "fl64 (of_int n / 100) * 100"] by (simp add: p_def)
  have "dollars_to_cents (cents_text n) = n"
    using nd f by (simp add: dollars_to_cents_def trim_space_cents trim_prefix_def w parsed_or_zero_def t(1) flip: p_def)
  moreover have "dollars_to_cents (CHR ''-'' # cents_text n) = (if n = 0 then 0 else 1 - n)"
    using g m by (simp add: r_def dollars_to_cents_def trim_space_cents trim_prefix_def w parsed_or_zero_def float_syntax_minus t)
  moreover have "dollars_to_cents (CHR ''$'' # cents_text n) = dollars_to_cents (cents_text n)"
    using nd(1) by (simp add: dollars_to_cents_def trim_space_cents trim_prefix_def)
  ultimately show ?thesis by simp
qed

text \<open>An amount left blank is zero.\<close>

lemma dollars_blank: "dollars_to_cents [] = 0"
proof -
  have "0 \<le> fl64 (1 / 2)" by (rule fl64_nonneg) simp
  moreover have "fl64 (1 / 2) < 1" using fl64_err [of "1 / 2"] by (simp add: abs_if split: if_splits)
  moreover have "trim_space (trim_prefix (trim_space []) ''$'') = []" "\<not> float_word []" "float_syntax [] = None" by code_simp+
  ultimately show ?thesis by (simp add: dollars_to_cents_def parsed_or_zero_def float_to_int64_def trunc_def floor_eq_iff)
qed

text \<open>
  C29: a dollar amount with two decimals, up to 1.4 trillion dollars, is read as exactly its
  cents, with or without the dollar sign. A negative amount loses a cent, since the half that
  rounds is always added and the conversion to an integer cuts towards zero.
\<close>

theorem dollars_exact:
  assumes "0 \<le> n" "n \<le> 2 ^ 47"
  shows "dollars_to_cents (cents_text n) = n \<and> dollars_to_cents (CHR ''$'' # cents_text n) = n \<and>
    dollars_to_cents (CHR ''-'' # cents_text n) = (if n = 0 then 0 else 1 - n)"
  by (rule dollars_value [OF assms])

theorem dollars_exact_witness:
  "dollars_to_cents ''19.99'' = 1999 \<and> dollars_to_cents ''$19.99'' = 1999 \<and> dollars_to_cents ''-19.99'' = -1998"
proof -
  have "cents_text 1999 = ''19.99''" by code_simp
  then show ?thesis using dollars_exact [of 1999] by simp
qed

subsection \<open>Return paths\<close>

text \<open>
  The guard against foreign targets looks for a second slash only: a backslash after the
  first slash passes, which browsers read as a second slash.
\<close>

lemma backslash_passes:
  "safe_return_to ([CHR ''/'', CHR 0x5C] @ ''evil.com'') ''/dids'' = [CHR ''/'', CHR 0x5C] @ ''evil.com''"
  "safe_return_to ''//evil.com'' ''/dids'' = ''/dids''"
  by code_simp+

lemma sip_username_plain: "is_valid_sip_username s \<Longrightarrow> c \<in> set s \<Longrightarrow> username_byte c"
  by (simp add: is_valid_sip_username_def list_all_iff)

end
