(* ===== verification/Go_Time.thy ===== *)
theory Go_Time
  imports Prelude
begin

text \<open>
  The calendar part of Go's \<open>time.Time\<close> in UTC, as the billing code uses it: a date and
  the nanoseconds since midnight. The order is the chronological order, so that
  \<open>t.After(u)\<close> is \<open>u < t\<close>. \<open>add_month\<close> is \<open>AddDate(0, 1, 0)\<close> for a day of the month
  that every month has (1 to 28), where no day overflows into the next month.
\<close>

datatype utc_time = UTC (t_year: int) (t_month: int) (t_day: int) (t_nanos: int)

fun time_le :: "utc_time \<Rightarrow> utc_time \<Rightarrow> bool" where
  "time_le (UTC y m d n) (UTC y' m' d' n') \<longleftrightarrow>
     y < y' \<or> y = y' \<and> (m < m' \<or> m = m' \<and> (d < d' \<or> d = d' \<and> n \<le> n'))"

instantiation utc_time :: linorder
begin

definition less_eq_utc_time :: "utc_time \<Rightarrow> utc_time \<Rightarrow> bool" where
  "less_eq_utc_time s t = time_le s t"

definition less_utc_time :: "utc_time \<Rightarrow> utc_time \<Rightarrow> bool" where
  "less_utc_time s t = (time_le s t \<and> s \<noteq> t)"

instance
proof
  fix x y z :: utc_time
  show "(x < y) = (x \<le> y \<and> \<not> y \<le> x)"
    by (cases x; cases y) (auto simp: less_eq_utc_time_def less_utc_time_def)
  show "x \<le> x" by (cases x) (simp add: less_eq_utc_time_def)
  show "x \<le> y \<Longrightarrow> y \<le> z \<Longrightarrow> x \<le> z"
    by (cases x; cases y; cases z) (auto simp: less_eq_utc_time_def)
  show "x \<le> y \<Longrightarrow> y \<le> x \<Longrightarrow> x = y"
    by (cases x; cases y) (auto simp: less_eq_utc_time_def)
  show "x \<le> y \<or> y \<le> x"
    by (cases x; cases y) (auto simp: less_eq_utc_time_def)
qed

end

lemma time_le_simps [simp]:
  "UTC y m d n \<le> UTC y' m' d' n' \<longleftrightarrow>
     y < y' \<or> y = y' \<and> (m < m' \<or> m = m' \<and> (d < d' \<or> d = d' \<and> n \<le> n'))"
  by (simp add: less_eq_utc_time_def)

lemma time_less_simps [simp]:
  "UTC y m d n < UTC y' m' d' n' \<longleftrightarrow>
     y < y' \<or> y = y' \<and> (m < m' \<or> m = m' \<and> (d < d' \<or> d = d' \<and> n < n'))"
  by (auto simp: less_utc_time_def)

text \<open>Month, day and clock are in range; the day bound is the one the code needs.\<close>

fun valid_time :: "utc_time \<Rightarrow> bool" where
  "valid_time (UTC y m d n) \<longleftrightarrow>
     1 \<le> m \<and> m \<le> 12 \<and> 1 \<le> d \<and> d \<le> 31 \<and> 0 \<le> n \<and> n < 86400 * 10 ^ 9"

fun add_month :: "utc_time \<Rightarrow> utc_time" where
  "add_month (UTC y m d n) = UTC (y + m div 12) (m mod 12 + 1) d n"

lemma add_month_greater: "valid_time t \<Longrightarrow> t < add_month t"
  by (cases t) auto

lemma valid_add_month: "valid_time t \<Longrightarrow> t_day t \<le> 28 \<Longrightarrow> valid_time (add_month t)"
  by (cases t) auto

subsection \<open>Dates\<close>

text \<open>\<open>time.Parse("2006-01-02", s)\<close> as a Unix time: four, two and two digits of an existing day.\<close>

definition leap_year :: "int \<Rightarrow> bool" where
  "leap_year y \<longleftrightarrow> y mod 4 = 0 \<and> (y mod 100 \<noteq> 0 \<or> y mod 400 = 0)"

definition month_days :: "int \<Rightarrow> int \<Rightarrow> int" where
  "month_days y m = (if m = 2 then (if leap_year y then 29 else 28) else if m \<in> {4, 6, 9, 11} then 30 else 31)"

text \<open>Days since 1970-01-01; the year is counted from March.\<close>

definition unix_day :: "int \<Rightarrow> int \<Rightarrow> int \<Rightarrow> int" where
  "unix_day y m d =
     (let y' = (if m \<le> 2 then y - 1 else y); m' = (if m \<le> 2 then m + 9 else m - 3) in
      365 * y' + y' div 4 - y' div 100 + y' div 400 + (153 * m' + 2) div 5 + d - 1 - 719468)"

end
