(* ===== verification/Domain.thy ===== *)
theory Domain
  imports Go_Strings Go_Float Go_Time
begin

text \<open>
  \<open>internal/domain/domain.go\<close>: the canonical enumerations and the pure helpers the rest
  of the system shares: call classification, route normalisation, call charges, the
  authorised call duration, SIP URI clean-up and the anniversary date.
\<close>

subsection \<open>Enumerations\<close>

datatype did_type = DIDMobile | DIDNational | DIDLocal | DIDTollfree

datatype route_kind = RouteSIPAccount | RouteSIPURI | RouteIP | RouteAudio | RouteAudioGroup

datatype order_status = OrdActive | OrdSuspended | OrdCancelled | OrdKycPending | OrdQuarantined

datatype ledger_kind =
  LedgerTopup | LedgerNRC | LedgerMRC | LedgerChannelFee | LedgerCallCharge | LedgerManualAdj
  | LedgerRefund

fun did_type_text :: "did_type \<Rightarrow> string" where
  "did_type_text DIDMobile = ''mobile''"
| "did_type_text DIDNational = ''national''"
| "did_type_text DIDLocal = ''local''"
| "did_type_text DIDTollfree = ''tollfree''"

fun route_kind_text :: "route_kind \<Rightarrow> string" where
  "route_kind_text RouteSIPAccount = ''sip_account''"
| "route_kind_text RouteSIPURI = ''sip_uri''"
| "route_kind_text RouteIP = ''ip''"
| "route_kind_text RouteAudio = ''audio''"
| "route_kind_text RouteAudioGroup = ''audio_group''"

fun order_status_text :: "order_status \<Rightarrow> string" where
  "order_status_text OrdActive = ''active''"
| "order_status_text OrdSuspended = ''suspended''"
| "order_status_text OrdCancelled = ''cancelled''"
| "order_status_text OrdKycPending = ''kyc_pending''"
| "order_status_text OrdQuarantined = ''quarantined''"

fun ledger_kind_text :: "ledger_kind \<Rightarrow> string" where
  "ledger_kind_text LedgerTopup = ''topup''"
| "ledger_kind_text LedgerNRC = ''nrc''"
| "ledger_kind_text LedgerMRC = ''mrc''"
| "ledger_kind_text LedgerChannelFee = ''channel_fee''"
| "ledger_kind_text LedgerCallCharge = ''call_charge''"
| "ledger_kind_text LedgerManualAdj = ''manual_adj''"
| "ledger_kind_text LedgerRefund = ''refund''"

subsection \<open>Call classification\<close>

definition call_state :: "int \<Rightarrow> string \<Rightarrow> string" where
  "call_state billsec cause =
     (if 0 < billsec \<and> cause \<in> {''16'', '''', ''normal'', ''normal-recovered''} then ''answered''
      else if cause = ''17'' then ''busy''
      else if cause \<in> {''18'', ''19''} then ''no_answer''
      else if cause = ''21'' then ''rejected''
      else if cause \<in> {''3'', ''28'', ''88''} then ''no_route''
      else if 0 < billsec then ''answered''
      else ''failed'')"

subsection \<open>Route targets\<close>

definition normalize_route_target :: "string \<Rightarrow> string \<Rightarrow> string" where
  "normalize_route_target kind target =
     (let t = trim_space target in
      trim_space
        (if kind = ''sip_uri'' then
           (let low = to_lower t in
            if \<not> has_prefix low ''sip:'' \<and> \<not> has_prefix low ''sips:'' then ''sip:'' @ t else t)
         else if kind = ''ip'' then
           (let t' = (case last_index_byte t (CHR ''@'') of Some i \<Rightarrow> drop (i + 1) t | None \<Rightarrow> t)
            in trim_prefix (trim_prefix t' ''sips:'') ''sip:'')
         else if kind = ''sip_account'' then
           (let t' = trim_prefix (trim_prefix t ''sips:'') ''sip:''
            in case index_byte t' (CHR ''@'') of Some i \<Rightarrow> take i t' | None \<Rightarrow> t')
         else t))"

subsection \<open>Charges\<close>

text \<open>The billing increment: \<open>min/inc\<close> seconds, non-positive values mean 60.\<close>

definition default60 :: "int \<Rightarrow> int" where
  "default60 n = (if n \<le> 0 then 60 else n)"

definition billed_seconds :: "int \<Rightarrow> int \<Rightarrow> int \<Rightarrow> int" where
  "billed_seconds billsec bill_min bill_inc =
     (let m = default60 bill_min; i = default60 bill_inc; r = billsec mod i
      in if billsec < m then m else if r \<noteq> 0 then billsec + (i - r) else billsec)"

text \<open>\<open>int(math.Ceil(float64(billed) * (rate / 60.0)))\<close>.\<close>

definition cents_for :: "int \<Rightarrow> rat \<Rightarrow> int" where
  "cents_for billed rate = \<lceil>fl64 (fl64 (of_int billed) * fl64 (rate / 60))\<rceil>"

definition charge_for_call :: "int \<Rightarrow> int \<Rightarrow> int \<Rightarrow> rat \<Rightarrow> int \<times> int \<times> int" where
  "charge_for_call billsec bill_min bill_inc rate =
     (if billsec \<le> 0 then (0, 0, 0)
      else let billed = billed_seconds billsec bill_min bill_inc
           in (billed, \<lceil>fl64 (fl64 (of_int billed) / 60)\<rceil>, cents_for billed rate))"

definition supplier_charge_for_call :: "int \<Rightarrow> int \<Rightarrow> int \<Rightarrow> rat \<Rightarrow> int" where
  "supplier_charge_for_call billsec bill_min bill_inc rate =
     (if billsec \<le> 0 \<or> rate \<le> 0 then 0
      else cents_for (billed_seconds billsec bill_min bill_inc) rate)"

definition max_seconds_for_balance :: "int \<Rightarrow> rat \<Rightarrow> int" where
  "max_seconds_for_balance balance rate =
     (if rate \<le> 0 then 4 * 60 * 60
      else let whole = \<lfloor>fl64 (fl64 (of_int balance) / rate)\<rfloor>
           in if whole < 0 then 0 else whole * 60)"

subsection \<open>Country flags\<close>

text \<open>
  The two regional-indicator runes in UTF-8. \<open>None\<close> is the index-out-of-range panic of
  \<open>strings.ToUpper(iso)[1]\<close>, which a two-byte rune with a one-byte upper case triggers.
\<close>

definition regional_indicator :: "char \<Rightarrow> string" where
  "regional_indicator c =
     [CHR 0xF0, CHR 0x9F, CHR 0x87, char_of (166 + (byte_val c - 65))]"

definition flag_emoji :: "string \<Rightarrow> string option" where
  "flag_emoji cc =
     (if length cc \<noteq> 2 then Some []
      else let u = to_upper cc in
        if length u < 2 then None
        else if \<not> is_upper_ascii (u ! 0) \<or> \<not> is_upper_ascii (u ! 1) then Some []
        else Some (regional_indicator (u ! 0) @ regional_indicator (u ! 1)))"

subsection \<open>SIP URIs and Call-IDs\<close>

definition all_digits :: "string \<Rightarrow> bool" where
  "all_digits s \<longleftrightarrow> list_all is_digit s \<and> s \<noteq> []"

text \<open>The five steps of \<open>CleanCallerURI\<close>.\<close>

definition drop_display_name :: "string \<Rightarrow> string" where
  "drop_display_name s =
     (if has_prefix s [CHR 0x22]
      then (case index_byte (drop 1 s) (CHR 0x22) of
              Some e \<Rightarrow> trim_space (drop (e + 2) s) | None \<Rightarrow> s)
      else s)"

definition inside_angles :: "string \<Rightarrow> string" where
  "inside_angles s =
     (case index_byte s (CHR ''<'') of None \<Rightarrow> s
      | Some i \<Rightarrow> (case index_byte s (CHR ''>'') of None \<Rightarrow> s
         | Some j \<Rightarrow> if i < j then take (j - (i + 1)) (drop (i + 1) s) else s))"

definition drop_scheme :: "string \<Rightarrow> string" where
  "drop_scheme s =
     (let low = to_lower s in
      if has_prefix low ''sips:'' then drop 5 s
      else if has_prefix low ''sip:'' then drop 4 s
      else if has_prefix low ''tel:'' then drop 4 s
      else s)"

definition drop_params :: "string \<Rightarrow> string" where
  "drop_params s = (case index_byte s (CHR '';'') of Some i \<Rightarrow> take i s | None \<Rightarrow> s)"

definition drop_port :: "string \<Rightarrow> string" where
  "drop_port s =
     (case index_byte s (CHR ''@'') of None \<Rightarrow> s
      | Some k \<Rightarrow>
         (let host = drop (k + 1) s in
          case last_index_byte host (CHR '':'') of None \<Rightarrow> s
          | Some colon \<Rightarrow>
             (let port = drop (colon + 1) host in
              if port \<noteq> [] \<and> all_digits port then take (k + 1) s @ take colon host else s)))"

definition clean_caller_uri :: "string \<Rightarrow> string" where
  "clean_caller_uri s0 =
     (let s = trim_space s0 in
      if s = [] then []
      else trim_space (drop_port (drop_params (drop_scheme (inside_angles (drop_display_name s))))))"

definition sanitize_call_id :: "string \<Rightarrow> string" where
  "sanitize_call_id raw0 =
     (let raw = trim_space raw0 in
      case index_byte raw (CHR ''@'') of Some i \<Rightarrow> take i raw | None \<Rightarrow> raw)"

subsection \<open>Anniversaries\<close>

definition clamp_day :: "int \<Rightarrow> int" where
  "clamp_day day = (let d = (if day < 1 then 1 else day) in if 28 < d then 28 else d)"

definition next_anniversary :: "utc_time \<Rightarrow> int \<Rightarrow> utc_time" where
  "next_anniversary t day =
     (let c = UTC (t_year t) (t_month t) (clamp_day day) 0
      in if \<not> t < c then add_month c else c)"


subsection \<open>Properties of the charge\<close>

lemma default60_pos: "0 < default60 n"
  by (simp add: default60_def)

lemma billed_seconds_ge: "billsec \<le> billed_seconds billsec m i"
  using pos_mod_bound [OF default60_pos, of billsec i]
  by (simp add: billed_seconds_def Let_def)

lemma billed_seconds_ge_min: "default60 m \<le> billed_seconds billsec m i"
  using pos_mod_bound [OF default60_pos, of billsec i]
  by (simp add: billed_seconds_def Let_def)

lemma billed_seconds_round_up:
  assumes "default60 m \<le> billsec"
  shows "billed_seconds billsec m i = default60 i * ((billsec + default60 i - 1) div default60 i)"
proof -
  define d where "d = default60 i"
  define q where "q = billsec div d"
  define r where "r = billsec mod d"
  have d: "0 < d" by (simp add: d_def default60_pos)
  have b: "billsec = d * q + r" by (simp add: q_def r_def)
  have r: "0 \<le> r" "r < d" using d by (auto simp: r_def)
  have "(billsec + d - 1) div d = (if r = 0 then q else q + 1)"
  proof (cases "r = 0")
    case True
    then have "(billsec + d - 1) div d = ((d - 1) + d * q) div d" using b by (simp add: algebra_simps)
    also have "\<dots> = (d - 1) div d + q" using d by (subst div_mult_self2) auto
    finally show ?thesis using True d by (simp add: div_pos_pos_trivial)
  next
    case False
    have "(billsec + d - 1) div d = ((r - 1) + d * (q + 1)) div d" using b by (simp add: algebra_simps)
    also have "\<dots> = (r - 1) div d + (q + 1)" using d by (subst div_mult_self2) auto
    finally show ?thesis using False r by (simp add: div_pos_pos_trivial)
  qed
  moreover have "billed_seconds billsec m i = (if r \<noteq> 0 then billsec + (d - r) else billsec)"
    using assms by (simp add: billed_seconds_def Let_def d_def r_def)
  ultimately show ?thesis using b unfolding d_def [symmetric] by (auto simp: algebra_simps)
qed

lemma billed_seconds_mono:
  assumes "a \<le> b" shows "billed_seconds a m i \<le> billed_seconds b m i"
proof (cases "a < default60 m")
  case True
  then have "billed_seconds a m i = default60 m" by (simp add: billed_seconds_def Let_def)
  then show ?thesis using billed_seconds_ge_min by simp
next
  case False
  have "(a + default60 i - 1) div default60 i \<le> (b + default60 i - 1) div default60 i"
    using assms default60_pos [of i] by (intro zdiv_mono1) auto
  with False assms default60_pos [of i] show ?thesis
    by (simp add: billed_seconds_round_up mult_left_mono)
qed

text \<open>
  The billed seconds of a call: below the minimum exactly the minimum is billed, from
  the minimum on the duration is rounded up to the next multiple of the increment, and the
  caller never pays for fewer seconds than it talked.
\<close>

theorem billed_seconds_spec:
  "billsec \<le> billed_seconds billsec m i \<and>
   billed_seconds billsec m i =
     (if billsec < default60 m then default60 m
      else default60 i * ((billsec + default60 i - 1) div default60 i))"
proof (cases "billsec < default60 m")
  case True
  then show ?thesis by (simp add: billed_seconds_def Let_def)
next
  case False
  with billed_seconds_ge [of billsec m i] billed_seconds_round_up [of m billsec i]
  show ?thesis by simp
qed

lemma cents_for_nonneg: "0 \<le> billed \<Longrightarrow> 0 \<le> rate \<Longrightarrow> 0 \<le> cents_for billed rate"
  unfolding cents_for_def
  by (simp add: ieee.nonneg less_le_trans [of "-1" 0])

lemma cents_for_mono:
  assumes "0 \<le> a" "a \<le> b" "0 \<le> rate"
  shows "cents_for a rate \<le> cents_for b rate"
  unfolding cents_for_def
  using assms by (intro ceiling_mono ieee.mono mult_right_mono ieee.nonneg mult_nonneg_nonneg) auto

lemma cents_for_near:
  assumes "0 \<le> billed" "billed < 2 ^ 53" "0 \<le> rate" "of_int billed * rate / 60 \<le> 2 ^ 50"
  shows "\<bar>cents_for billed rate - \<lceil>of_int billed * rate / 60\<rceil>\<bar> \<le> 1"
  using ieee.ceiling_product [of billed "rate / 60"] assms by (simp add: cents_for_def)

text \<open>
  C20: the customer charge is never more than one cent away from the exact price of the
  billed seconds, \<open>ceil (billed * rate / 60)\<close>, whatever the rounding of float64 does, as
  long as the price is below \<open>2 ^ 50\<close> cents.
\<close>

theorem charge_within_one_cent:
  assumes "0 < billsec" "0 \<le> rate"
    and "billed_seconds billsec m i < 2 ^ 53"
    and "of_int (billed_seconds billsec m i) * rate / 60 \<le> 2 ^ 50"
  shows "\<exists>mins cents. charge_for_call billsec m i rate = (billed_seconds billsec m i, mins, cents) \<and>
           \<bar>cents - \<lceil>of_int (billed_seconds billsec m i) * rate / 60\<rceil>\<bar> \<le> 1"
  using cents_for_near [of "billed_seconds billsec m i" rate] billed_seconds_ge [of billsec m i] assms
  by (auto simp: charge_for_call_def Let_def)

theorem charge_within_one_cent_witness:
  "charge_for_call 61 60 1 (3 / 2) = (61, 2, 2) \<and> \<bar>2 - \<lceil>61 * (3 / 2) / (60::rat)\<rceil>\<bar> \<le> 1"
proof -
  have b: "billed_seconds 61 60 1 = 61" by code_simp
  have "charge_for_call 61 60 1 (3 / 2) = (61, 2, 2)" by code_simp
  then show ?thesis using charge_within_one_cent [of 61 "3 / 2" 60 1] by (simp add: b)
qed

text \<open>
  A longer call never costs less: billed seconds and charge are monotone in the
  duration, for every billing increment and every non-negative rate.
\<close>

theorem charge_monotone:
  assumes "a \<le> b" "0 \<le> rate"
  shows "fst (charge_for_call a m i rate) \<le> fst (charge_for_call b m i rate) \<and>
         snd (snd (charge_for_call a m i rate)) \<le> snd (snd (charge_for_call b m i rate))"
proof -
  have "0 < x \<Longrightarrow> 0 \<le> billed_seconds x m i" for x using billed_seconds_ge [of x m i] by linarith
  then show ?thesis
    using assms billed_seconds_mono [of a b m i] cents_for_mono cents_for_nonneg
    by (auto simp: charge_for_call_def Let_def)
qed

theorem charge_monotone_witness:
  "snd (snd (charge_for_call 7 6 6 (3 / 2))) \<le> snd (snd (charge_for_call 75 6 6 (3 / 2))) \<and>
   charge_for_call 75 6 6 (3 / 2) = (78, 2, 2)"
proof -
  have "charge_for_call 75 6 6 (3 / 2) = (78, 2, 2)" by code_simp
  then show ?thesis using charge_monotone [of 7 75 "3 / 2" 6 6] by simp
qed


lemma max_seconds_nonneg: "0 \<le> max_seconds_for_balance bal rate"
  by (simp add: max_seconds_for_balance_def Let_def)

text \<open>
  A call that stays within the authorised seconds costs at most one cent more than the
  balance it was authorised against: the one cent is the slack float64 rounding leaves.
\<close>

theorem max_seconds_affordable:
  assumes "0 < rate" "0 \<le> bal" "bal < 2 ^ 49"
    and "max_seconds_for_balance bal rate < 2 ^ 53"
    and "0 \<le> billed" "billed \<le> max_seconds_for_balance bal rate"
  shows "cents_for billed rate \<le> bal + 1"
proof -
  define w where "w = \<lfloor>fl64 (of_int bal / rate)\<rfloor>"
  have flb: "fl64 (of_int bal) = of_int bal" using assms by (intro fl64_exact) auto
  have w0: "0 \<le> w" using ieee.nonneg [of "of_int bal / rate"] assms by (simp add: w_def)
  have ms: "max_seconds_for_balance bal rate = w * 60"
    using assms w0 by (simp add: max_seconds_for_balance_def Let_def flb w_def)
  have bb: "(of_int bal :: rat) < 2 ^ 49"
    using assms(3) by (metis of_int_less_iff of_int_numeral of_int_power)
  have "of_int w \<le> fl64 (of_int bal / rate)" by (simp add: w_def)
  also have "\<dots> \<le> of_int bal / rate * (1 + 1 / 2 ^ 53)" using assms by (intro ieee.upper) auto
  finally have "of_int w * rate \<le> of_int bal / rate * (1 + 1 / 2 ^ 53) * rate"
    using assms(1) by (intro mult_right_mono) auto
  then have wr: "of_int w * rate \<le> of_int bal + 1 / 16"
    using assms(1) bb by (simp add: field_simps)
  have nq: "of_int (w * 60) * (rate / 60) = of_int w * rate" by simp
  have "\<bar>fl64 (fl64 (of_int (w * 60)) * fl64 (rate / 60)) - of_int (w * 60) * (rate / 60)\<bar> \<le> 1 / 2"
    using assms(1,4) w0 wr bb unfolding ms by (intro ieee.product_error) (auto simp: nq)
  then have "fl64 (fl64 (of_int (w * 60)) * fl64 (rate / 60)) \<le> of_int bal + 1"
    using wr unfolding nq by linarith
  then have "cents_for (w * 60) rate \<le> bal + 1" by (simp add: cents_for_def ceiling_le_iff)
  with cents_for_mono [of billed "w * 60" rate] assms ms show ?thesis by simp
qed

theorem max_seconds_affordable_witness:
  "max_seconds_for_balance 5 (3 / 2) = 180 \<and> cents_for 180 (3 / 2) \<le> 5 + 1"
proof -
  have "max_seconds_for_balance 5 (3 / 2) = 180" by code_simp
  then show ?thesis using max_seconds_affordable [of "3 / 2" 5 180] by simp
qed

text \<open>
  The one-cent slack is real. At the rate 2.1 cents per minute a ten-minute call has the
  exact price of 21 cents, the float64 product lies just above 21 and the caller is charged
  22 cents; a balance of 21 cents is authorised for exactly those ten minutes, so the call
  overdraws it.
\<close>

theorem float_rounding_overcharges:
  "charge_for_call 600 60 60 (fl64 (21 / 10)) = (600, 10, 22) \<and>
   \<lceil>600 * (21 / 10) / (60 :: rat)\<rceil> = 21 \<and>
   max_seconds_for_balance 21 (fl64 (21 / 10)) = 600"
proof -
  have "charge_for_call 600 60 60 (fl64 (21 / 10)) = (600, 10, 22)" by code_simp
  moreover have "max_seconds_for_balance 21 (fl64 (21 / 10)) = 600" by code_simp
  ultimately show ?thesis by simp
qed

subsection \<open>Properties of route targets and Call-IDs\<close>

lemma drop_last_index_no: "last_index_byte s b = Some i \<Longrightarrow> b \<notin> set (drop (Suc i) s)"
  using last_index_byte_Some by blast

lemma trim_prefix_set: "set (trim_prefix s p) \<subseteq> set s"
  by (auto simp: trim_prefix_def dest: in_set_dropD)

text \<open>
  A normalised \<open>ip\<close> or \<open>sip_account\<close> target never contains an \<open>@\<close>: whatever user and
  scheme the operator typed, the dialplan gets a bare host or a bare account name.
\<close>

theorem route_target_no_at:
  assumes "kind = ''ip'' \<or> kind = ''sip_account''"
  shows "CHR ''@'' \<notin> set (normalize_route_target kind target)"
proof -
  have ip: "CHR ''@'' \<notin> set (case last_index_byte t (CHR ''@'') of Some i \<Rightarrow> drop (i + 1) t | None \<Rightarrow> t)" for t
    using drop_last_index_no by (auto split: option.splits)
  have acc: "CHR ''@'' \<notin> set (case index_byte t (CHR ''@'') of Some i \<Rightarrow> take i t | None \<Rightarrow> t)" for t
    using index_byte_Some by (auto split: option.splits)
  show ?thesis
    using assms
    by (auto simp: normalize_route_target_def Let_def
        dest!: subsetD [OF set_trim_space] subsetD [OF trim_prefix_set] ip [THEN notE, rotated]
          acc [THEN notE, rotated])
qed

theorem route_target_no_at_witness:
  "CHR ''@'' \<notin> set (normalize_route_target ''ip'' ''sip:bob@10.0.0.1:5060'') \<and>
   normalize_route_target ''ip'' ''sip:bob@10.0.0.1:5060'' = ''10.0.0.1:5060''"
proof -
  have "normalize_route_target ''ip'' ''sip:bob@10.0.0.1:5060'' = ''10.0.0.1:5060''" by code_simp
  then show ?thesis using route_target_no_at [of "''ip''" "''sip:bob@10.0.0.1:5060''"] by simp
qed

lemma to_lower_app_sip: "has_prefix (to_lower (''sip:'' @ t)) ''sip:''"
  by (simp add: lower_byte_def is_upper_ascii_def byte_val_def)

lemma sanitize_call_id_no_at: "CHR ''@'' \<notin> set (sanitize_call_id raw)"
  using index_byte_Some by (auto simp: sanitize_call_id_def Let_def split: option.splits)

lemma sanitize_call_id_prefix: "prefix (sanitize_call_id raw) (trim_space raw)"
  by (auto simp: sanitize_call_id_def Let_def take_is_prefix split: option.splits)

lemma sanitize_call_id_clean:
  assumes "trim_space raw = raw" "CHR ''@'' \<notin> set raw"
  shows "sanitize_call_id raw = raw"
proof -
  from assms(2) have "index_byte raw (CHR ''@'') = None" by simp
  with assms(1) show ?thesis by (simp add: sanitize_call_id_def Let_def del: index_byte_None)
qed

text \<open>
  The stored Call-ID is the part of the trimmed header before the first \<open>@\<close>: it never
  shows the address of the supplier that Asterisk appends.
\<close>

theorem sanitize_call_id_spec:
  "sanitize_call_id raw = takeWhile (\<lambda>c. c \<noteq> CHR ''@'') (trim_space raw) \<and>
   CHR ''@'' \<notin> set (sanitize_call_id raw)"
proof
  show "sanitize_call_id raw = takeWhile (\<lambda>c. c \<noteq> CHR ''@'') (trim_space raw)"
    by (auto simp: sanitize_call_id_def Let_def takeWhile_id take_index_byte split: option.splits)
qed (rule sanitize_call_id_no_at)

text \<open>
  The country flag panics on exactly the two inputs whose upper case is one byte long, the
  dotless i and the long s; every other string gives a flag or the empty placeholder.
\<close>

theorem flag_emoji_panics_iff:
  "flag_emoji cc = None \<longleftrightarrow> cc = [CHR 0xC4, CHR 0xB1] \<or> cc = [CHR 0xC5, CHR 0xBF]"
proof (cases "length cc = 2")
  case True
  then obtain a b where cc: "cc = [a, b]" by (auto simp: length_Suc_conv numeral_2_eq_2)
  show ?thesis unfolding cc by (auto simp: flag_emoji_def Let_def)
next
  case False
  then show ?thesis by (auto simp: flag_emoji_def)
qed

subsection \<open>Properties of the anniversary\<close>

text \<open>
  C17: the next billing date is the first midnight strictly after the given instant that
  falls on the (clamped) anniversary day: no due date is ever skipped or repeated.
\<close>

theorem next_anniversary_least:
  assumes "valid_time t"
  shows "t < next_anniversary t day \<and> t_day (next_anniversary t day) = clamp_day day \<and>
         t_nanos (next_anniversary t day) = 0 \<and> valid_time (next_anniversary t day) \<and>
         (\<forall>u. valid_time u \<and> t_day u = clamp_day day \<and> t_nanos u = 0 \<and> t < u
              \<longrightarrow> next_anniversary t day \<le> u)"
proof -
  have c: "1 \<le> clamp_day day" "clamp_day day \<le> 28" by (simp_all add: clamp_day_def Let_def)
  obtain y m d n where t: "t = UTC y m d n" by (cases t)
  have dm: "m div 12 = (if m = 12 then 1 else 0)" "m mod 12 = (if m = 12 then 0 else m)"
    using assms unfolding t by auto
  show ?thesis
    using assms c unfolding t next_anniversary_def Let_def
    by (auto simp: not_less dm elim!: valid_time.elims)
qed

theorem next_anniversary_least_witness:
  "next_anniversary (UTC 2026 12 28 0) 31 = UTC 2027 1 28 0 \<and>
   UTC 2026 12 28 0 < next_anniversary (UTC 2026 12 28 0) 31"
  using next_anniversary_least [of "UTC 2026 12 28 0" 31]
  by (simp add: next_anniversary_def clamp_day_def)

end
