(* ===== verification/Sql_Table.thy ===== *)
theory Sql_Table
  imports Prelude
begin

text \<open>
  A Postgres table as the program's statements see it: its rows in insertion order, each
  under its primary key. \<open>tbl_get\<close> is \<open>SELECT .. WHERE id = k\<close>, \<open>tbl_upd_where\<close> is
  \<open>UPDATE .. WHERE P\<close>, \<open>affected\<close> is the \<open>RowsAffected\<close> of such a statement, \<open>tbl_upd\<close> is
  the update of one key, \<open>tbl_insert\<close> appends under a fresh key of the \<open>BIGSERIAL\<close>. The
  locale \<open>row_store\<close> is the contract the components use; tables implement it.
\<close>

type_synonym 'r table = "(db_id \<times> 'r) list"

definition tbl_get :: "'r table \<Rightarrow> db_id \<Rightarrow> 'r option" where
  "tbl_get t k = map_of t k"

definition tbl_upd_where :: "(db_id \<Rightarrow> 'r \<Rightarrow> bool) \<Rightarrow> ('r \<Rightarrow> 'r) \<Rightarrow> 'r table \<Rightarrow> 'r table" where
  "tbl_upd_where P f t = map (\<lambda>(k, r). (k, if P k r then f r else r)) t"

definition affected :: "(db_id \<Rightarrow> 'r \<Rightarrow> bool) \<Rightarrow> 'r table \<Rightarrow> nat" where
  "affected P t = length (filter (\<lambda>(k, r). P k r) t)"

definition tbl_upd :: "db_id \<Rightarrow> ('r \<Rightarrow> 'r) \<Rightarrow> 'r table \<Rightarrow> 'r table" where
  "tbl_upd k f t = tbl_upd_where (\<lambda>j _. j = k) f t"

definition tbl_ids :: "'r table \<Rightarrow> db_id list" where
  "tbl_ids t = map fst t"

definition next_id :: "'r table \<Rightarrow> db_id" where
  "next_id t = fold max (tbl_ids t) 0 + 1"

definition tbl_insert :: "'r \<Rightarrow> 'r table \<Rightarrow> 'r table" where
  "tbl_insert r t = t @ [(next_id t, r)]"

definition tbl_find :: "(db_id \<Rightarrow> 'r \<Rightarrow> bool) \<Rightarrow> 'r table \<Rightarrow> (db_id \<times> 'r) option" where
  "tbl_find P t = List.find (\<lambda>(k, r). P k r) t"

lemma tbl_get_upd_where [simp]:
  "tbl_get (tbl_upd_where P f t) k = map_option (\<lambda>r. if P k r then f r else r) (tbl_get t k)"
  unfolding tbl_get_def tbl_upd_where_def by (induction t) auto

lemma tbl_get_upd [simp]:
  "tbl_get (tbl_upd j f t) k = (if k = j then map_option f (tbl_get t k) else tbl_get t k)"
  by (cases "tbl_get t k") (auto simp: tbl_upd_def)

lemma tbl_ids_upd_where [simp]: "tbl_ids (tbl_upd_where P f t) = tbl_ids t"
  unfolding tbl_ids_def tbl_upd_where_def by (induction t) auto

lemma tbl_ids_upd [simp]: "tbl_ids (tbl_upd k f t) = tbl_ids t"
  by (simp add: tbl_upd_def)

lemma tbl_get_None: "tbl_get t k = None \<longleftrightarrow> k \<notin> set (tbl_ids t)"
  by (auto simp: tbl_get_def tbl_ids_def map_of_eq_None_iff)

lemma fold_max_ge: "(a :: db_id) \<le> fold max xs a \<and> (\<forall>x \<in> set xs. x \<le> fold max xs a)"
proof (induction xs arbitrary: a)
  case (Cons x xs)
  from Cons [of "max x a"] show ?case by auto
qed simp

lemma next_id_fresh: "k \<in> set (tbl_ids t) \<Longrightarrow> k < next_id t"
  using fold_max_ge [of 0 "tbl_ids t"] by (force simp: next_id_def)

lemma next_id_pos: "0 < next_id t"
  using fold_max_ge [of 0 "tbl_ids t"] by (simp add: next_id_def)

lemma tbl_get_insert:
  "tbl_get (tbl_insert r t) k = (if k = next_id t then Some r else tbl_get t k)"
proof -
  have "tbl_get t (next_id t) = None"
    using next_id_fresh [of "next_id t" t] by (auto simp: tbl_get_None)
  then show ?thesis
    by (auto simp: tbl_insert_def tbl_get_def map_add_def split: option.splits)
qed

lemma tbl_find_Some: "tbl_find P t = Some (k, r) \<Longrightarrow> (k, r) \<in> set t \<and> P k r"
  unfolding tbl_find_def by (induction t) (auto split: if_splits)

lemma tbl_find_None: "tbl_find P t = None \<longleftrightarrow> (\<forall>(k, r) \<in> set t. \<not> P k r)"
  unfolding tbl_find_def by (induction t) auto

lemma tbl_get_in: "tbl_get t k = Some r \<Longrightarrow> (k, r) \<in> set t"
  by (simp add: tbl_get_def map_of_SomeD)

lemma tbl_in_get: "distinct (tbl_ids t) \<Longrightarrow> (k, r) \<in> set t \<Longrightarrow> tbl_get t k = Some r"
  by (simp add: tbl_get_def tbl_ids_def)

lemma unique_id: "distinct (tbl_ids t) \<Longrightarrow> (k, r) \<in> set t \<Longrightarrow> tbl_get t k = Some s \<Longrightarrow> r = s"
  using tbl_in_get by fastforce

lemma tbl_ids_insert [simp]: "tbl_ids (tbl_insert r t) = tbl_ids t @ [next_id t]"
  by (simp add: tbl_insert_def tbl_ids_def)

lemma next_id_notin [simp]: "next_id t \<notin> set (tbl_ids t)"
  using next_id_fresh [of "next_id t" t] by auto

lemma tbl_upd_split:
  assumes "distinct (tbl_ids t)" "tbl_get t k = Some r"
  obtains xs ys where "t = xs @ (k, r) # ys" "\<And>f. tbl_upd k f t = xs @ (k, f r) # ys"
proof -
  obtain xs ys where t: "t = xs @ (k, r) # ys" using tbl_get_in [OF assms(2)] by (auto simp: in_set_conv_decomp)
  have "k \<notin> fst ` set xs" "k \<notin> fst ` set ys" using assms(1) by (auto simp: t tbl_ids_def)
  moreover have "tbl_upd k f zs = zs" if "k \<notin> fst ` set zs" for f and zs :: "'a table"
    using that unfolding tbl_upd_def tbl_upd_where_def by (induction zs) auto
  ultimately have "tbl_upd k f t = xs @ (k, f r) # ys" for f
    by (simp add: t tbl_upd_def tbl_upd_where_def)
  with t that show thesis by blast
qed

lemma affected_0: "affected P t = 0 \<longleftrightarrow> (\<forall>(k, r) \<in> set t. \<not> P k r)"
  by (auto simp: affected_def filter_empty_conv)

subsection \<open>The contract of a row store\<close>

locale row_store =
  fixes get :: "'t \<Rightarrow> db_id \<Rightarrow> 'r option"
    and upd :: "db_id \<Rightarrow> ('r \<Rightarrow> 'r) \<Rightarrow> 't \<Rightarrow> 't"
  assumes get_upd: "get (upd j f t) k = (if k = j then map_option f (get t k) else get t k)"
begin

lemma upd_keeps_missing: "get t k = None \<Longrightarrow> get (upd j f t) k = None"
  by (cases "k = j") (simp_all add: get_upd)

lemma upd_frame: "k \<noteq> j \<Longrightarrow> get (upd j f t) k = get t k"
  by (simp add: get_upd)

lemma upd_field:
  assumes "\<And>r. g (f r) = g r"
  shows "map_option g (get (upd j f t) k) = map_option g (get t k)"
  using assms by (cases "get t k") (auto simp: get_upd)

lemma upd_fold_frame:
  "k \<notin> set js \<Longrightarrow> get (fold (\<lambda>j. upd j (f j)) js t) k = get t k"
  by (induction js arbitrary: t) (auto simp: get_upd)

end

interpretation tbl: row_store tbl_get tbl_upd
  by unfold_locales simp

end
