(* ===== verification/Go_Net.thy ===== *)
theory Go_Net
  imports Go_Strings
begin

text \<open>
  The part of Go's \<open>net\<close> package the control plane uses: \<open>net.ParseIP\<close>, \<open>IP.String\<close> and
  \<open>IP.Equal\<close>, and Postgres' containment test \<open>cidr >>= inet\<close>. An address is its sixteen
  bytes, an IPv4 address in the mapped form \<open>::ffff:a.b.c.d\<close> (so \<open>IP.Equal\<close> is equality).
\<close>

type_synonym ip = "nat list"

definition v4 :: "nat list \<Rightarrow> ip" where
  "v4 octets = replicate 10 0 @ [255, 255] @ octets"

definition is_v4 :: "ip \<Rightarrow> bool" where
  "is_v4 a \<longleftrightarrow> take 12 a = v4 []"

subsection \<open>Parsing\<close>

definition octet :: "string \<Rightarrow> nat option" where
  "octet s =
     (if s = [] \<or> \<not> list_all is_digit s \<or> (1 < length s \<and> hd s = CHR ''0'') \<or> 255 < digits_val s
      then None else Some (digits_val s))"

definition parse_ipv4 :: "string \<Rightarrow> nat list option" where
  "parse_ipv4 s =
     (let fs = split_byte (CHR ''.'') s in if length fs = 4 then those (map octet fs) else None)"

definition is_hex :: "char \<Rightarrow> bool" where
  "is_hex c \<longleftrightarrow> is_digit c \<or> (97 \<le> byte_val c \<and> byte_val c \<le> 102) \<or> (65 \<le> byte_val c \<and> byte_val c \<le> 70)"

definition hex_digit_val :: "char \<Rightarrow> nat" where
  "hex_digit_val c =
     (if is_digit c then byte_val c - 48 else if 97 \<le> byte_val c then byte_val c - 87 else byte_val c - 55)"

definition hex_val :: "string \<Rightarrow> nat" where
  "hex_val s = foldl (\<lambda>n c. n * 16 + hex_digit_val c) 0 s"

text \<open>
  The loop over the colon-separated groups: the bytes so far, the position of the ellipsis
  and, at the end, the text that was not consumed.
\<close>

function parse_groups :: "string \<Rightarrow> nat list \<Rightarrow> nat option \<Rightarrow> (nat list \<times> nat option \<times> string) option" where
  "parse_groups s acc ell =
     (if 16 \<le> length acc then Some (acc, ell, s)
      else let h = takeWhile is_hex s; rest = drop (length h) s in
        if h = [] \<or> 4 < length h then None
        else if has_prefix rest ''.'' then
          (if ell = None \<and> length acc \<noteq> 12 \<or> 16 < length acc + 4 then None
           else map_option (\<lambda>b. (acc @ b, ell, [])) (parse_ipv4 s))
        else let acc' = acc @ [hex_val h div 256, hex_val h mod 256] in
          if rest = [] then Some (acc', ell, [])
          else if hd rest \<noteq> CHR '':'' \<or> length rest = 1 then None
          else if has_prefix rest ''::'' then
            (if ell \<noteq> None then None
             else if length rest = 2 then Some (acc', Some (length acc'), [])
             else parse_groups (drop 2 rest) acc' (Some (length acc')))
          else parse_groups (tl rest) acc' ell)"
  by pat_completeness auto
termination
  by (relation "measure (\<lambda>(s, _, _). length s)") auto

declare parse_groups.simps [simp del]

definition parse_ipv6 :: "string \<Rightarrow> ip option" where
  "parse_ipv6 s =
     (let lead = has_prefix s ''::''; s' = (if lead then drop 2 s else s) in
      if lead \<and> s' = [] then Some (replicate 16 0)
      else case parse_groups s' [] (if lead then Some 0 else None) of
        None \<Rightarrow> None
      | Some (b, ell, rest) \<Rightarrow>
          if rest \<noteq> [] then None
          else if length b < 16
          then map_option (\<lambda>k. take k b @ replicate (16 - length b) 0 @ drop k b) ell
          else if ell \<noteq> None then None else Some b)"

definition parse_ip :: "string \<Rightarrow> ip option" where
  "parse_ip s =
     (case dropWhile (\<lambda>c. c \<notin> {CHR ''.'', CHR '':'', CHR ''%''}) s of
        [] \<Rightarrow> None
      | c # _ \<Rightarrow> if c = CHR ''.'' then map_option v4 (parse_ipv4 s)
                 else if c = CHR '':'' then parse_ipv6 s else None)"

subsection \<open>Printing\<close>

fun hex_digits :: "nat \<Rightarrow> string" where
  "hex_digits n =
     (let d = (if n mod 16 < 10 then char_of (48 + n mod 16) else char_of (87 + n mod 16))
      in if n < 16 then [d] else hex_digits (n div 16) @ [d])"

declare hex_digits.simps [simp del]

fun groups16 :: "nat list \<Rightarrow> nat list" where
  "groups16 (a # b # bs) = (a * 256 + b) # groups16 bs"
| "groups16 _ = []"

definition zero_run :: "nat list \<Rightarrow> nat \<Rightarrow> nat" where
  "zero_run gs i = length (takeWhile (\<lambda>g. g = 0) (drop i gs))"

text \<open>The first longest run of at least two zero groups, as start and length.\<close>

definition best_run :: "nat list \<Rightarrow> nat \<times> nat" where
  "best_run gs =
     foldl (\<lambda>(s, l) i. let r = zero_run gs i in if 2 \<le> r \<and> l < r then (i, r) else (s, l)) (0, 0) [0..<length gs]"

definition ip_string :: "ip \<Rightarrow> string" where
  "ip_string a =
     (if is_v4 a then str_join (map nat_digits (drop 12 a)) ''.''
      else let gs = groups16 a; (s, l) = best_run gs in
        if l = 0 then str_join (map hex_digits gs) '':''
        else str_join (map hex_digits (take s gs)) '':'' @ ''::'' @
             str_join (map hex_digits (drop (s + l) gs)) '':'')"

subsection \<open>Networks\<close>

record cidr =
  net_addr :: ip
  net_len :: nat

definition byte_bits :: "nat \<Rightarrow> bool list" where
  "byte_bits b = map (\<lambda>i. b div 2 ^ (7 - i) mod 2 = 1) [0..<8]"

definition ip_bits :: "ip \<Rightarrow> bool list" where
  "ip_bits a = concat (map byte_bits (if is_v4 a then drop 12 a else a))"

text \<open>\<open>cidr >>= inet\<close>: the same family and the same first \<open>net_len\<close> bits.\<close>

definition cidr_contains :: "cidr \<Rightarrow> ip \<Rightarrow> bool" where
  "cidr_contains c a \<longleftrightarrow>
     is_v4 (net_addr c) = is_v4 a \<and> take (net_len c) (ip_bits (net_addr c)) = take (net_len c) (ip_bits a)"

subsection \<open>An IPv4 address survives printing and parsing\<close>

lemma split_byte_no: "b \<notin> set s \<Longrightarrow> split_byte b s = [s]"
  by (induction s) auto

lemma split_byte_app: "b \<notin> set s \<Longrightarrow> split_byte b (s @ b # t) = s # split_byte b t"
  by (induction s) auto

lemma octet_digits: "n < 256 \<Longrightarrow> octet (nat_digits n) = Some n"
proof -
  assume n: "n < 256"
  have "\<not> (1 < length (nat_digits n) \<and> hd (nat_digits n) = CHR ''0'')"
  proof (induction n rule: nat_digits.induct)
    case (1 n)
    show ?case
    proof (cases "n < 10")
      case True
      then show ?thesis by (simp add: nat_digits.simps)
    next
      case False
      have "hd (nat_digits n) = hd (nat_digits (n div 10))"
        using False by (subst nat_digits.simps) simp
      moreover have "hd (nat_digits m) \<noteq> CHR ''0''" if "0 < m" for m
        using that
      proof (induction m rule: nat_digits.induct)
        case (1 m)
        show ?case
        proof (cases "m < 10")
          case True
          with 1(2) have "byte_val (digit_char m) \<noteq> byte_val (CHR ''0'')"
            by (simp add: byte_val_digit_char) (simp add: byte_val_def)
          with True show ?thesis by (auto simp: nat_digits.simps)
        next
          case False
          with 1(1) show ?thesis by (subst nat_digits.simps) (auto simp: Let_def)
        qed
      qed
      ultimately show ?thesis using False by simp
    qed
  qed
  then show ?thesis using n nat_digits_is_digit by (auto simp: octet_def)
qed

lemma nat_digits_no_dot: "CHR ''.'' \<notin> set (nat_digits n)" "CHR '':'' \<notin> set (nat_digits n)"
  "CHR ''%'' \<notin> set (nat_digits n)"
proof -
  have "\<not> is_digit (CHR ''.'')" "\<not> is_digit (CHR '':'')" "\<not> is_digit (CHR ''%'')"
    by (simp_all add: is_digit_def byte_val_def)
  then show "CHR ''.'' \<notin> set (nat_digits n)" "CHR '':'' \<notin> set (nat_digits n)"
    "CHR ''%'' \<notin> set (nat_digits n)"
    using nat_digits_is_digit [of n] by (auto simp: list_all_iff)
qed

lemma dropWhile_skip: "(\<And>x. x \<in> set xs \<Longrightarrow> P x) \<Longrightarrow> \<not> P y \<Longrightarrow> dropWhile P (xs @ y # ys) = y # ys"
  by (induction xs) auto

lemma parse_ip_v4_string:
  assumes "length bs = 4" "\<And>b. b \<in> set bs \<Longrightarrow> b < 256"
  shows "parse_ip (ip_string (v4 bs)) = Some (v4 bs)"
proof -
  obtain a b c d where bs: "bs = [a, b, c, d]"
    using assms(1) by (auto simp: numeral_eq_Suc length_Suc_conv)
  let ?s = "nat_digits a @ CHR ''.'' # nat_digits b @ CHR ''.'' # nat_digits c @ CHR ''.'' # nat_digits d"
  have str: "ip_string (v4 bs) = ?s"
    by (simp add: bs ip_string_def is_v4_def v4_def)
  have sp: "split_byte (CHR ''.'') ?s = map nat_digits [a, b, c, d]"
    by (simp add: split_byte_app split_byte_no nat_digits_no_dot del: split_byte.simps)
  have four: "parse_ipv4 ?s = Some [a, b, c, d]"
    unfolding parse_ipv4_def sp using assms(2) by (simp add: bs octet_digits Let_def)
  have "dropWhile (\<lambda>c. c \<notin> {CHR ''.'', CHR '':'', CHR ''%''}) ?s =
      CHR ''.'' # nat_digits b @ CHR ''.'' # nat_digits c @ CHR ''.'' # nat_digits d"
    using nat_digits_no_dot [of a] by (intro dropWhile_skip) auto
  then show ?thesis unfolding str parse_ip_def using four by (simp add: bs)
qed

end
