(* ===== verification/Schema.thy ===== *)
theory Schema
  imports Domain Sql_Table Go_Net
begin

text \<open>
  The rows of the Postgres tables the modelled statements touch (\<open>migrations/*.up.sql\<close>),
  with the columns those statements read or write, and the database as one record of
  tables. \<open>NUMERIC\<close> rates are the float64 values the Go code scans them into; a nullable
  column is an option.
\<close>

record user_row =
  u_balance :: cents
  u_cap :: int
  u_status :: string
  u_reseller :: "db_id option"
  u_external :: "string option"
  u_label :: "string option"
  u_contact :: "string option"

record rate_row =
  r_supplier :: db_id
  r_country :: string
  r_type :: string
  r_valid_from :: unix_time
  r_valid_to :: "unix_time option"
  r_nrc :: int
  r_mrc :: int
  r_channel_monthly :: int
  r_per_minute :: rat
  r_bill_min :: int
  r_bill_inc :: int
  r_sup_per_minute :: rat
  r_sup_bill_min :: int
  r_sup_nrc :: int
  r_sup_mrc :: int
  r_sup_bill_inc :: int

datatype did_status = DidAvailable | DidAssigned | DidRetired | DidReserved

record did_row =
  d_e164 :: string
  d_supplier :: db_id
  d_country :: string
  d_type :: string
  d_cap :: int
  d_status :: did_status
  d_res_kind :: "route_kind option"
  d_res_target :: "string option"
  d_res_group :: "db_id option"
  d_res_file :: "db_id option"
  d_res_note :: "string option"
  d_res_at :: "unix_time option"
  d_res_by :: "db_id option"

record resv_row =
  rv_did :: db_id
  rv_kind :: "route_kind option"
  rv_target :: "string option"
  rv_note :: "string option"
  rv_at :: unix_time
  rv_by :: "db_id option"
  rv_released_by :: "db_id option"

record order_row =
  o_did :: db_id
  o_user :: db_id
  o_pop :: "db_id option"
  o_channels :: int
  o_kind :: route_kind
  o_target :: string
  o_rate_card :: db_id
  o_status :: order_status
  o_anniversary :: int
  o_next_billing :: utc_time
  o_ended :: "utc_time option"
  o_kyc :: "db_id option"
  o_group :: "db_id option"
  o_pre_kind :: "route_kind option"
  o_pre_target :: "string option"

record ledger_row =
  l_user :: db_id
  l_delta :: cents
  l_kind :: ledger_kind
  l_ref_table :: string
  l_ref_id :: "db_id option"
  l_after :: cents

datatype bill_outcome = BillNone | BillCharged | BillDowngraded | BillCancelled

record billing_run_row =
  br_order :: db_id
  br_channels :: int
  br_mrc :: cents
  br_channel_fee :: cents
  br_outcome :: bill_outcome
  br_notes :: string

record cdr_row =
  c_call_id :: string
  c_order :: "db_id option"
  c_user :: "db_id option"
  c_supplier :: db_id
  c_did :: "db_id option"
  c_pop :: "db_id option"
  c_routed_kind :: "route_kind option"
  c_routed_target :: "string option"
  c_started :: unix_time
  c_answered :: "unix_time option"
  c_ended :: "unix_time option"
  c_billsec :: int
  c_minutes :: int
  c_rate :: rat
  c_charge :: cents
  c_bill_min :: "int option"
  c_bill_inc :: "int option"
  c_sup_charge :: "cents option"
  c_sup_bill_min :: "int option"
  c_sup_bill_inc :: "int option"
  c_cause :: string
  c_src :: string
  c_dst :: string
  c_admin_action :: "string option"
  c_admin_by :: "db_id option"
  c_admin_reason :: "string option"

record denied_row =
  dn_call_id :: string
  dn_src_ip :: string
  dn_to :: string
  dn_from :: string
  dn_reason :: string

text \<open>
  A row of \<open>supplier_ip_group_members\<close> joined with its group: the supplier it belongs to
  and what it matches (the check constraint allows exactly one of the two columns).
\<close>

datatype acl_match = AclCidr cidr | AclHost string

record acl_row =
  a_supplier :: db_id
  a_match :: acl_match

record audio_file_row =
  f_filename :: string
  f_name :: string

record audio_member_row =
  m_group :: db_id
  m_file :: db_id
  m_position :: int

datatype kyc_status = KycPending | KycApproved | KycRejected

record kyc_row =
  k_user :: db_id
  k_type :: string
  k_status :: kyc_status
  k_approved_by :: "db_id option"
  k_approved_at :: "unix_time option"
  k_rejected_at :: "unix_time option"
  k_reason :: "string option"
  k_notes :: string

record sip_account_row =
  sa_user :: db_id
  sa_username :: string
  sa_realm :: string
  sa_ha1 :: string

record audio_group_row =
  ag_name :: string
  ag_note :: "string option"

record kyc_doc_row =
  kd_bundle :: db_id
  kd_kind :: string
  kd_filename :: string
  kd_mime :: string
  kd_size :: int
  kd_path :: string

record block_row =
  bl_user :: db_id
  bl_action :: string
  bl_reason :: string
  bl_bundle :: "db_id option"
  bl_by :: "db_id option"
  bl_order :: "db_id option"
  bl_details :: "string option"

record reseller_row =
  rs_name :: string
  rs_brand :: "string option"
  rs_host :: "string option"
  rs_status :: string

record api_key_row =
  ak_reseller :: "db_id option"
  ak_name :: string
  ak_hash :: string
  ak_revoked :: bool

record db =
  users :: "user_row table"
  rate_cards :: "rate_row table"
  dids :: "did_row table"
  orders :: "order_row table"
  ledger :: "ledger_row list"
  billing_runs :: "billing_run_row list"
  cdrs :: "cdr_row table"
  denied_calls :: "denied_row list"
  acl :: "acl_row list"
  audio_files :: "audio_file_row table"
  audio_members :: "audio_member_row list"
  kyc_bundles :: "kyc_row table"
  kyc_docs :: "kyc_doc_row table"
  block_log :: "block_row table"
  sip_accounts :: "sip_account_row table"
  audio_groups :: "audio_group_row table"
  res_history :: "resv_row list"
  resellers :: "reseller_row table"
  api_keys :: "api_key_row table"

definition empty_db :: db where
  "empty_db = \<lparr>users = [], rate_cards = [], dids = [], orders = [], ledger = [],
     billing_runs = [], cdrs = [], denied_calls = [], acl = [], audio_files = [],
     audio_members = [], kyc_bundles = [], kyc_docs = [], block_log = [],
     sip_accounts = [], audio_groups = [], res_history = [], resellers = [], api_keys = []\<rparr>"

text \<open>Rows with the columns that carry money and limits, and nothing else set.\<close>

definition plain_user :: "cents \<Rightarrow> int \<Rightarrow> string \<Rightarrow> user_row" where
  "plain_user b c st = \<lparr>u_balance = b, u_cap = c, u_status = st, u_reseller = None, u_external = None,
     u_label = None, u_contact = None\<rparr>"

definition plain_rate :: "int \<Rightarrow> int \<Rightarrow> int \<Rightarrow> rat \<Rightarrow> int \<Rightarrow> int \<Rightarrow> rat \<Rightarrow> int \<Rightarrow> int \<Rightarrow> rate_row" where
  "plain_rate nrc mrc ch pm bmin binc spm smin sinc =
     \<lparr>r_supplier = 1, r_country = ''GB'', r_type = ''national'', r_valid_from = 0, r_valid_to = None,
      r_nrc = nrc, r_mrc = mrc, r_channel_monthly = ch, r_per_minute = pm, r_bill_min = bmin, r_bill_inc = binc,
      r_sup_per_minute = spm, r_sup_bill_min = smin, r_sup_nrc = 0, r_sup_mrc = 0, r_sup_bill_inc = sinc\<rparr>"

lemma plain_user_sel [simp]:
  "u_balance (plain_user b c st) = b" "u_cap (plain_user b c st) = c" "u_status (plain_user b c st) = st"
  by (simp_all add: plain_user_def)

lemma plain_rate_sel [simp]:
  "r_nrc (plain_rate n m ch pm a i spm sa si) = n" "r_mrc (plain_rate n m ch pm a i spm sa si) = m"
  "r_channel_monthly (plain_rate n m ch pm a i spm sa si) = ch" "r_per_minute (plain_rate n m ch pm a i spm sa si) = pm"
  "r_bill_min (plain_rate n m ch pm a i spm sa si) = a" "r_bill_inc (plain_rate n m ch pm a i spm sa si) = i"
  "r_sup_per_minute (plain_rate n m ch pm a i spm sa si) = spm" "r_sup_bill_min (plain_rate n m ch pm a i spm sa si) = sa"
  "r_sup_bill_inc (plain_rate n m ch pm a i spm sa si) = si"
  by (simp_all add: plain_rate_def)

text \<open>
  The partial unique index \<open>orders_one_active_per_did\<close>: a statement that would leave two
  active orders on one number fails.
\<close>

definition int4_max :: int where "int4_max = 2147483647"

definition one_active_per_did :: "order_row table \<Rightarrow> bool" where
  "one_active_per_did t \<longleftrightarrow> distinct (map (\<lambda>(k, r). o_did r) (filter (\<lambda>(k, r). o_status r = OrdActive) t))"

subsection \<open>Enumeration casts\<close>

text \<open>\<open>$1::route_kind\<close>: the labels of the enum, anything else is an error.\<close>

definition route_kind_of :: "string \<Rightarrow> route_kind option" where
  "route_kind_of s =
     List.find (\<lambda>k. route_kind_text k = s)
       [RouteSIPAccount, RouteSIPURI, RouteIP, RouteAudio, RouteAudioGroup]"

lemma route_kind_of_text [simp]: "route_kind_of (route_kind_text k) = Some k"
  by (cases k) (simp_all add: route_kind_of_def)

lemma route_kind_of_Some: "route_kind_of s = Some k \<Longrightarrow> route_kind_text k = s"
  unfolding route_kind_of_def by (auto split: if_splits)

lemma route_kind_text_inj [simp]: "route_kind_text j = route_kind_text k \<longleftrightarrow> j = k"
  by (metis option.inject route_kind_of_text)

subsection \<open>The ledger and the balance it projects to\<close>

text \<open>The money a user has been credited and debited through the append-only ledger.\<close>

definition posted :: "db \<Rightarrow> db_id \<Rightarrow> cents" where
  "posted d u = sum_list (map l_delta (filter (\<lambda>l. l_user l = u) (ledger d)))"

definition balance :: "db \<Rightarrow> db_id \<Rightarrow> cents option" where
  "balance d u = map_option u_balance (tbl_get (users d) u)"

definition add_ledger :: "ledger_row \<Rightarrow> db \<Rightarrow> db" where
  "add_ledger l d = d\<lparr>ledger := ledger d @ [l]\<rparr>"

lemma posted_add_ledger [simp]:
  "posted (add_ledger l d) u = posted d u + (if l_user l = u then l_delta l else 0)"
  by (simp add: posted_def add_ledger_def)

lemma balance_add_ledger [simp]: "balance (add_ledger l d) u = balance d u"
  by (simp add: balance_def add_ledger_def)

lemma add_ledger_sel [simp]:
  "users (add_ledger l d) = users d" "orders (add_ledger l d) = orders d"
  "rate_cards (add_ledger l d) = rate_cards d" "cdrs (add_ledger l d) = cdrs d"
  "ledger (add_ledger l d) = ledger d @ [l]" "billing_runs (add_ledger l d) = billing_runs d"
  "dids (add_ledger l d) = dids d" "denied_calls (add_ledger l d) = denied_calls d"
  by (simp_all add: add_ledger_def)

lemma posted_cong: "ledger d = ledger e \<Longrightarrow> posted d = posted e"
  by (simp add: posted_def fun_eq_iff)

lemma balance_cong: "users d = users e \<Longrightarrow> balance d = balance e"
  by (simp add: balance_def fun_eq_iff)

text \<open>An operation conserves money when every balance moves by exactly what it posts.\<close>

definition conserves :: "db \<Rightarrow> db \<Rightarrow> bool" where
  "conserves d e \<longleftrightarrow>
     (\<forall>u. balance e u = map_option (\<lambda>b. b + (posted e u - posted d u)) (balance d u))"

lemma conserves_refl [simp]: "conserves d d"
  by (simp add: conserves_def option.map_ident)

lemma conserves_trans: "conserves d e \<Longrightarrow> conserves e f \<Longrightarrow> conserves d f"
  unfolding conserves_def by (auto simp: option.map_comp comp_def intro!: option.map_cong)

lemma conserves_frame:
  "users e = users d \<Longrightarrow> ledger e = ledger d \<Longrightarrow> conserves d e"
  by (simp add: conserves_def balance_cong [of e d] posted_cong [of e d] option.map_ident)

end
