(* ===== verification/Redis_Store.thy ===== *)
theory Redis_Store
  imports Complex_Main Go_Strings
begin

text \<open>
  The Redis keyspace as the program uses it, with the documented semantics of the commands
  it issues. Keys live under four disjoint prefixes, so each prefix is its own map here:
  \<open>act:*\<close> (SETs of Call-IDs, whole keys), \<open>live:active\<close> (a ZSET of Call-IDs scored by the
  start time), \<open>live:meta:*\<close>, \<open>pending:admin_action:*\<close> and \<open>audio_group_last:*\<close> (STRINGs
  with a TTL, keyed by what follows the prefix). An entry with a TTL is visible while the
  clock is before its expiry.
\<close>

text \<open>\<open>livecalls.ActiveCall\<close>, the value stored under \<open>live:meta:\<close>.\<close>

record active_call =
  ac_call_id :: string
  ac_full :: string
  ac_started :: unix_time
  ac_user :: db_id
  ac_order :: db_id
  ac_did :: db_id
  ac_supplier :: db_id
  ac_e164 :: string
  ac_src_ip :: string
  ac_src_uri :: string
  ac_kind :: string
  ac_target :: string
  ac_reserved :: bool
  ac_rate :: rat
  ac_channel :: string
  ac_last_action :: string

text \<open>A stored blob either decodes to a call or is not valid JSON for one.\<close>

datatype meta_blob = Blob active_call | BadBlob

record pending_action =
  pa_action :: string
  pa_admin :: db_id
  pa_reason :: string

datatype pending_blob = PendingBlob pending_action | BadPending

record redis =
  rd_sets :: "string \<Rightarrow> string set \<times> unix_time option"
  rd_active :: "(string \<times> int) list"
  rd_meta :: "string \<Rightarrow> (meta_blob \<times> unix_time) option"
  rd_pending :: "string \<Rightarrow> (pending_blob \<times> unix_time) option"
  rd_last :: "db_id \<Rightarrow> (db_id \<times> unix_time) option"

definition empty_redis :: redis where
  "empty_redis = \<lparr>rd_sets = (\<lambda>_. ({}, None)), rd_active = [], rd_meta = (\<lambda>_. None),
     rd_pending = (\<lambda>_. None), rd_last = (\<lambda>_. None)\<rparr>"

subsection \<open>Strings with a TTL\<close>

definition ttl_get :: "unix_time \<Rightarrow> ('k \<Rightarrow> ('v \<times> unix_time) option) \<Rightarrow> 'k \<Rightarrow> 'v option" where
  "ttl_get now m k = (case m k of None \<Rightarrow> None | Some (v, e) \<Rightarrow> if now < e then Some v else None)"

definition ttl_set :: "'k \<Rightarrow> 'v \<Rightarrow> unix_time \<Rightarrow> ('k \<Rightarrow> ('v \<times> unix_time) option)
    \<Rightarrow> ('k \<Rightarrow> ('v \<times> unix_time) option)" where
  "ttl_set k v e m = m(k \<mapsto> (v, e))"

definition ttl_del :: "'k \<Rightarrow> ('k \<Rightarrow> ('v \<times> unix_time) option) \<Rightarrow> ('k \<Rightarrow> ('v \<times> unix_time) option)" where
  "ttl_del k m = m(k := None)"

text \<open>The contract of a store of expiring values; a later component relies on these laws only.\<close>

locale ttl_store =
  fixes get :: "unix_time \<Rightarrow> 'm \<Rightarrow> 'k \<Rightarrow> 'v option"
    and put :: "'k \<Rightarrow> 'v \<Rightarrow> unix_time \<Rightarrow> 'm \<Rightarrow> 'm"
    and del :: "'k \<Rightarrow> 'm \<Rightarrow> 'm"
  assumes get_put: "get now (put k v e m) j = (if j = k then (if now < e then Some v else None) else get now m j)"
    and get_del: "get now (del k m) j = (if j = k then None else get now m j)"
begin

lemma get_put_fresh: "now < e \<Longrightarrow> get now (put k v e m) k = Some v"
  by (simp add: get_put)

lemma get_put_expired: "e \<le> now \<Longrightarrow> get now (put k v e m) k = None"
  by (simp add: get_put)

lemma put_overwrites: "get now (put k v e (put k w f m)) = get now (put k v e m)"
  by (auto simp: get_put)

lemma take_once: "get now (del k (del k m)) k = None \<and> get now (del k m) k = None"
  by (simp add: get_del)

end

interpretation ttl: ttl_store ttl_get ttl_set ttl_del
  by unfold_locales (simp_all add: ttl_get_def ttl_set_def ttl_del_def)

lemmas ttl_simps [simp] = ttl.get_put ttl.get_del

subsection \<open>Sorted sets\<close>

definition zset_rem :: "string list \<Rightarrow> (string \<times> int) list \<Rightarrow> (string \<times> int) list" where
  "zset_rem ms z = filter (\<lambda>(m, _). m \<notin> set ms) z"

definition zset_add :: "string \<Rightarrow> int \<Rightarrow> (string \<times> int) list \<Rightarrow> (string \<times> int) list" where
  "zset_add m s z = zset_rem [m] z @ [(m, s)]"

text \<open>\<open>ZREVRANGE key 0 stop\<close>: highest score first, ties in reverse lexicographic order.\<close>

definition zset_rev_range :: "nat \<Rightarrow> (string \<times> int) list \<Rightarrow> (string \<times> int) list" where
  "zset_rev_range stop z = take (stop + 1) (rev (sort_key snd (sort_key fst z)))"

lemma set_zset_rem [simp]: "set (zset_rem ms z) = {(m, s) \<in> set z. m \<notin> set ms}"
  by (auto simp: zset_rem_def)

lemma set_zset_add [simp]: "set (zset_add m s z) = insert (m, s) {(n, t) \<in> set z. n \<noteq> m}"
  by (auto simp: zset_add_def)

lemma zset_members_rem: "fst ` set (zset_rem ms z) = fst ` set z - set ms"
  by (force simp: zset_rem_def)

lemma zset_members_add: "fst ` set (zset_add m s z) = insert m (fst ` set z)"
  by force

lemma zset_rem_distinct: "distinct (map fst z) \<Longrightarrow> distinct (map fst (zset_rem ms z))"
  unfolding zset_rem_def by (rule distinct_map_filter)

lemma zset_add_distinct: "distinct (map fst z) \<Longrightarrow> distinct (map fst (zset_add m s z))"
  using zset_rem_distinct [of z "[m]"] by (auto simp: zset_add_def zset_rem_def)

lemma zset_rev_range_subset: "set (zset_rev_range n z) \<subseteq> set z"
  unfolding zset_rev_range_def by (metis set_rev set_sort set_take_subset)

lemma zset_rev_range_all: "length z \<le> n + 1 \<Longrightarrow> set (zset_rev_range n z) = set z"
  by (simp add: zset_rev_range_def)

subsection \<open>Sets of Call-IDs with a TTL\<close>

definition set_members :: "unix_time \<Rightarrow> redis \<Rightarrow> string \<Rightarrow> string set" where
  "set_members now r k =
     (case rd_sets r k of (s, None) \<Rightarrow> s | (s, Some e) \<Rightarrow> if now < e then s else {})"

definition set_add :: "unix_time \<Rightarrow> string \<Rightarrow> string \<Rightarrow> redis \<Rightarrow> redis" where
  "set_add now k m r =
     r\<lparr>rd_sets := (rd_sets r)(k := (insert m (set_members now r k),
         case rd_sets r k of (_, None) \<Rightarrow> None | (_, Some e) \<Rightarrow> if now < e then Some e else None))\<rparr>"

definition set_expire :: "unix_time \<Rightarrow> string \<Rightarrow> unix_time \<Rightarrow> redis \<Rightarrow> redis" where
  "set_expire now k ttl r =
     r\<lparr>rd_sets := (rd_sets r)(k := (set_members now r k, Some (now + ttl)))\<rparr>"

definition set_rem :: "unix_time \<Rightarrow> string \<Rightarrow> string \<Rightarrow> redis \<Rightarrow> redis" where
  "set_rem now k m r =
     r\<lparr>rd_sets := (rd_sets r)(k := (set_members now r k - {m},
         case rd_sets r k of (_, None) \<Rightarrow> None | (_, Some e) \<Rightarrow> if now < e then Some e else None))\<rparr>"

lemma members_add [simp]:
  "set_members now (set_add now k m r) j =
     (if j = k then insert m (set_members now r k) else set_members now r j)"
  by (auto simp: set_members_def set_add_def split: prod.splits option.splits)

lemma members_expire [simp]:
  "0 < ttl \<Longrightarrow> set_members now (set_expire now k ttl r) j = set_members now r j"
  by (auto simp: set_members_def set_expire_def split: prod.splits option.splits)

lemma members_rem [simp]:
  "set_members now (set_rem now k m r) j =
     (if j = k then set_members now r k - {m} else set_members now r j)"
  by (auto simp: set_members_def set_rem_def split: prod.splits option.splits)

lemma members_later: "now \<le> now' \<Longrightarrow> set_members now' r k \<subseteq> set_members now r k"
  by (auto simp: set_members_def split: prod.splits option.splits if_splits)

lemma rem_later:
  "now \<le> now' \<Longrightarrow> set_members now' (set_rem now k m r) j \<subseteq> set_members now' r j"
  by (auto simp: set_members_def set_rem_def split: prod.splits option.splits if_splits)

lemma set_ops_frame [simp]:
  "rd_active (set_add now k m r) = rd_active r" "rd_meta (set_add now k m r) = rd_meta r"
  "rd_active (set_expire now k t r) = rd_active r" "rd_meta (set_expire now k t r) = rd_meta r"
  "rd_active (set_rem now k m r) = rd_active r" "rd_meta (set_rem now k m r) = rd_meta r"
  "rd_pending (set_add now k m r) = rd_pending r" "rd_pending (set_expire now k t r) = rd_pending r"
  "rd_pending (set_rem now k m r) = rd_pending r"
  "rd_last (set_add now k m r) = rd_last r" "rd_last (set_expire now k t r) = rd_last r"
  "rd_last (set_rem now k m r) = rd_last r"
  by (simp_all add: set_add_def set_expire_def set_rem_def)

end
