(* ===== verification/Audiogroup.thy ===== *)
theory Audiogroup
  imports Schema Redis_Store "HOL-Library.Signed_Division"
begin

text \<open>
  \<open>internal/audiogroup/audiogroup.go\<close>: which clip of a group the next call hears. The
  database join, the last-played key and the wall clock in nanoseconds are its inputs.
\<close>

definition last_played_ttl :: int where "last_played_ttl = 5 * 60"

record pick_faults =
  pf_query :: bool
  pf_get :: bool
  pf_set :: bool

text \<open>\<open>ORDER BY m.position, m.audio_file_id\<close>, each member with its file's name.\<close>

definition group_members :: "db_id \<Rightarrow> db \<Rightarrow> (db_id \<times> string) list" where
  "group_members g d =
     List.map_filter (\<lambda>m. map_option (\<lambda>f. (m_file m, f_filename f)) (tbl_get (audio_files d) (m_file m)))
       (sort_key m_position (sort_key m_file (filter (\<lambda>m. m_group m = g) (audio_members d))))"

text \<open>The members other than the last one played, unless that leaves nobody.\<close>

definition pick_candidates :: "db_id \<Rightarrow> (db_id \<times> string) list \<Rightarrow> (db_id \<times> string) list" where
  "pick_candidates last_id members =
     (if 0 < last_id
      then let filtered = filter (\<lambda>m. fst m \<noteq> last_id) members
           in if filtered \<noteq> [] then filtered else members
      else members)"

text \<open>\<open>int(time.Now().UnixNano()/1000) % len(candidates)\<close>, made non-negative.\<close>

definition pick_index :: "int \<Rightarrow> nat \<Rightarrow> nat" where
  "pick_index nanos n =
     (let idx = (nanos sdiv 1000) smod int n in nat (if idx < 0 then - idx else idx))"

definition pick_member ::
  "int \<Rightarrow> pick_faults \<Rightarrow> db_id \<Rightarrow> db \<Rightarrow> redis \<Rightarrow> string option \<times> redis" where
  "pick_member nanos f g d r =
     (if pf_query f then (None, r)
      else let members = group_members g d in
        if members = [] then (None, r)
        else if length members = 1 then (Some (snd (hd members)), r)
        else let now = nanos div 1000000000;
                 last_id = (if pf_get f then 0
                         else case ttl_get now (rd_last r) g of None \<Rightarrow> 0 | Some i \<Rightarrow> i);
                 candidates = pick_candidates last_id members;
                 picked = candidates ! pick_index nanos (length candidates);
                 r' = (if pf_set f then r
                       else r\<lparr>rd_last := ttl_set g (fst picked) (now + last_played_ttl) (rd_last r)\<rparr>)
             in (Some (snd picked), r'))"

lemma pick_index_less: "0 < n \<Longrightarrow> pick_index nanos n < n"
proof -
  assume n: "0 < n"
  have "\<bar>(nanos sdiv 1000) smod int n\<bar> < int n"
    using n by (simp add: signed_modulo_int_def signed_divide_int_def abs_mult abs_sgn_eq)
  then show ?thesis by (auto simp: pick_index_def Let_def)
qed

lemma pick_candidates_subset: "set (pick_candidates l ms) \<subseteq> set ms"
  by (auto simp: pick_candidates_def Let_def)

lemma pick_candidates_ne: "ms \<noteq> [] \<Longrightarrow> pick_candidates l ms \<noteq> []"
  by (auto simp: pick_candidates_def Let_def)

lemma pick_candidates_avoid:
  "0 < l \<Longrightarrow> \<exists>m \<in> set ms. fst m \<noteq> l \<Longrightarrow> m \<in> set (pick_candidates l ms) \<Longrightarrow> fst m \<noteq> l"
  by (auto simp: pick_candidates_def Let_def filter_empty_conv split: if_splits)

text \<open>The two shapes of a successful pick.\<close>

lemma pick_member_cases:
  assumes "pick_member nanos f g d r = (Some fn, r')"
  obtains (single) "length (group_members g d) = 1" "fn = snd (hd (group_members g d))" "r' = r"
  | (many) i where "1 < length (group_members g d)" "(i, fn) \<in> set (pick_candidates
        (if pf_get f then 0 else case ttl_get (nanos div 1000000000) (rd_last r) g of None \<Rightarrow> 0 | Some i \<Rightarrow> i)
        (group_members g d))"
      "r' = (if pf_set f then r
             else r\<lparr>rd_last := ttl_set g i (nanos div 1000000000 + last_played_ttl) (rd_last r)\<rparr>)"
proof -
  define l where "l = (if pf_get f then 0
    else case ttl_get (nanos div 1000000000) (rd_last r) g of None \<Rightarrow> 0 | Some i \<Rightarrow> i)"
  define c where "c = pick_candidates l (group_members g d)"
  show ?thesis
  proof (cases "length (group_members g d) = 1")
    case True
    with assms that(1) show ?thesis by (auto simp: pick_member_def Let_def split: if_splits)
  next
    case False
    have ne: "group_members g d \<noteq> []" using assms by (auto simp: pick_member_def split: if_splits)
    let ?p = "c ! pick_index nanos (length c)"
    have "c \<noteq> []" unfolding c_def using ne by (rule pick_candidates_ne)
    then have p: "?p \<in> set c" by (simp add: pick_index_less)
    have "fn = snd ?p" "r' = (if pf_set f then r
        else r\<lparr>rd_last := ttl_set g (fst ?p) (nanos div 1000000000 + last_played_ttl) (rd_last r)\<rparr>)"
      using assms False ne unfolding c_def l_def pick_member_def Let_def by (auto split: if_splits)
    moreover have "1 < length (group_members g d)"
      using ne False by (cases "length (group_members g d)") auto
    ultimately show ?thesis using that(2) [of "fst ?p"] p unfolding c_def l_def by simp
  qed
qed

lemma pick_member_in_group:
  assumes "pick_member nanos f g d r = (Some fn, r')"
  shows "fn \<in> snd ` set (group_members g d)"
  using assms
proof (cases rule: pick_member_cases)
  case single
  then show ?thesis by (cases "group_members g d") auto
next
  case (many i)
  then show ?thesis using pick_candidates_subset by force
qed

text \<open>
  A pick always plays a clip of the group and fails only when the members cannot be
  read or there are none; whatever happens in Redis cannot make it fail.
\<close>

theorem pick_member_total:
  "(fst (pick_member nanos f g d r) = None \<longleftrightarrow> pf_query f \<or> group_members g d = []) \<and>
   (fst (pick_member nanos f g d r) = None \<or>
    the (fst (pick_member nanos f g d r)) \<in> snd ` set (group_members g d))"
proof
  show "fst (pick_member nanos f g d r) = None \<longleftrightarrow> pf_query f \<or> group_members g d = []"
    by (simp add: pick_member_def Let_def)
  show "fst (pick_member nanos f g d r) = None \<or>
    the (fst (pick_member nanos f g d r)) \<in> snd ` set (group_members g d)"
  proof (cases "fst (pick_member nanos f g d r)")
    case (Some fn)
    then have "pick_member nanos f g d r = (Some fn, snd (pick_member nanos f g d r))"
      by (metis prod.collapse)
    from pick_member_in_group [OF this] Some show ?thesis by simp
  qed simp
qed

text \<open>
  No clip repeats: of two picks from the same group within five minutes (Redis
  answering), with at least two members whose files differ, the second plays another clip.
\<close>

theorem pick_no_repeat:
  assumes "pick_member t1 f1 g d r = (Some fn1, r1)" "pick_member t2 f2 g d r1 = (Some fn2, r2)"
    and "\<not> pf_set f1" "\<not> pf_get f2"
    and "t2 div 1000000000 < t1 div 1000000000 + 300"
    and "1 < length (group_members g d)" "distinct (map snd (group_members g d))"
    and "\<And>m. m \<in> set (group_members g d) \<Longrightarrow> 0 < fst m" "distinct (map fst (group_members g d))"
  shows "fn1 \<noteq> fn2"
  using assms(1)
proof (cases rule: pick_member_cases)
  case single
  with assms(6) show ?thesis by simp
next
  case (many i)
  note first = this
  have last: "ttl_get (t2 div 1000000000) (rd_last r1) g = Some i"
    using first(3) assms(3,5) by (simp add: last_played_ttl_def)
  have i: "(i, fn1) \<in> set (group_members g d)" using first(2) pick_candidates_subset by blast
  show ?thesis
    using assms(2)
  proof (cases rule: pick_member_cases)
    case single
    with assms(6) show ?thesis by simp
  next
    case (many j)
    have "\<exists>m \<in> set (group_members g d). fst m \<noteq> i"
    proof (rule ccontr)
      assume "\<not> ?thesis"
      then have "set (map fst (group_members g d)) \<subseteq> {i}" by auto
      then have "card (set (map fst (group_members g d))) \<le> 1" using card_mono [of "{i}"] by simp
      with assms(6,9) distinct_card show False by (metis length_map not_less)
    qed
    with many(2) last assms(4,8) i have ji: "j \<noteq> i"
      using pick_candidates_avoid [of i "group_members g d" "(j, fn2)"] by fastforce
    have "(j, fn2) \<in> set (group_members g d)" using many(2) pick_candidates_subset by blast
    with i ji assms(7) show ?thesis by (metis Pair_inject distinct_map inj_on_eq_iff snd_conv)
  qed
qed

definition pick_ok :: pick_faults where
  "pick_ok = \<lparr>pf_query = False, pf_get = False, pf_set = False\<rparr>"

definition sample_audio_db :: db where
  "sample_audio_db = empty_db\<lparr>
     audio_files := [(1, \<lparr>f_filename = ''af_1'', f_name = ''one''\<rparr>), (2, \<lparr>f_filename = ''af_2'', f_name = ''two''\<rparr>)],
     audio_members := [\<lparr>m_group = 7, m_file = 1, m_position = 1\<rparr>, \<lparr>m_group = 7, m_file = 2, m_position = 2\<rparr>]\<rparr>"

lemma sample_group: "group_members 7 sample_audio_db = [(1, ''af_1''), (2, ''af_2'')]"
  by code_simp

theorem pick_no_repeat_witness:
  "the (fst (pick_member 5000 pick_ok 7 sample_audio_db empty_redis)) \<noteq>
   the (fst (pick_member 5000 pick_ok 7 sample_audio_db (snd (pick_member 5000 pick_ok 7 sample_audio_db empty_redis))))"
proof -
  obtain o1 r1 where p1: "pick_member 5000 pick_ok 7 sample_audio_db empty_redis = (o1, r1)"
    by (meson surj_pair)
  obtain o2 r2 where p2: "pick_member 5000 pick_ok 7 sample_audio_db r1 = (o2, r2)"
    by (meson surj_pair)
  have ne: "\<not> pf_query pick_ok" "group_members 7 sample_audio_db \<noteq> []"
    by (simp_all add: pick_ok_def sample_group)
  then obtain f1 f2 where some: "o1 = Some f1" "o2 = Some f2"
    using pick_member_total [of 5000 pick_ok 7 sample_audio_db empty_redis]
      pick_member_total [of 5000 pick_ok 7 sample_audio_db r1] p1 p2 by auto
  have "f1 \<noteq> f2"
  proof (rule pick_no_repeat)
    show "pick_member 5000 pick_ok 7 sample_audio_db empty_redis = (Some f1, r1)" using p1 some by simp
    show "pick_member 5000 pick_ok 7 sample_audio_db r1 = (Some f2, r2)" using p2 some by simp
  qed (auto simp: pick_ok_def sample_group)
  with p1 p2 some show ?thesis by simp
qed

end
