(* ===== verification/Sip_Acl.thy ===== *)
theory Sip_Acl
  imports Schema "HOL-Library.AList"
begin

text \<open>
  The supplier IP allow-list of \<open>internal/sipctl/sipctl.go\<close>: the accumulating DNS cache
  (\<open>resolveHostCached\<close>, \<open>snapshotFresh\<close>) and the two-pass check \<open>supplierIPAllowed\<close>. Times
  are wall-clock nanoseconds. The resolver is an argument: what it answers for a host name,
  \<open>None\<close> for an error or the 1.5 s timeout. The Go maps are association lists (the code only
  looks up keys and collects the entries as a set).
\<close>

definition host_refresh_ttl :: int where "host_refresh_ttl = 60 * 1000000000"
definition host_entry_ttl :: int where "host_entry_ttl = 24 * 60 * 60 * 1000000000"

record host_entry =
  he_ips :: "(string \<times> int) list"
  he_last :: int

type_synonym host_cache = "(string \<times> host_entry) list"

definition host_put :: "string \<Rightarrow> host_entry \<Rightarrow> host_cache \<Rightarrow> host_cache" where
  "host_put h e c = AList.update h e c"

definition snapshot_fresh :: "(string \<times> int) list \<Rightarrow> int \<Rightarrow> ip list" where
  "snapshot_fresh m now =
     List.map_filter (\<lambda>(s, t). if host_entry_ttl < now - t then None else parse_ip s) m"

text \<open>The merge and the pruning under the write lock.\<close>

definition merge_ips :: "int \<Rightarrow> ip list option \<Rightarrow> (string \<times> int) list \<Rightarrow> (string \<times> int) list" where
  "merge_ips now answer m =
     (let m1 = (case answer of None \<Rightarrow> m | Some as \<Rightarrow> fold (\<lambda>a. AList.update (ip_string a) now) as m)
      in filter (\<lambda>(_, t). \<not> host_entry_ttl < now - t) m1)"

definition refreshed :: "int \<Rightarrow> ip list option \<Rightarrow> host_entry option \<Rightarrow> host_entry" where
  "refreshed now answer e =
     \<lparr>he_ips = merge_ips now answer (case e of None \<Rightarrow> [] | Some e \<Rightarrow> he_ips e), he_last = now\<rparr>"

definition entry_current :: "int \<Rightarrow> host_entry option \<Rightarrow> bool" where
  "entry_current now e = (case e of None \<Rightarrow> False | Some e \<Rightarrow> now - he_last e < host_refresh_ttl)"

definition resolve_host_cached ::
  "int \<Rightarrow> (string \<Rightarrow> ip list option) \<Rightarrow> string \<Rightarrow> host_cache \<Rightarrow> ip list \<times> host_cache" where
  "resolve_host_cached now dns host c =
     (let e = map_of c host in
      if entry_current now e then (snapshot_fresh (he_ips (the e)) now, c)
      else let e' = refreshed now (dns host) e in (snapshot_fresh (he_ips e') now, host_put host e' c))"

text \<open>The loop over the host names, which stops at the first match.\<close>

fun hosts_allow ::
  "int \<Rightarrow> (string \<Rightarrow> ip list option) \<Rightarrow> ip \<Rightarrow> string list \<Rightarrow> host_cache \<Rightarrow> bool \<times> host_cache" where
  "hosts_allow now dns src [] c = (False, c)"
| "hosts_allow now dns src (h # hs) c =
     (let (ips, c') = resolve_host_cached now dns h c in
      if src \<in> set ips then (True, c') else hosts_allow now dns src hs c')"

definition cidr_match :: "db_id \<Rightarrow> ip \<Rightarrow> db \<Rightarrow> bool" where
  "cidr_match sid src d \<longleftrightarrow>
     list_ex (\<lambda>m. a_supplier m = sid \<and> (case a_match m of AclCidr n \<Rightarrow> cidr_contains n src | AclHost _ \<Rightarrow> False))
       (acl d)"

definition supplier_hosts :: "db_id \<Rightarrow> db \<Rightarrow> string list" where
  "supplier_hosts sid d =
     List.map_filter (\<lambda>m. if a_supplier m = sid then (case a_match m of AclHost h \<Rightarrow> Some h | AclCidr _ \<Rightarrow> None)
                          else None) (acl d)"

definition supplier_ip_allowed ::
  "int \<Rightarrow> (string \<Rightarrow> ip list option) \<Rightarrow> bool \<Rightarrow> bool \<Rightarrow> db_id \<Rightarrow> ip \<Rightarrow> db \<Rightarrow> host_cache \<Rightarrow> bool \<times> host_cache" where
  "supplier_ip_allowed now dns cidr_fails hosts_fail sid src d c =
     (if cidr_fails then (False, c)
      else if cidr_match sid src d then (True, c)
      else if hosts_fail then (False, c)
      else hosts_allow now dns src (supplier_hosts sid d) c)"

subsection \<open>The cache\<close>

lemma snapshot_fresh_iff:
  "a \<in> set (snapshot_fresh m now) \<longleftrightarrow>
     (\<exists>s t. (s, t) \<in> set m \<and> now - t \<le> host_entry_ttl \<and> parse_ip s = Some a)"
  unfolding snapshot_fresh_def in_map_filter
  by (force simp: not_less split: if_splits)

text \<open>
  What the cache has observed: an entry for an address under its canonical text, with the
  time of the last answer that contained it.
\<close>

definition host_seen :: "host_cache \<Rightarrow> string \<Rightarrow> string \<Rightarrow> int option" where
  "host_seen c h s = (case map_of c h of None \<Rightarrow> None | Some e \<Rightarrow> map_of (he_ips e) s)"

definition cache_ok :: "host_cache \<Rightarrow> bool" where
  "cache_ok c \<longleftrightarrow> (\<forall>(h, e) \<in> set c. distinct (map fst (he_ips e)))"

lemma distinct_fold_update:
  "distinct (map fst m) \<Longrightarrow> distinct (map fst (fold (\<lambda>a. AList.update (f a) v) as m))"
  by (induction as arbitrary: m) (auto simp: distinct_update)

lemma merge_ips_distinct: "distinct (map fst m) \<Longrightarrow> distinct (map fst (merge_ips now a m))"
  by (auto simp: merge_ips_def Let_def distinct_fold_update intro!: distinct_map_filter split: option.split)

lemma map_of_fold_update:
  "map_of (fold (\<lambda>a. AList.update (f a) v) as m) s = (if s \<in> f ` set as then Some v else map_of m s)"
  by (induction as arbitrary: m) (auto simp: update_conv')

lemma cache_ok_entry: "cache_ok c \<Longrightarrow> map_of c h = Some e \<Longrightarrow> distinct (map fst (he_ips e))"
  by (auto simp: cache_ok_def dest: map_of_SomeD)

lemma cache_ok_put: "cache_ok c \<Longrightarrow> distinct (map fst (he_ips e)) \<Longrightarrow> cache_ok (host_put h e c)"
  unfolding cache_ok_def host_put_def by (induction c) auto

lemma refreshed_distinct:
  "cache_ok c \<Longrightarrow> distinct (map fst (he_ips (refreshed now ans (map_of c h))))"
  using cache_ok_entry [of c h]
  by (auto simp: refreshed_def split: option.split intro!: merge_ips_distinct)

lemma cache_ok_resolve [inv_intros]:
  "cache_ok c \<Longrightarrow> cache_ok (snd (resolve_host_cached now dns h c))"
  by (simp add: resolve_host_cached_def Let_def refreshed_distinct cache_ok_put)

lemma cache_ok_hosts [inv_intros]:
  "cache_ok c \<Longrightarrow> cache_ok (snd (hosts_allow now dns src hs c))"
proof (induction hs arbitrary: c)
  case (Cons h hs)
  then show ?case using cache_ok_resolve [OF Cons.prems, of now dns h]
    by (auto split: prod.splits)
qed simp

lemma seen_put [simp]:
  "host_seen (host_put h e c) h' s = (if h' = h then map_of (he_ips e) s else host_seen c h' s)"
  by (simp add: host_seen_def host_put_def update_conv')

lemma map_of_filter_val:
  "distinct (map fst m) \<Longrightarrow> map_of (filter (\<lambda>(_, t). P t) m) s =
     (case map_of m s of None \<Rightarrow> None | Some t \<Rightarrow> if P t then Some t else None)"
  by (induction m) (auto split: option.splits simp: map_of_eq_None_iff)

lemma map_of_merge:
  assumes "distinct (map fst m)"
  shows "map_of (merge_ips now ans m) s =
    (if \<exists>as. ans = Some as \<and> s \<in> ip_string ` set as then Some now
     else case map_of m s of None \<Rightarrow> None
        | Some t \<Rightarrow> if host_entry_ttl < now - t then None else Some t)"
proof -
  have "\<not> host_entry_ttl < now - now" by (simp add: host_entry_ttl_def)
  then show ?thesis
    using assms
    by (cases ans) (auto simp: merge_ips_def Let_def map_of_filter_val [where P = "\<lambda>t. \<not> host_entry_ttl < now - t"]
        distinct_fold_update map_of_fold_update split: option.splits)
qed

text \<open>A lookup answers exactly the addresses last seen within a day.\<close>

lemma seen_entry: "cache_ok c \<Longrightarrow> map_of c h = Some e \<Longrightarrow>
    (s, t) \<in> set (he_ips e) \<longleftrightarrow> host_seen c h s = Some t"
  by (simp add: host_seen_def cache_ok_entry)

lemma resolve_host_result:
  assumes "cache_ok c"
  shows "a \<in> set (fst (resolve_host_cached now dns h c)) \<longleftrightarrow>
    (\<exists>s t. host_seen (snd (resolve_host_cached now dns h c)) h s = Some t \<and> now - t \<le> host_entry_ttl \<and>
       parse_ip s = Some a)"
proof (cases "entry_current now (map_of c h)")
  case True
  then obtain e where "map_of c h = Some e" by (auto simp: entry_current_def split: option.splits)
  with True assms show ?thesis
    by (simp add: resolve_host_cached_def Let_def snapshot_fresh_iff seen_entry)
next
  case False
  then show ?thesis
    using refreshed_distinct [OF assms, of now "dns h" h]
    by (simp add: resolve_host_cached_def Let_def snapshot_fresh_iff)
qed

lemma refreshed_seen:
  assumes "cache_ok c"
  shows "map_of (he_ips (refreshed now ans (map_of c h))) s =
    (if \<exists>as. ans = Some as \<and> s \<in> ip_string ` set as then Some now
     else case host_seen c h s of None \<Rightarrow> None
        | Some t \<Rightarrow> if host_entry_ttl < now - t then None else Some t)"
proof (cases "map_of c h")
  case None
  then show ?thesis by (simp add: refreshed_def map_of_merge host_seen_def)
next
  case (Some e)
  then show ?thesis
    using cache_ok_entry [OF assms Some] by (auto simp: refreshed_def map_of_merge host_seen_def)
qed

lemma resolve_host_seen:
  assumes "cache_ok c"
  shows "host_seen (snd (resolve_host_cached now dns h c)) h' s =
    (if h' = h \<and> \<not> entry_current now (map_of c h)
     then (if \<exists>as. dns h = Some as \<and> s \<in> ip_string ` set as then Some now
           else case host_seen c h s of None \<Rightarrow> None
              | Some t \<Rightarrow> if host_entry_ttl < now - t then None else Some t)
     else host_seen c h' s)"
  using refreshed_seen [OF assms, of now "dns h" h s]
  by (simp add: resolve_host_cached_def Let_def)

subsection \<open>The check\<close>

text \<open>
  The cache a DNS-observing process reaches: any number of lookups of any hosts, each at a
  time and with an answer of its own.
\<close>

fun lookups :: "(int \<times> string \<times> (string \<Rightarrow> ip list option)) list \<Rightarrow> host_cache \<Rightarrow> host_cache" where
  "lookups [] c = c"
| "lookups ((now, h, dns) # ls) c = lookups ls (snd (resolve_host_cached now dns h c))"

lemma cache_ok_lookups [inv_intros]: "cache_ok c \<Longrightarrow> cache_ok (lookups ls c)"
  by (induction ls c rule: lookups.induct) (auto intro: cache_ok_resolve)

lemma lookups_keep_seen:
  assumes "cache_ok c" "host_seen c h s = Some t" "t0 \<le> t"
    and "\<And>now h' dns. (now, h', dns) \<in> set ls \<Longrightarrow> t0 \<le> now \<and> now - t0 \<le> host_entry_ttl"
  shows "\<exists>t'. host_seen (lookups ls c) h s = Some t' \<and> t0 \<le> t'"
  using assms
proof (induction ls c arbitrary: t rule: lookups.induct)
  case (2 now h' dns ls c)
  have r: "t0 \<le> now" "now - t0 \<le> host_entry_ttl" using 2(5) by auto
  have "\<exists>t'. host_seen (snd (resolve_host_cached now dns h' c)) h s = Some t' \<and> t0 \<le> t'"
    using r 2(3,4) resolve_host_seen [OF 2(2), of now dns h' h s] by auto
  then obtain t' where t': "host_seen (snd (resolve_host_cached now dns h' c)) h s = Some t'" "t0 \<le> t'"
    by blast
  show ?case
    using 2(1) [OF cache_ok_resolve [OF 2(2)] t'] 2(5) by (auto intro: 2(5))
qed auto

text \<open>
  Round-robin DNS cannot lock a carrier out: once a refresh has seen an IPv4 address of
  a host, every lookup of that host in the following 24 hours accepts it, whatever the
  answers to any lookups in between contain and even when they all fail.
\<close>

theorem resolved_ip_remembered:
  assumes "cache_ok c" "\<not> entry_current t0 (map_of c h)" "dns0 h = Some as" "v4 bs \<in> set as"
    and "length bs = 4" "\<And>b. b \<in> set bs \<Longrightarrow> b < 256"
    and "\<And>now h' dns. (now, h', dns) \<in> set ls \<Longrightarrow> t0 \<le> now \<and> now - t0 \<le> host_entry_ttl"
    and "t0 \<le> t" "t - t0 \<le> host_entry_ttl"
  shows "v4 bs \<in> set (fst (resolve_host_cached t dns h
           (lookups ls (snd (resolve_host_cached t0 dns0 h c)))))"
proof -
  let ?c1 = "snd (resolve_host_cached t0 dns0 h c)" and ?s = "ip_string (v4 bs)"
  have ok: "cache_ok ?c1" using assms(1) by (rule cache_ok_resolve)
  have "host_seen ?c1 h ?s = Some t0"
    using assms(2-4) resolve_host_seen [OF assms(1), of t0 dns0 h h ?s] by auto
  then obtain t1 where "host_seen (lookups (ls @ [(t, h, dns)]) ?c1) h ?s = Some t1" "t0 \<le> t1"
    using lookups_keep_seen [OF ok, of h ?s t0 t0 "ls @ [(t, h, dns)]"] assms(7-9) by fastforce
  moreover have "lookups (ls @ [(t, h, dns)]) c' = snd (resolve_host_cached t dns h (lookups ls c'))" for c'
    by (induction ls c' rule: lookups.induct) simp_all
  ultimately show ?thesis
    unfolding resolve_host_result [OF cache_ok_lookups [OF ok]]
    using parse_ip_v4_string [OF assms(5,6)] assms(9) by fastforce
qed

lemma hosts_allow_sound:
  assumes "cache_ok c" "hosts_allow now dns src hs c = (True, c')"
  shows "\<exists>h \<in> set hs. \<exists>s t. host_seen c' h s = Some t \<and> now - t \<le> host_entry_ttl \<and> parse_ip s = Some src"
  using assms
proof (induction hs arbitrary: c)
  case (Cons h hs)
  obtain ips c1 where r: "resolve_host_cached now dns h c = (ips, c1)" by (meson surj_pair)
  show ?case
  proof (cases "src \<in> set ips")
    case True
    with Cons.prems r show ?thesis
      using resolve_host_result [OF Cons.prems(1), of src now dns h] by auto
  next
    case False
    with Cons r cache_ok_resolve [OF Cons.prems(1), of now dns h] show ?thesis by fastforce
  qed
qed simp


theorem resolved_ip_remembered_witness:
  "v4 [10, 0, 0, 9] \<in> set (fst (resolve_host_cached 10000000000000 (\<lambda>_. None) ''sip.example''
     (lookups [(100000000000, ''sip.example'', \<lambda>_. Some [])]
       (snd (resolve_host_cached 1000000000 (\<lambda>_. Some [v4 [10, 0, 0, 9]]) ''sip.example'' [])))))"
  by (rule resolved_ip_remembered [where as = "[v4 [10, 0, 0, 9]]"])
    (auto simp: cache_ok_def entry_current_def host_entry_ttl_def)

definition sample_acl_db :: db where
  "sample_acl_db = empty_db\<lparr>acl := [\<lparr>a_supplier = 1, a_match = AclCidr \<lparr>net_addr = v4 [10, 0, 0, 0], net_len = 8\<rparr>\<rparr>,
     \<lparr>a_supplier = 2, a_match = AclHost ''sip.example''\<rparr>]\<rparr>"


end
