(* ===== verification/Livecalls.thy ===== *)
theory Livecalls
  imports Redis_Store Schema
begin

text \<open>
  \<open>internal/livecalls\<close>: the Redis index of in-flight calls (\<open>livecalls.go\<close>), the pending
  admin actions (\<open>pending.go\<close>) and the reconciler that evicts ghost calls
  (\<open>reconciler.go\<close>). Every Redis round trip may fail (a Boolean argument); a failed
  \<open>MULTI/EXEC\<close> pipeline leaves the store unchanged. The SCAN that releases reservations
  takes the pages the server returned as an argument.
\<close>

datatype live_error = LiveEmptyCallId | LiveRedisError | LiveBadJson | LiveEmptyAction

definition default_ttl :: int where "default_ttl = 2 * 60 * 60"
definition sweep_window :: int where "sweep_window = 2 * 60 * 60"
definition pending_ttl :: int where "pending_ttl = 6 * 60 * 60"

subsection \<open>Registering and deregistering a call\<close>

definition live_register ::
  "unix_time \<Rightarrow> bool \<Rightarrow> active_call \<Rightarrow> redis \<Rightarrow> live_error option \<times> redis" where
  "live_register now fails c r =
     (if ac_call_id c = [] then (Some LiveEmptyCallId, r)
      else let c = (if ac_started c = 0 then c\<lparr>ac_started := now\<rparr> else c) in
        if fails then (Some LiveRedisError, r)
        else (None, r\<lparr>rd_meta := ttl_set (ac_call_id c) (Blob c) (now + default_ttl) (rd_meta r),
                      rd_active := zset_add (ac_call_id c) (ac_started c) (rd_active r)\<rparr>))"

definition live_deregister :: "bool \<Rightarrow> string \<Rightarrow> redis \<Rightarrow> live_error option \<times> redis" where
  "live_deregister fails cid r =
     (if cid = [] then (None, r)
      else if fails then (Some LiveRedisError, r)
      else (None, r\<lparr>rd_active := zset_rem [cid] (rd_active r),
                    rd_meta := ttl_del cid (rd_meta r)\<rparr>))"

subsection \<open>Listing\<close>

text \<open>One member of the index against the blob \<open>MGET\<close> returned for it: keep it or sweep it.\<close>

definition keep_blob :: "unix_time \<Rightarrow> meta_blob option \<Rightarrow> active_call option" where
  "keep_blob cutoff raw =
     (case raw of
        None \<Rightarrow> None
      | Some BadBlob \<Rightarrow> None
      | Some (Blob ac) \<Rightarrow> if ac_started ac < cutoff then None else Some ac)"

record list_faults =
  lf_range :: bool
  lf_mget :: bool
  lf_zrem :: bool

definition live_vals :: "unix_time \<Rightarrow> redis \<Rightarrow> (string \<times> active_call option) list" where
  "live_vals now r =
     map (\<lambda>m. (m, keep_blob (now - sweep_window) (ttl_get now (rd_meta r) m)))
       (map fst (zset_rev_range 500 (rd_active r)))"

definition stale_of :: "(string \<times> active_call option) list \<Rightarrow> string list" where
  "stale_of vals = map fst (filter (\<lambda>(_, v). v = None) vals)"

definition live_list ::
  "unix_time \<Rightarrow> list_faults \<Rightarrow> redis \<Rightarrow> (live_error + active_call list) \<times> redis" where
  "live_list now f r =
     (if lf_range f then (Inl LiveRedisError, r)
      else if zset_rev_range 500 (rd_active r) = [] then (Inr [], r)
      else if lf_mget f then (Inl LiveRedisError, r)
      else let vals = live_vals now r;
               out = List.map_filter snd vals;
               stale = stale_of vals;
               r' = (if stale = [] \<or> lf_zrem f then r
                     else r\<lparr>rd_active := zset_rem stale (rd_active r)\<rparr>)
           in (Inr out, r'))"

subsection \<open>Single calls\<close>

definition live_get ::
  "unix_time \<Rightarrow> bool \<Rightarrow> string \<Rightarrow> redis \<Rightarrow> live_error + active_call option" where
  "live_get now fails cid r =
     (if fails then Inl LiveRedisError
      else case ttl_get now (rd_meta r) cid of
        None \<Rightarrow> Inr None
      | Some BadBlob \<Rightarrow> Inl LiveBadJson
      | Some (Blob ac) \<Rightarrow> Inr (Some ac))"

definition live_update_route ::
  "unix_time \<Rightarrow> bool \<Rightarrow> bool \<Rightarrow> string \<Rightarrow> string \<Rightarrow> string \<Rightarrow> string \<Rightarrow> redis
     \<Rightarrow> live_error option \<times> redis" where
  "live_update_route now get_fails set_fails cid kind target action r =
     (if cid = [] then (None, r)
      else case live_get now get_fails cid r of
        Inl e \<Rightarrow> (Some e, r)
      | Inr None \<Rightarrow> (None, r)
      | Inr (Some ac) \<Rightarrow>
          if set_fails then (Some LiveRedisError, r)
          else (None, r\<lparr>rd_meta := ttl_set cid
                  (Blob (ac\<lparr>ac_kind := kind, ac_target := target, ac_last_action := action\<rparr>))
                  (now + default_ttl) (rd_meta r)\<rparr>))"

definition call_age :: "unix_time \<Rightarrow> active_call \<Rightarrow> int" where
  "call_age now c = (if ac_started c = 0 then 0 else now - ac_started c)"

definition age_display :: "unix_time \<Rightarrow> active_call \<Rightarrow> string" where
  "age_display now c =
     (let s = call_age now c; s = (if s < 0 then 0 else s) in
      if s < 60 then itoa s @ ''s''
      else if s < 3600 then itoa (s div 60) @ ''m '' @ itoa (s mod 60) @ ''s''
      else itoa (s div 3600) @ ''h '' @ itoa ((s mod 3600) div 60) @ ''m'')"

subsection \<open>Pending admin actions\<close>

definition record_pending ::
  "unix_time \<Rightarrow> bool \<Rightarrow> string \<Rightarrow> string \<Rightarrow> db_id \<Rightarrow> string \<Rightarrow> redis \<Rightarrow> live_error option \<times> redis" where
  "record_pending now fails cid action admin reason r =
     (if cid = [] \<or> action = [] then (Some LiveEmptyAction, r)
      else if fails then (Some LiveRedisError, r)
      else (None, r\<lparr>rd_pending := ttl_set cid
              (PendingBlob \<lparr>pa_action = action, pa_admin = admin, pa_reason = reason\<rparr>)
              (now + pending_ttl) (rd_pending r)\<rparr>))"

definition pop_pending ::
  "unix_time \<Rightarrow> bool \<Rightarrow> string \<Rightarrow> redis \<Rightarrow> (live_error + pending_action option) \<times> redis" where
  "pop_pending now fails cid r =
     (if cid = [] then (Inr None, r)
      else if fails then (Inl LiveRedisError, r)
      else case ttl_get now (rd_pending r) cid of
        None \<Rightarrow> (Inr None, r)
      | Some b \<Rightarrow>
          (case b of BadPending \<Rightarrow> Inl LiveBadJson | PendingBlob p \<Rightarrow> Inr (Some p),
           r\<lparr>rd_pending := ttl_del cid (rd_pending r)\<rparr>))"

subsection \<open>The channel set of Asterisk\<close>

text \<open>\<open>core show channels concise\<close>: one channel per line, fields separated by \<open>!\<close>.\<close>

definition channel_of_line :: "string \<Rightarrow> string option" where
  "channel_of_line line =
     (let fields = split_byte (CHR ''!'') line in
      if length fields < 5 then None
      else let name = trim_space (hd fields) in if name = [] then None else Some name)"

definition default_channel_set :: "string option \<Rightarrow> string set option" where
  "default_channel_set output =
     map_option (\<lambda>out. set (List.map_filter channel_of_line (split_byte (CHR 0x0A) out))) output"

subsection \<open>Releasing reservations\<close>

text \<open>
  The SCAN loop: each page is a failed round trip or the keys it returned; a failing
  pipeline is a failed page. The loop stops at the first failure.
\<close>

fun release_pages :: "unix_time \<Rightarrow> string list \<Rightarrow> string list option list \<Rightarrow> redis \<Rightarrow> bool \<times> redis" where
  "release_pages now cids [] r = (True, r)"
| "release_pages now cids (None # ps) r = (False, r)"
| "release_pages now cids (Some keys # ps) r =
     release_pages now cids ps (fold (\<lambda>k. fold (\<lambda>c. set_rem now k c) cids) keys r)"

definition release_channel_reservations ::
  "unix_time \<Rightarrow> string list \<Rightarrow> string list option list \<Rightarrow> redis \<Rightarrow> bool \<times> redis" where
  "release_channel_reservations now cids pages r =
     (if cids = [] then (True, r) else release_pages now cids pages r)"

subsection \<open>One sweep of the reconciler\<close>

text \<open>The option defaults of \<open>StartReconciler\<close>, in seconds.\<close>

definition tick_interval :: "int \<Rightarrow> int" where
  "tick_interval t = (if t \<le> 0 then 15 else t)"

definition settle_window :: "int \<Rightarrow> int" where
  "settle_window w = (if w < 0 then 20 else w)"

record reconcile_env =
  rc_now :: unix_time
  rc_settle :: int
  rc_channels :: "string set option"
  rc_list :: list_faults
  rc_dereg_fails :: "string \<Rightarrow> bool"
  rc_pages :: "string list option list"
  rc_db_fails :: bool

definition is_ghost :: "unix_time \<Rightarrow> string set \<Rightarrow> active_call \<Rightarrow> bool" where
  "is_ghost cutoff chans ac \<longleftrightarrow>
     \<not> cutoff < ac_started ac \<and> (ac_channel ac = [] \<or> ac_channel ac \<notin> chans)"

definition evicted_of :: "unix_time \<Rightarrow> string set \<Rightarrow> active_call list \<Rightarrow> string list" where
  "evicted_of cutoff chans calls = map ac_call_id (filter (is_ghost cutoff chans) calls)"

text \<open>\<open>UPDATE cdrs SET ended_at = now(), billsec = GREATEST(0, ..) WHERE call_id = ANY(..) AND ended_at IS NULL\<close>.\<close>

definition stamp_ended :: "unix_time \<Rightarrow> string list \<Rightarrow> db \<Rightarrow> db" where
  "stamp_ended now evicted d =
     d\<lparr>cdrs := tbl_upd_where (\<lambda>_ c. c_call_id c \<in> set evicted \<and> c_ended c = None)
                (\<lambda>c. c\<lparr>c_ended := Some now, c_billsec := max 0 (now - c_started c)\<rparr>) (cdrs d)\<rparr>"

definition reconcile_once :: "reconcile_env \<Rightarrow> redis \<times> db \<Rightarrow> string list \<times> redis \<times> db" where
  "reconcile_once env s =
     (let (r, d) = s in
      case rc_channels env of None \<Rightarrow> ([], r, d)
      | Some chans \<Rightarrow>
         (case live_list (rc_now env) (rc_list env) r of
            (Inl e, r1) \<Rightarrow> ([], r1, d)
          | (Inr calls, r1) \<Rightarrow>
              let cutoff = rc_now env - rc_settle env;
                  evicted = evicted_of cutoff chans calls
              in if evicted = [] then ([], r1, d)
                 else let r2 = fold (\<lambda>cid r. snd (live_deregister (rc_dereg_fails env cid) cid r)) evicted r1;
                          r3 = snd (release_channel_reservations (rc_now env) evicted (rc_pages env) r2);
                          d' = (if rc_db_fails env then d else stamp_ended (rc_now env) evicted d)
                      in (evicted, r3, d')))"

subsection \<open>Round trips\<close>

lemmas live_defs = live_register_def live_deregister_def live_get_def default_ttl_def Let_def

text \<open>
  A registered call is found under its id with the data it was registered with (the start
  time filled in when it was missing) until its two hours are over and not afterwards, and a
  second registration of the same id replaces the first.
\<close>

theorem register_then_get:
  assumes "live_register now False c r = (None, r')" "live_register now False c2 r' = (None, r2)"
    and "ac_call_id c2 = ac_call_id c" "ac_started c2 \<noteq> 0"
  shows "live_get t False (ac_call_id c) r' =
           (if t < now + 7200
            then Inr (Some (if ac_started c = 0 then c\<lparr>ac_started := now\<rparr> else c)) else Inr None) \<and>
         (t < now + 7200 \<longrightarrow> live_get t False (ac_call_id c) r2 = Inr (Some c2))"
  using assms by (auto simp: live_defs split: if_splits)

definition sample_call :: "string \<Rightarrow> unix_time \<Rightarrow> string \<Rightarrow> active_call" where
  "sample_call cid t chan =
     \<lparr>ac_call_id = cid, ac_full = cid @ ''@10.0.0.9:5060'', ac_started = t, ac_user = 1, ac_order = 10,
      ac_did = 1, ac_supplier = 1, ac_e164 = ''442038968001'', ac_src_ip = ''10.0.0.9'', ac_src_uri = [],
      ac_kind = ''ip'', ac_target = ''10.0.0.1'', ac_reserved = False, ac_rate = 3 / 2,
      ac_channel = chan, ac_last_action = []\<rparr>"

theorem register_then_get_witness:
  "live_get 1500 False ''abc'' (snd (live_register 1000 False (sample_call ''abc'' 0 ''PJSIP/x'') empty_redis)) =
     Inr (Some (sample_call ''abc'' 1000 ''PJSIP/x''))"
proof -
  let ?r = "snd (live_register 1000 False (sample_call ''abc'' 0 ''PJSIP/x'') empty_redis)"
  let ?r2 = "snd (live_register 1000 False (sample_call ''abc'' 7 ''PJSIP/x'') ?r)"
  have "live_register 1000 False (sample_call ''abc'' 0 ''PJSIP/x'') empty_redis = (None, ?r)"
    "live_register 1000 False (sample_call ''abc'' 7 ''PJSIP/x'') ?r = (None, ?r2)"
    by (simp_all add: live_register_def sample_call_def Let_def)
  from register_then_get [OF this, of 1500] show ?thesis
    by (simp add: sample_call_def)
qed

text \<open>
  An admin action is delivered at most once: after it is recorded the first pop within
  six hours returns exactly it, and every later pop of the same call returns nothing.
\<close>

theorem pending_delivered_once:
  assumes "record_pending now False cid action admin reason r = (None, r1)"
    and "pop_pending t False cid r1 = (res, r2)" "t < now + 21600"
  shows "res = Inr (Some \<lparr>pa_action = action, pa_admin = admin, pa_reason = reason\<rparr>) \<and>
         pop_pending t' False cid r2 = (Inr None, r2)"
  using assms by (auto simp: record_pending_def pop_pending_def pending_ttl_def split: if_splits)

theorem pending_delivered_once_witness:
  "fst (pop_pending 50 False ''abc''
     (snd (record_pending 10 False ''abc'' ''live_warn'' 3 ''test'' empty_redis))) =
   Inr (Some \<lparr>pa_action = ''live_warn'', pa_admin = 3, pa_reason = ''test''\<rparr>)"
proof -
  let ?r1 = "snd (record_pending 10 False ''abc'' ''live_warn'' 3 ''test'' empty_redis)"
  have "record_pending 10 False ''abc'' ''live_warn'' 3 ''test'' empty_redis = (None, ?r1)"
    by (simp add: record_pending_def)
  from pending_delivered_once [OF this prod.collapse [symmetric], of 50] show ?thesis by simp
qed

subsection \<open>The live list\<close>

lemma map_filter_snd:
  "set (List.map_filter snd vs) = {ac. \<exists>m. (m, Some ac) \<in> set vs}"
  by (induction vs) (auto simp: List.map_filter_def)

lemma set_stale_of: "m \<in> set (stale_of vs) \<longleftrightarrow> (m, None) \<in> set vs"
  by (force simp: stale_of_def)

lemma in_live_vals:
  "(m, v) \<in> set (live_vals now r) \<longleftrightarrow> m \<in> fst ` set (zset_rev_range 500 (rd_active r)) \<and>
     v = keep_blob (now - sweep_window) (ttl_get now (rd_meta r) m)"
  by (auto simp: live_vals_def)

lemma keep_blob_Some:
  "keep_blob cutoff raw = Some ac \<longleftrightarrow> raw = Some (Blob ac) \<and> cutoff \<le> ac_started ac"
  by (auto simp: keep_blob_def split: option.splits meta_blob.splits)

lemma sweep_window_value: "sweep_window = 7200" by (simp add: sweep_window_def)

lemma live_list_filter: "set (List.map_filter snd (live_vals now r)) =
    {ac. \<exists>m \<in> fst ` set (zset_rev_range 500 (rd_active r)).
      ttl_get now (rd_meta r) m = Some (Blob ac) \<and> now - 7200 \<le> ac_started ac}"
proof -
  have "(\<exists>m. (m, Some ac) \<in> set (live_vals now r)) \<longleftrightarrow>
    (\<exists>m \<in> fst ` set (zset_rev_range 500 (rd_active r)).
      ttl_get now (rd_meta r) m = Some (Blob ac) \<and> now - 7200 \<le> ac_started ac)" for ac
    using keep_blob_Some [of "now - 7200" _ ac] unfolding in_live_vals by (metis sweep_window_value)
  then show ?thesis by (simp add: map_filter_snd)
qed

lemma live_list_ok:
  assumes "live_list now f r = (Inr out, r')"
  shows "set out = {ac. \<exists>m \<in> fst ` set (zset_rev_range 500 (rd_active r)).
            ttl_get now (rd_meta r) m = Some (Blob ac) \<and> now - 7200 \<le> ac_started ac}"
    and "rd_meta r' = rd_meta r" "rd_sets r' = rd_sets r"
    and "\<And>m s. (m, s) \<in> set (rd_active r) \<Longrightarrow> ttl_get now (rd_meta r) m = Some (Blob ac) \<Longrightarrow>
           now - 7200 \<le> ac_started ac \<Longrightarrow> (m, s) \<in> set (rd_active r')"
    and "set (rd_active r') \<subseteq> set (rd_active r)"
proof -
  have cases: "zset_rev_range 500 (rd_active r) = [] \<and> out = [] \<and> r' = r \<or>
    out = List.map_filter snd (live_vals now r) \<and>
    (r' = r \<or> r' = r\<lparr>rd_active := zset_rem (stale_of (live_vals now r)) (rd_active r)\<rparr>)"
    using assms by (auto simp: live_list_def Let_def split: if_splits)
  then show "set out = {ac. \<exists>m \<in> fst ` set (zset_rev_range 500 (rd_active r)).
            ttl_get now (rd_meta r) m = Some (Blob ac) \<and> now - 7200 \<le> ac_started ac}"
    using live_list_filter [of now r] by auto
  show "rd_meta r' = rd_meta r" "rd_sets r' = rd_sets r" "set (rd_active r') \<subseteq> set (rd_active r)"
    using cases by auto
  show "(m, s) \<in> set (rd_active r')" if "(m, s) \<in> set (rd_active r)"
    "ttl_get now (rd_meta r) m = Some (Blob ac)" "now - 7200 \<le> ac_started ac" for m s
  proof -
    have "m \<notin> set (stale_of (live_vals now r))"
      using that(2,3) by (auto simp: set_stale_of in_live_vals keep_blob_def sweep_window_def)
    with cases that(1) show ?thesis by auto
  qed
qed

lemma live_list_swept:
  assumes "live_list now f r = (Inr out, r')" "\<not> lf_zrem f"
    and "m \<in> fst ` set (zset_rev_range 500 (rd_active r))" "m \<in> fst ` set (rd_active r')"
  shows "\<exists>ac. keep_blob (now - sweep_window) (ttl_get now (rd_meta r) m) = Some ac"
proof (rule ccontr)
  assume "\<not> ?thesis"
  then have st: "m \<in> set (stale_of (live_vals now r))"
    using assms(3) by (auto simp: set_stale_of in_live_vals)
  moreover from this have "stale_of (live_vals now r) \<noteq> []" by (metis empty_iff list.set(1))
  moreover have "zset_rev_range 500 (rd_active r) \<noteq> []" using assms(3) by auto
  ultimately have "rd_active r' = zset_rem (stale_of (live_vals now r)) (rd_active r)"
    using assms(1,2) by (auto simp: live_list_def Let_def split: if_splits)
  with st assms(4) show False by auto
qed

text \<open>
  The live page shows exactly the tracked calls: with at most 501 members in the index,
  the list is the set of calls whose data is present, readable and younger than two hours,
  and after the sweep every member left in the index is one of them.
\<close>

theorem live_list_exact:
  assumes "live_list now f r = (Inr out, r')" "length (rd_active r) \<le> 501" "\<not> lf_zrem f"
  shows "set out = {ac. \<exists>m \<in> fst ` set (rd_active r).
            ttl_get now (rd_meta r) m = Some (Blob ac) \<and> now - 7200 \<le> ac_started ac} \<and>
         (\<forall>m \<in> fst ` set (rd_active r'). \<exists>ac \<in> set out. ttl_get now (rd_meta r') m = Some (Blob ac))"
proof -
  have rng: "set (zset_rev_range 500 (rd_active r)) = set (rd_active r)"
    using assms(2) by (intro zset_rev_range_all) simp
  note ll = live_list_ok [OF assms(1)]
  have out: "set out = {ac. \<exists>m \<in> fst ` set (rd_active r).
      ttl_get now (rd_meta r) m = Some (Blob ac) \<and> now - 7200 \<le> ac_started ac}"
    using ll(1) rng by simp
  have "\<exists>ac \<in> set out. ttl_get now (rd_meta r') m = Some (Blob ac)"
    if m: "m \<in> fst ` set (rd_active r')" for m
  proof -
    have mr: "m \<in> fst ` set (rd_active r)" using m ll(5) by auto
    then obtain ac where "keep_blob (now - sweep_window) (ttl_get now (rd_meta r) m) = Some ac"
      using live_list_swept [OF assms(1,3) _ m] rng by auto
    then show ?thesis
      using out mr ll(2) by (auto simp: keep_blob_Some sweep_window_def)
  qed
  with out show ?thesis by blast
qed

definition no_list_faults :: list_faults where
  "no_list_faults = \<lparr>lf_range = False, lf_mget = False, lf_zrem = False\<rparr>"

definition sample_redis :: redis where
  "sample_redis = empty_redis\<lparr>
     rd_active := [(''a'', 1000), (''b'', 1001), (''c'', 1002)],
     rd_meta := (\<lambda>k. if k = ''a'' then Some (Blob (sample_call ''a'' 1000 ''PJSIP/a''), 8200)
                     else if k = ''b'' then Some (Blob (sample_call ''b'' 1001 ''PJSIP/b''), 8201)
                     else None)\<rparr>"

lemma sample_list:
  "live_list 1100 no_list_faults sample_redis =
     (Inr [sample_call ''b'' 1001 ''PJSIP/b'', sample_call ''a'' 1000 ''PJSIP/a''],
      sample_redis\<lparr>rd_active := [(''a'', 1000), (''b'', 1001)]\<rparr>)"
  by (simp add: live_list_def live_vals_def stale_of_def no_list_faults_def sample_redis_def empty_redis_def zset_rev_range_def
      insort_key_def ttl_get_def keep_blob_def sample_call_def sweep_window_def zset_rem_def
      List.map_filter_def)

theorem live_list_exact_witness:
  "\<exists>ac \<in> {sample_call ''b'' 1001 ''PJSIP/b'', sample_call ''a'' 1000 ''PJSIP/a''}.
     ttl_get 1100 (rd_meta sample_redis) ''a'' = Some (Blob ac)"
proof -
  have "length (rd_active sample_redis) \<le> 501" by (simp add: sample_redis_def)
  moreover have "\<not> lf_zrem no_list_faults" by (simp add: no_list_faults_def)
  ultimately show ?thesis
    using live_list_exact [OF sample_list, THEN conjunct2] by simp
qed

subsection \<open>The reconciler\<close>

text \<open>What the code keeps true of the index: a blob is stored under its own call's id.\<close>

definition index_ok :: "redis \<Rightarrow> bool" where
  "index_ok r \<longleftrightarrow> (\<forall>k ac e. rd_meta r k = Some (Blob ac, e) \<longrightarrow> ac_call_id ac = k \<and> k \<noteq> [])"

lemma index_ok_register: "index_ok r \<Longrightarrow> live_register now f c r = (e, r') \<Longrightarrow> index_ok r'"
  unfolding index_ok_def live_register_def ttl_set_def Let_def
  by (fastforce split: if_splits)

lemma index_ok_deregister: "index_ok r \<Longrightarrow> index_ok (snd (live_deregister f cid r))"
  by (auto simp: index_ok_def live_deregister_def ttl_del_def split: if_splits)

lemma index_ok_update_route:
  "index_ok r \<Longrightarrow> live_update_route now f g cid k t a r = (e, r') \<Longrightarrow> index_ok r'"
  unfolding index_ok_def live_update_route_def live_get_def ttl_set_def ttl_get_def
  by (fastforce split: if_splits option.splits meta_blob.splits sum.splits)

lemma index_ok_ttl: "index_ok r \<Longrightarrow> ttl_get now (rd_meta r) k = Some (Blob ac) \<Longrightarrow> ac_call_id ac = k"
  by (auto simp: index_ok_def ttl_get_def split: option.splits if_splits)

lemma index_ok_ne: "index_ok r \<Longrightarrow> ttl_get now (rd_meta r) k = Some (Blob ac) \<Longrightarrow> k \<noteq> []"
  unfolding index_ok_def ttl_get_def by (fastforce split: option.splits if_splits)

lemma fold_deregister_other:
  assumes "cid \<notin> set cids"
  shows "rd_meta (fold (\<lambda>c r. snd (live_deregister (f c) c r)) cids r) cid = rd_meta r cid"
    and "(cid, s) \<in> set (rd_active r) \<Longrightarrow>
         (cid, s) \<in> set (rd_active (fold (\<lambda>c r. snd (live_deregister (f c) c r)) cids r))"
  using assms by (induction cids arbitrary: r) (auto simp: live_deregister_def ttl_del_def)

lemma fold_deregister_in:
  assumes "cid \<in> set cids" "\<And>c. \<not> f c" "cid \<noteq> []"
  shows "rd_meta (fold (\<lambda>c r. snd (live_deregister (f c) c r)) cids r) cid = None \<and>
         cid \<notin> fst ` set (rd_active (fold (\<lambda>c r. snd (live_deregister (f c) c r)) cids r))"
  using assms
proof (induction cids arbitrary: r rule: rev_induct)
  case (snoc c cs)
  then show ?case by (auto simp: live_deregister_def ttl_del_def)
qed simp

lemma fold_deregister_sets [simp]:
  "rd_sets (fold (\<lambda>c r. snd (live_deregister (f c) c r)) cids r) = rd_sets r"
  by (induction cids arbitrary: r) (auto simp: live_deregister_def)

lemma fold_set_rem_frame [simp]:
  "rd_meta (fold (\<lambda>c. set_rem now k c) cids r) = rd_meta r"
  "rd_active (fold (\<lambda>c. set_rem now k c) cids r) = rd_active r"
  "rd_pending (fold (\<lambda>c. set_rem now k c) cids r) = rd_pending r"
  "rd_last (fold (\<lambda>c. set_rem now k c) cids r) = rd_last r"
  by (induction cids arbitrary: r) simp_all

lemma fold_fold_set_rem_frame [simp]:
  "rd_meta (fold (\<lambda>k. fold (\<lambda>c. set_rem now k c) cids) keys r) = rd_meta r"
  "rd_active (fold (\<lambda>k. fold (\<lambda>c. set_rem now k c) cids) keys r) = rd_active r"
  "rd_pending (fold (\<lambda>k. fold (\<lambda>c. set_rem now k c) cids) keys r) = rd_pending r"
  "rd_last (fold (\<lambda>k. fold (\<lambda>c. set_rem now k c) cids) keys r) = rd_last r"
  by (induction keys arbitrary: r) simp_all

lemma release_pages_frame [simp]:
  "rd_meta (snd (release_pages now cids ps r)) = rd_meta r"
  "rd_active (snd (release_pages now cids ps r)) = rd_active r"
  "rd_pending (snd (release_pages now cids ps r)) = rd_pending r"
  "rd_last (snd (release_pages now cids ps r)) = rd_last r"
  by (induction now cids ps r rule: release_pages.induct) simp_all

lemma release_frame [simp]:
  "rd_meta (snd (release_channel_reservations now cids ps r)) = rd_meta r"
  "rd_active (snd (release_channel_reservations now cids ps r)) = rd_active r"
  by (simp_all add: release_channel_reservations_def)

lemma live_list_error: "live_list now f r = (Inl e, r') \<Longrightarrow> r' = r"
  by (auto simp: live_list_def Let_def split: if_splits)

lemma reconcile_cases:
  assumes "reconcile_once env (r, d) = (evicted, r', d')"
  obtains (idle) "evicted = []" "d' = d" "r' = r \<or> (\<exists>calls. live_list (rc_now env) (rc_list env) r = (Inr calls, r'))"
  | (swept) chans calls r1 r2 where
      "rc_channels env = Some chans" "live_list (rc_now env) (rc_list env) r = (Inr calls, r1)"
      "evicted = evicted_of (rc_now env - rc_settle env) chans calls"
      "r2 = fold (\<lambda>cid r. snd (live_deregister (rc_dereg_fails env cid) cid r)) evicted r1"
      "r' = snd (release_channel_reservations (rc_now env) evicted (rc_pages env) r2)"
      "d' = (if rc_db_fails env then d else stamp_ended (rc_now env) evicted d)"
proof (cases "rc_channels env")
  case None
  with assms that(1) show ?thesis by (simp add: reconcile_once_def)
next
  case (Some chans)
  obtain res r1 where ll: "live_list (rc_now env) (rc_list env) r = (res, r1)" by (meson surj_pair)
  show ?thesis
  proof (cases res)
    case (Inl e)
    with assms Some ll that(1) live_list_error [of "rc_now env" "rc_list env" r e r1]
    show ?thesis by (simp add: reconcile_once_def)
  next
    case (Inr calls)
    let ?ev = "evicted_of (rc_now env - rc_settle env) chans calls"
    from assms Some ll Inr have r: "(evicted, r', d') =
      (if ?ev = [] then ([], r1, d)
       else (?ev, snd (release_channel_reservations (rc_now env) ?ev (rc_pages env)
              (fold (\<lambda>cid r. snd (live_deregister (rc_dereg_fails env cid) cid r)) ?ev r1)),
             if rc_db_fails env then d else stamp_ended (rc_now env) ?ev d))"
      unfolding reconcile_once_def Let_def by (auto split: if_splits)
    show ?thesis
    proof (cases "?ev = []")
      case True
      with r ll Inr that(1) show ?thesis by simp
    next
      case False
      then have "(evicted, r', d') = (?ev, snd (release_channel_reservations (rc_now env) ?ev (rc_pages env)
              (fold (\<lambda>cid r. snd (live_deregister (rc_dereg_fails env cid) cid r)) ?ev r1)),
             if rc_db_fails env then d else stamp_ended (rc_now env) ?ev d)"
        using r by (simp only: if_False)
      then show ?thesis using that(2) [OF Some, of calls r1] ll Inr by blast
    qed
  qed
qed

lemma in_evicted: "cid \<in> set (evicted_of cutoff chans calls) \<longleftrightarrow>
    (\<exists>ac \<in> set calls. ac_call_id ac = cid \<and> is_ghost cutoff chans ac)"
  by (auto simp: evicted_of_def)


definition sample_env :: reconcile_env where
  "sample_env = \<lparr>rc_now = 1100, rc_settle = 0, rc_channels = Some {''PJSIP/a''},
     rc_list = no_list_faults, rc_dereg_fails = (\<lambda>_. False), rc_pages = [], rc_db_fails = False\<rparr>"

lemma sample_index_ok: "index_ok sample_redis"
  by (auto simp: index_ok_def sample_redis_def sample_call_def empty_redis_def split: if_splits)

lemma sample_ttl: "ttl_get 1100 (rd_meta sample_redis) ''a'' = Some (Blob (sample_call ''a'' 1000 ''PJSIP/a''))"
  "ttl_get 1100 (rd_meta sample_redis) ''b'' = Some (Blob (sample_call ''b'' 1001 ''PJSIP/b''))"
  by (simp_all add: sample_redis_def ttl_get_def)


text \<open>
  A sweep without failures is complete: with at most 501 members in the index, no call
  that was registered before the settle window and whose channel is gone (or was never
  known) is tracked afterwards.
\<close>

theorem reconcile_evicts_ghosts:
  assumes "reconcile_once env (r, d) = (evicted, r', d')" "index_ok r"
    and "length (rd_active r) \<le> 501" "rc_channels env = Some chans"
    and "\<not> lf_range (rc_list env)" "\<not> lf_mget (rc_list env)" "\<And>c. \<not> rc_dereg_fails env c"
    and "cid \<in> fst ` set (rd_active r)" "ttl_get (rc_now env) (rd_meta r) cid = Some (Blob ac)"
    and "rc_now env - 7200 \<le> ac_started ac"
    and "is_ghost (rc_now env - rc_settle env) chans ac"
  shows "cid \<in> set evicted \<and> cid \<notin> fst ` set (rd_active r') \<and> rd_meta r' cid = None"
proof -
  have rng: "set (zset_rev_range 500 (rd_active r)) = set (rd_active r)"
    using assms(3) by (intro zset_rev_range_all) simp
  then have ne: "zset_rev_range 500 (rd_active r) \<noteq> []" using assms(8) by auto
  then obtain calls r1 where ll: "live_list (rc_now env) (rc_list env) r = (Inr calls, r1)"
    using assms(5,6) by (auto simp: live_list_def Let_def)
  have "ac \<in> set calls" using live_list_ok(1) [OF ll] rng assms(8-10) by auto
  moreover have id: "ac_call_id ac = cid" "cid \<noteq> []"
    using index_ok_ttl [OF assms(2,9)] index_ok_ne [OF assms(2,9)] by auto
  ultimately have ghost: "cid \<in> set (evicted_of (rc_now env - rc_settle env) chans calls)"
    using assms(11) unfolding in_evicted by auto
  let ?ev = "evicted_of (rc_now env - rc_settle env) chans calls"
  have "?ev \<noteq> []" using ghost by (metis empty_iff list.set(1))
  then have r': "evicted = ?ev" "r' = snd (release_channel_reservations (rc_now env) ?ev (rc_pages env)
      (fold (\<lambda>cid r. snd (live_deregister (rc_dereg_fails env cid) cid r)) ?ev r1))"
    using assms(1,4) ll by (auto simp: reconcile_once_def Let_def)
  then show ?thesis
    using ghost fold_deregister_in [OF ghost, of "rc_dereg_fails env" r1] assms(7) id(2) by simp
qed

theorem reconcile_evicts_ghosts_witness:
  "''b'' \<in> set (fst (reconcile_once sample_env (sample_redis, empty_db)))"
proof -
  obtain ev r' d' where rec: "reconcile_once sample_env (sample_redis, empty_db) = (ev, r', d')"
    using prod_cases3 by blast
  have "''b'' \<in> set ev"
    using reconcile_evicts_ghosts [OF rec sample_index_ok, of "{''PJSIP/a''}" "''b''"] sample_ttl(2)
    by (simp add: sample_env_def sample_redis_def sample_call_def no_list_faults_def is_ghost_def)
  with rec show ?thesis by simp
qed

text \<open>
  The reconciler's write to \<open>cdrs\<close> is dead code: the column \<open>ended_at\<close> is NOT NULL, the
  statement only touches rows where it is NULL, so no sweep ever changes the database.
\<close>

theorem reconcile_never_stamps_cdrs:
  assumes "reconcile_once env (r, d) = (evicted, r', d')"
    and "\<forall>(k, c) \<in> set (cdrs d). c_ended c \<noteq> None"
  shows "d' = d"
proof -
  have "tbl_upd_where (\<lambda>_ c. c_call_id c \<in> S \<and> c_ended c = None) f (cdrs d) = cdrs d" for S f
    using assms(2) unfolding tbl_upd_where_def by (intro map_idI) auto
  then have "stamp_ended now ev d = d" for now ev by (simp add: stamp_ended_def)
  with assms(1) show ?thesis by (cases rule: reconcile_cases) auto
qed

theorem reconcile_never_stamps_cdrs_witness:
  "snd (snd (reconcile_once sample_env (sample_redis, empty_db))) = empty_db"
proof -
  obtain ev r' d' where rec: "reconcile_once sample_env (sample_redis, empty_db) = (ev, r', d')"
    using prod_cases3 by blast
  have "d' = empty_db"
    using reconcile_never_stamps_cdrs [OF rec] by (simp add: empty_db_def)
  with rec show ?thesis by simp
qed

end
