(* ===== verification/Sipctl.thy ===== *)
theory Sipctl
  imports Audiogroup Sip_Acl Livecalls
begin

text \<open>
  \<open>internal/sipctl/sipctl.go\<close>: the control plane Asterisk calls on every INVITE
  (\<open>/authorize\<close>, the function \<open>decide\<close>) and on every hang-up (\<open>/cdr\<close>). A request runs at
  one instant of the clock; every statement may fail (\<open>se_fault\<close>), and where a query has
  \<open>LIMIT 1\<close> without a deciding order the row it returns is an input (\<open>se_choice\<close>).
\<close>

datatype sip_stmt =
    FDid | FAclCidr | FAclHosts | FDenialCdr | FUnbilledCdr | FDeniedCall | FMembers | FLastGet
  | FLastSet | FOrder | FReserve | FRegister | FCdrLookup | FCdrInner | FPop | FBegin | FCdrInsert
  | FBalance | FLedger | FCommit | FFill | FDeregister

record sip_env =
  se_nanos :: int
  se_dns :: "string \<Rightarrow> ip list option"
  se_fault :: "sip_stmt \<Rightarrow> bool"
  se_choice :: "sip_stmt \<Rightarrow> nat"
  se_pages :: "string list option list"
  se_min_seconds :: int

definition se_now :: "sip_env \<Rightarrow> unix_time" where
  "se_now env = se_nanos env div 1000000000"

record auth_request =
  rq_call_id :: string
  rq_src_ip :: string
  rq_to :: string
  rq_from :: string
  rq_channel :: string

record auth_response =
  rs_decision :: string
  rs_reason :: string
  rs_sip_code :: int
  rs_cause :: int
  rs_reservation :: string
  rs_max_seconds :: int
  rs_kind :: string
  rs_target :: string
  rs_pop :: db_id
  rs_rate :: rat

record sip_state =
  ss_redis :: redis
  ss_db :: db
  ss_hosts :: host_cache

definition no_response :: auth_response where
  "no_response = \<lparr>rs_decision = [], rs_reason = [], rs_sip_code = 0, rs_cause = 0, rs_reservation = [],
     rs_max_seconds = 0, rs_kind = [], rs_target = [], rs_pop = 0, rs_rate = 0\<rparr>"

definition cause_for_reason :: "string \<Rightarrow> int" where
  "cause_for_reason _ = 17"

definition deny :: "string \<Rightarrow> auth_response" where
  "deny reason = no_response\<lparr>rs_decision := ''deny'', rs_reason := reason, rs_cause := cause_for_reason reason\<rparr>"

definition parse_e164 :: "string \<Rightarrow> string" where
  "parse_e164 uri0 =
     (let uri = trim_suffix (trim_prefix (trim_space uri0) ''<'') ''>'';
          uri = (case index_byte uri (CHR '':'') of Some i \<Rightarrow> drop (i + 1) uri | None \<Rightarrow> uri);
          uri = (case index_byte uri (CHR ''@'') of Some i \<Rightarrow> take i uri | None \<Rightarrow> uri)
      in only_ascii_digits (trim_prefix uri ''+''))"

subsection \<open>The audit rows of a denial\<close>

definition denied_call :: "sip_env \<Rightarrow> auth_request \<Rightarrow> string \<Rightarrow> sip_state \<Rightarrow> sip_state" where
  "denied_call env req reason s =
     (let src = (if parse_ip (rq_src_ip req) = None then ''0.0.0.0'' else rq_src_ip req) in
      if se_fault env FDeniedCall then s
      else s\<lparr>ss_db := (ss_db s)\<lparr>denied_calls := denied_calls (ss_db s) @
             [\<lparr>dn_call_id = rq_call_id req, dn_src_ip = src, dn_to = rq_to req,
               dn_from = rq_from req, dn_reason = reason\<rparr>]\<rparr>\<rparr>)"

text \<open>\<open>INSERT INTO cdrs .. ON CONFLICT (call_id) DO NOTHING\<close>.\<close>

definition insert_cdr :: "cdr_row \<Rightarrow> db \<Rightarrow> db" where
  "insert_cdr c d =
     (if tbl_find (\<lambda>_ x. c_call_id x = c_call_id c) (cdrs d) = None
      then d\<lparr>cdrs := tbl_insert c (cdrs d)\<rparr> else d)"

text \<open>The zero-charge row both denials and reserved calls write.\<close>

definition shell_cdr ::
  "unix_time \<Rightarrow> auth_request \<Rightarrow> db_id option \<Rightarrow> db_id option \<Rightarrow> db_id \<Rightarrow> db_id \<Rightarrow> rat \<Rightarrow> string
     \<Rightarrow> route_kind option \<Rightarrow> string \<Rightarrow> cdr_row" where
  "shell_cdr now req oid uid sid did rate cause kind target =
     \<lparr>c_call_id = sanitize_call_id (rq_call_id req), c_order = oid, c_user = uid, c_supplier = sid,
      c_did = Some did, c_pop = None, c_routed_kind = kind,
      c_routed_target = (if target = [] then None else Some target), c_started = now,
      c_answered = None, c_ended = Some now, c_billsec = 0, c_minutes = 0, c_rate = rate,
      c_charge = 0, c_bill_min = None, c_bill_inc = None, c_sup_charge = None,
      c_sup_bill_min = None, c_sup_bill_inc = None, c_cause = cause, c_src = rq_from req,
      c_dst = rq_to req, c_admin_action = None, c_admin_by = None, c_admin_reason = None\<rparr>"

text \<open>The parameter \<open>$n::route_kind\<close>: NULL for the empty string, an error for an unknown label.\<close>

definition cast_kind :: "string \<Rightarrow> route_kind option option" where
  "cast_kind s = (if s = [] then Some None else map_option Some (route_kind_of s))"

definition denial_cdr ::
  "sip_env \<Rightarrow> auth_request \<Rightarrow> db_id \<Rightarrow> db_id \<Rightarrow> db_id \<Rightarrow> db_id \<Rightarrow> rat \<Rightarrow> string \<Rightarrow> string \<Rightarrow> string
     \<Rightarrow> sip_state \<Rightarrow> sip_state" where
  "denial_cdr env req oid uid sid did rate cause kind target s =
     denied_call env req cause
       (case cast_kind kind of
          None \<Rightarrow> s
        | Some k \<Rightarrow> if se_fault env FDenialCdr then s
            else s\<lparr>ss_db := insert_cdr (shell_cdr (se_now env) req (Some oid) (Some uid) sid did rate cause k target)
                             (ss_db s)\<rparr>)"

definition unbilled_cdr ::
  "sip_env \<Rightarrow> auth_request \<Rightarrow> db_id \<Rightarrow> db_id \<Rightarrow> string \<Rightarrow> string \<Rightarrow> string \<Rightarrow> sip_state \<Rightarrow> sip_state" where
  "unbilled_cdr env req sid did cause kind target s =
     (case cast_kind kind of
        None \<Rightarrow> s
      | Some k \<Rightarrow> if se_fault env FUnbilledCdr then s
          else s\<lparr>ss_db := insert_cdr (shell_cdr (se_now env) req None None sid did 0 cause k target)
                           (ss_db s)\<rparr>)"

subsection \<open>Channel reservations\<close>

definition user_key :: "db_id \<Rightarrow> string" where "user_key uid = ''act:user:'' @ itoa uid"
definition did_key :: "db_id \<Rightarrow> string" where "did_key did = ''act:did:'' @ itoa did"

text \<open>The Lua script: one atomic check of both caps and both additions.\<close>

definition reserve_lua ::
  "unix_time \<Rightarrow> string \<Rightarrow> string \<Rightarrow> string \<Rightarrow> int \<Rightarrow> int \<Rightarrow> redis \<Rightarrow> int \<times> redis" where
  "reserve_lua now ukey dkey cid user_cap did_cap r =
     (let user_active = int (card (set_members now r ukey));
          did_active = int (card (set_members now r dkey)) in
      if 0 \<le> user_cap \<and> user_cap \<le> user_active then (-1, r)
      else if did_cap \<le> did_active then (-2, r)
      else (1, set_expire now dkey 14400 (set_add now dkey cid
                 (set_expire now ukey 14400 (set_add now ukey cid r)))))"

definition reserve_channel ::
  "unix_time \<Rightarrow> bool \<Rightarrow> db_id \<Rightarrow> db_id \<Rightarrow> string \<Rightarrow> int \<Rightarrow> int \<Rightarrow> redis \<Rightarrow> int option \<times> redis" where
  "reserve_channel now fails uid did cid user_cap did_cap r =
     (if fails then (None, r)
      else let (res, r') = reserve_lua now (user_key uid) (did_key did) cid user_cap did_cap r in (Some res, r'))"

definition release_channel_by_call_id ::
  "unix_time \<Rightarrow> string \<Rightarrow> string list option list \<Rightarrow> redis \<Rightarrow> bool \<times> redis" where
  "release_channel_by_call_id now cid pages r = release_pages now [cid] pages r"

subsection \<open>\<open>/authorize\<close>\<close>

definition pick_env :: "sip_env \<Rightarrow> pick_faults" where
  "pick_env env = \<lparr>pf_query = se_fault env FMembers, pf_get = se_fault env FLastGet, pf_set = se_fault env FLastSet\<rparr>"

definition pick_group :: "sip_env \<Rightarrow> db_id \<Rightarrow> sip_state \<Rightarrow> string option \<times> sip_state" where
  "pick_group env g s =
     (let (fname, r) = pick_member (se_nanos env) (pick_env env) g (ss_db s) (ss_redis s)
      in (fname, s\<lparr>ss_redis := r\<rparr>))"

text \<open>A failing \<open>livecalls.Register\<close> is only logged.\<close>

definition register_call :: "sip_env \<Rightarrow> active_call \<Rightarrow> sip_state \<Rightarrow> sip_state" where
  "register_call env ac s =
     s\<lparr>ss_redis := snd (live_register (se_now env) (se_fault env FRegister) ac (ss_redis s))\<rparr>"

text \<open>The block for a reserved DID: no user, no order, no billing.\<close>

definition decide_reserved ::
  "sip_env \<Rightarrow> auth_request \<Rightarrow> string \<Rightarrow> db_id \<Rightarrow> did_row \<Rightarrow> sip_state \<Rightarrow> auth_response \<times> sip_state" where
  "decide_reserved env req e164 did_id did s =
     (case d_res_kind did of
        None \<Rightarrow> (deny ''reservation_misconfigured'', s)
      | Some kind \<Rightarrow>
          let target0 = (case d_res_target did of None \<Rightarrow> [] | Some t \<Rightarrow> t);
              picked = (if kind = RouteAudioGroup
                        then (case d_res_group did of
                                None \<Rightarrow> (None, s)
                              | Some g \<Rightarrow> (case pick_group env g s of
                                    (None, s1) \<Rightarrow> (None, s1)
                                  | (Some fname, s1) \<Rightarrow> (Some (''didstorage/'' @ fname), s1)))
                        else (Some target0, s))
          in (case picked of
                (None, s1) \<Rightarrow> (deny ''reservation_misconfigured'', s1)
              | (Some target, s1) \<Rightarrow>
                  if target = [] then (deny ''reservation_misconfigured'', s1)
                  else let s2 = unbilled_cdr env req (d_supplier did) did_id ''reserved'' (route_kind_text kind) target s1;
                           ac = \<lparr>ac_call_id = sanitize_call_id (rq_call_id req), ac_full = rq_call_id req,
                                 ac_started = 0, ac_user = 0, ac_order = 0, ac_did = did_id,
                                 ac_supplier = d_supplier did, ac_e164 = e164, ac_src_ip = rq_src_ip req,
                                 ac_src_uri = rq_from req, ac_kind = route_kind_text kind, ac_target = target,
                                 ac_reserved = True, ac_rate = 0, ac_channel = rq_channel req, ac_last_action = []\<rparr>;
                           s3 = register_call env ac s2;
                           dial_kind = (if kind = RouteAudioGroup then RouteAudio else kind)
                       in (no_response\<lparr>rs_decision := ''allow'', rs_reservation := rq_call_id req,
                             rs_max_seconds := 4 * 60 * 60, rs_kind := route_kind_text dial_kind,
                             rs_target := target\<rparr>, s3)))"

text \<open>\<open>LIMIT 1\<close> without a deciding order returns one of the rows.\<close>

definition limit1 :: "nat \<Rightarrow> 'a list \<Rightarrow> 'a option" where
  "limit1 n xs = (if xs = [] then None else Some (xs ! (n mod length xs)))"

definition order_rank :: "order_status \<Rightarrow> nat" where
  "order_rank st = (case st of OrdActive \<Rightarrow> 1 | OrdQuarantined \<Rightarrow> 2 | OrdKycPending \<Rightarrow> 3 | _ \<Rightarrow> 4)"

definition callable_orders :: "db_id \<Rightarrow> db \<Rightarrow> (db_id \<times> order_row \<times> user_row \<times> rate_row) list" where
  "callable_orders did d =
     List.map_filter (\<lambda>(oid, ord).
         if o_did ord = did \<and> o_status ord \<in> {OrdActive, OrdQuarantined, OrdKycPending}
         then (case (tbl_get (users d) (o_user ord), tbl_get (rate_cards d) (o_rate_card ord)) of
                 (Some u, Some rc) \<Rightarrow> Some (oid, ord, u, rc)
               | _ \<Rightarrow> None)
         else None) (orders d)"

definition row_rank :: "db_id \<times> order_row \<times> user_row \<times> rate_row \<Rightarrow> nat" where
  "row_rank x = order_rank (o_status (fst (snd x)))"

definition find_order :: "nat \<Rightarrow> db_id \<Rightarrow> db \<Rightarrow> (db_id \<times> order_row \<times> user_row \<times> rate_row) option" where
  "find_order n did d =
     (let xs = sort_key row_rank (callable_orders did d)
      in limit1 n (takeWhile (\<lambda>x. row_rank x = row_rank (hd xs)) xs))"

text \<open>The last part: reserve a channel, resolve an audio group, register the call, answer.\<close>

definition admit_call ::
  "sip_env \<Rightarrow> auth_request \<Rightarrow> string \<Rightarrow> db_id \<Rightarrow> db_id \<Rightarrow> db_id \<Rightarrow> order_row \<Rightarrow> user_row \<Rightarrow> rate_row \<Rightarrow> int
     \<Rightarrow> sip_state \<Rightarrow> auth_response \<times> sip_state" where
  "admit_call env req e164 did_id sid oid ord usr rc max_seconds s =
     (let rate = r_per_minute rc; kind = o_kind ord;
          denied = denial_cdr env req oid (o_user ord) sid did_id rate ''insufficient_channels''
                     (route_kind_text kind) (o_target ord);
          (res, r) = reserve_channel (se_now env) (se_fault env FReserve) (o_user ord) did_id
                       (rq_call_id req) (u_cap usr) (o_channels ord) (ss_redis s);
          s1 = s\<lparr>ss_redis := r\<rparr>
      in case res of
           None \<Rightarrow> (deny ''reservation_error'', s1)
         | Some n \<Rightarrow>
             if n = -1 then (deny ''user_channel_cap_hit'', denied s1)
             else if n = -2 then (deny ''did_channel_cap_hit'', denied s1)
             else if n \<noteq> 1 then (deny ''reservation_unknown'', s1)
             else let picked = (if kind = RouteAudioGroup
                                then (case o_group ord of
                                        None \<Rightarrow> (None, s1)
                                      | Some g \<Rightarrow> (case pick_group env g s1 of
                                            (None, s2) \<Rightarrow> (None, s2)
                                          | (Some fname, s2) \<Rightarrow> (Some (''didstorage/'' @ fname), s2)))
                                else (Some (o_target ord), s1))
                  in case picked of
                       (None, s2) \<Rightarrow> (deny ''reservation_misconfigured'', s2)
                     | (Some target, s2) \<Rightarrow>
                         let ac = \<lparr>ac_call_id = sanitize_call_id (rq_call_id req), ac_full = rq_call_id req,
                                   ac_started = 0, ac_user = o_user ord, ac_order = oid, ac_did = did_id,
                                   ac_supplier = sid, ac_e164 = e164, ac_src_ip = rq_src_ip req,
                                   ac_src_uri = rq_from req, ac_kind = route_kind_text kind, ac_target = target,
                                   ac_reserved = False, ac_rate = rate, ac_channel = rq_channel req,
                                   ac_last_action = []\<rparr>;
                             dial_kind = (if kind = RouteAudioGroup then RouteAudio else kind)
                         in (no_response\<lparr>rs_decision := ''allow'', rs_reservation := rq_call_id req,
                               rs_max_seconds := max_seconds, rs_kind := route_kind_text dial_kind,
                               rs_target := target,
                               rs_pop := (case o_pop ord of None \<Rightarrow> 0 | Some p \<Rightarrow> p), rs_rate := rate\<rparr>,
                             register_call env ac s2))"

text \<open>The gates on the order, the user and the balance.\<close>

definition decide_order ::
  "sip_env \<Rightarrow> auth_request \<Rightarrow> string \<Rightarrow> db_id \<Rightarrow> did_row \<Rightarrow> sip_state \<Rightarrow> auth_response \<times> sip_state" where
  "decide_order env req e164 did_id did s =
     (let sid = d_supplier did in
      if se_fault env FOrder then (deny ''lookup_error'', s)
      else case find_order (se_choice env FOrder) did_id (ss_db s) of
        None \<Rightarrow> (deny ''did_not_assigned'',
                 denied_call env req ''did_not_assigned''
                   (unbilled_cdr env req sid did_id ''did_not_assigned'' [] [] s))
      | Some (oid, ord, usr, rc) \<Rightarrow>
          let denied = (\<lambda>reason. denial_cdr env req oid (o_user ord) sid did_id (r_per_minute rc) reason
                                   (route_kind_text (o_kind ord)) (o_target ord) s);
              max_seconds = max_seconds_for_balance (u_balance usr) (r_per_minute rc)
          in if o_status ord = OrdKycPending then (deny ''kyc_pending'', denied ''kyc_pending'')
             else if o_status ord = OrdQuarantined then (deny ''quarantined'', denied ''quarantined'')
             else if u_status usr \<noteq> ''active'' then (deny ''user_blocked'', denied ''user_blocked'')
             else if max_seconds < se_min_seconds env
             then (deny ''insufficient_balance'', denied ''insufficient_balance'')
             else admit_call env req e164 did_id sid oid ord usr rc max_seconds s)"

definition decide :: "sip_env \<Rightarrow> auth_request \<Rightarrow> sip_state \<Rightarrow> auth_response \<times> sip_state" where
  "decide env req s =
     (let e164 = parse_e164 (rq_to req) in
      if e164 = [] then (deny ''bad_to_uri'', denied_call env req ''bad_to_uri'' s)
      else case parse_ip (rq_src_ip req) of
        None \<Rightarrow> (deny ''bad_src_ip'', denied_call env req ''bad_src_ip'' s)
      | Some src \<Rightarrow>
          if se_fault env FDid then (deny ''lookup_error'', s)
          else case tbl_find (\<lambda>_ d. d_e164 d = e164) (dids (ss_db s)) of
            None \<Rightarrow> (deny ''unknown_did'', denied_call env req ''unknown_did'' s)
          | Some (did_id, did) \<Rightarrow>
              let (ok, hosts) = supplier_ip_allowed (se_nanos env) (se_dns env) (se_fault env FAclCidr)
                                  (se_fault env FAclHosts) (d_supplier did) src (ss_db s) (ss_hosts s);
                  s1 = s\<lparr>ss_hosts := hosts\<rparr>
              in if \<not> ok then (deny ''src_ip_not_authorized'', denied_call env req ''unauthorized_ip'' s1)
                 else if d_status did = DidReserved then decide_reserved env req e164 did_id did s1
                 else if d_status did \<noteq> DidAssigned
                 then (deny ''did_not_assigned'',
                       denied_call env req ''did_not_assigned''
                         (unbilled_cdr env req (d_supplier did) did_id ''did_not_assigned'' [] [] s1))
                 else decide_order env req e164 did_id did s1)"

text \<open>The HTTP layer of \<open>/authorize\<close>: the shared token, then the JSON body (\<open>None\<close>: malformed).\<close>

definition authorize ::
  "string \<Rightarrow> sip_env \<Rightarrow> string \<Rightarrow> auth_request option \<Rightarrow> sip_state \<Rightarrow> (int \<times> auth_response option) \<times> sip_state" where
  "authorize token env header body s =
     (if header \<noteq> token then ((403, None), s)
      else case body of
        None \<Rightarrow> ((400, Some (no_response\<lparr>rs_decision := ''deny'', rs_reason := ''bad_json''\<rparr>)), s)
      | Some req \<Rightarrow> let (resp, s') = decide env req s in ((200, Some resp), s'))"

subsection \<open>\<open>/cdr\<close>\<close>

record cdr_request =
  cr_call_id :: string
  cr_reservation :: string
  cr_started :: unix_time
  cr_answered :: unix_time
  cr_ended :: unix_time
  cr_billsec :: int
  cr_cause :: string
  cr_src :: string
  cr_dst :: string

datatype cdr_reply = CdrOk cents | CdrNoMatch | CdrBadJson | CdrInternal

type_synonym admin_stamp = "string option \<times> db_id option \<times> string option"

text \<open>The pending admin action, consumed on the way; any Redis or JSON error loses the label.\<close>

definition pop_admin :: "sip_env \<Rightarrow> string \<Rightarrow> redis \<Rightarrow> admin_stamp \<times> redis" where
  "pop_admin env cid r =
     (case pop_pending (se_now env) (se_fault env FPop) cid r of
        (Inr (Some pa), r') \<Rightarrow>
          ((Some (pa_action pa), if 0 < pa_admin pa then Some (pa_admin pa) else None,
            if pa_reason pa \<noteq> [] then Some (pa_reason pa) else None), r')
      | (_, r') \<Rightarrow> ((None, None, None), r'))"

text \<open>The cast \<open>$n::user_block_action\<close> accepts NULL and the labels of the enum.\<close>

definition block_action_ok :: "string option \<Rightarrow> bool" where
  "block_action_ok a \<longleftrightarrow>
     (case a of None \<Rightarrow> True
      | Some l \<Rightarrow> l \<in> {''block'', ''unblock'', ''live_hangup'', ''live_warn'', ''live_redirect''})"

definition coalesce :: "'a option \<Rightarrow> 'a option \<Rightarrow> 'a option" where
  "coalesce a b = (case a of None \<Rightarrow> b | Some _ \<Rightarrow> a)"

definition stamp_admin :: "admin_stamp \<Rightarrow> cdr_row \<Rightarrow> cdr_row" where
  "stamp_admin st c =
     c\<lparr>c_admin_action := coalesce (fst st) (c_admin_action c),
       c_admin_by := coalesce (fst (snd st)) (c_admin_by c),
       c_admin_reason := coalesce (snd (snd st)) (c_admin_reason c)\<rparr>"

definition answered_of :: "cdr_request \<Rightarrow> unix_time option" where
  "answered_of req = (if 0 < cr_answered req then Some (cr_answered req) else None)"

text \<open>\<open>COALESCE(NULLIF(new, ''), old)\<close>.\<close>

definition non_empty_or :: "string \<Rightarrow> string \<Rightarrow> string" where
  "non_empty_or new old = (if new = [] then old else new)"

definition fill_row :: "cdr_request \<Rightarrow> admin_stamp \<Rightarrow> cdr_row \<Rightarrow> cdr_row" where
  "fill_row req st c =
     stamp_admin st (c\<lparr>c_started := min (c_started c) (cr_started req), c_answered := answered_of req,
       c_ended := Some (cr_ended req), c_billsec := cr_billsec req,
       c_cause := non_empty_or (cr_cause req) (c_cause c), c_src := non_empty_or (cr_src req) (c_src c),
       c_dst := non_empty_or (cr_dst req) (c_dst c)\<rparr>)"

definition fill_unbilled_cdr :: "sip_env \<Rightarrow> string \<Rightarrow> cdr_request \<Rightarrow> sip_state \<Rightarrow> sip_state" where
  "fill_unbilled_cdr env cid req s =
     (if cr_billsec req \<le> 0 \<and> cr_answered req = 0 \<and> cr_ended req = 0 then s
      else let (st, r) = pop_admin env cid (ss_redis s); s1 = s\<lparr>ss_redis := r\<rparr>
           in if se_fault env FFill \<or> \<not> block_action_ok (fst st) then s1
              else s1\<lparr>ss_db := (ss_db s1)\<lparr>cdrs :=
                     tbl_upd_where (\<lambda>_ c. c_call_id c = cid) (fill_row req st) (cdrs (ss_db s1))\<rparr>\<rparr>)"

text \<open>
  The order the call is billed to: the one an earlier row of the same call names, or an
  active order of the dialled number.
\<close>

definition cdr_lookup ::
  "sip_env \<Rightarrow> string \<Rightarrow> string \<Rightarrow> db \<Rightarrow> (db_id \<times> order_row \<times> did_row \<times> rate_row) option" where
  "cdr_lookup env cid e164 d =
     (let shell = (case tbl_find (\<lambda>_ c. c_call_id c = cid) (cdrs d) of None \<Rightarrow> None | Some (_, c) \<Rightarrow> c_order c);
          active = limit1 (se_choice env FCdrInner)
                     (map fst (filter (\<lambda>(_, o'). o_status o' = OrdActive \<and>
                        (case tbl_get (dids d) (o_did o') of None \<Rightarrow> False | Some x \<Rightarrow> d_e164 x = e164)) (orders d)))
      in limit1 (se_choice env FCdrLookup)
           (List.map_filter (\<lambda>(oid, o').
              if shell = Some oid \<or> active = Some oid
              then (case (tbl_get (dids d) (o_did o'), tbl_get (rate_cards d) (o_rate_card o')) of
                      (Some x, Some rc) \<Rightarrow> Some (oid, o', x, rc)
                    | _ \<Rightarrow> None)
              else None) (orders d)))"

definition billed_cdr ::
  "cdr_request \<Rightarrow> db_id \<Rightarrow> order_row \<Rightarrow> did_row \<Rightarrow> rate_row \<Rightarrow> admin_stamp \<Rightarrow> cdr_row" where
  "billed_cdr req oid ord did rc st =
     (let (_, minutes, charge) = charge_for_call (cr_billsec req) (r_bill_min rc) (r_bill_inc rc) (r_per_minute rc)
      in \<lparr>c_call_id = sanitize_call_id (cr_call_id req), c_order = Some oid, c_user = Some (o_user ord),
          c_supplier = d_supplier did, c_did = Some (o_did ord), c_pop = o_pop ord,
          c_routed_kind = Some (o_kind ord), c_routed_target = Some (o_target ord),
          c_started = cr_started req, c_answered = answered_of req, c_ended = Some (cr_ended req),
          c_billsec = cr_billsec req, c_minutes = minutes, c_rate = r_per_minute rc, c_charge = charge,
          c_bill_min = Some (r_bill_min rc), c_bill_inc = Some (r_bill_inc rc),
          c_sup_charge = Some (supplier_charge_for_call (cr_billsec req) (r_sup_bill_min rc)
                                 (r_sup_bill_inc rc) (r_sup_per_minute rc)),
          c_sup_bill_min = Some (r_sup_bill_min rc), c_sup_bill_inc = Some (r_sup_bill_inc rc),
          c_cause = cr_cause req, c_src = cr_src req, c_dst = cr_dst req,
          c_admin_action = fst st, c_admin_by = fst (snd st), c_admin_reason = snd (snd st)\<rparr>)"

text \<open>\<open>INSERT .. ON CONFLICT (call_id) DO UPDATE SET admin_* = COALESCE(..)\<close>.\<close>

definition upsert_cdr :: "admin_stamp \<Rightarrow> cdr_row \<Rightarrow> db \<Rightarrow> db" where
  "upsert_cdr st c d =
     (if tbl_find (\<lambda>_ x. c_call_id x = c_call_id c) (cdrs d) = None
      then d\<lparr>cdrs := tbl_insert c (cdrs d)\<rparr>
      else d\<lparr>cdrs := tbl_upd_where (\<lambda>_ x. c_call_id x = c_call_id c) (stamp_admin st) (cdrs d)\<rparr>)"

definition cdr_id :: "string \<Rightarrow> db \<Rightarrow> db_id option" where
  "cdr_id cid d = map_option fst (tbl_find (\<lambda>_ c. c_call_id c = cid) (cdrs d))"

text \<open>The debit: the balance first, then the ledger row with the balance it left.\<close>

definition post_charge :: "db_id \<Rightarrow> string \<Rightarrow> cents \<Rightarrow> db \<Rightarrow> db option" where
  "post_charge uid cid charge d =
     (let d1 = d\<lparr>users := tbl_upd uid (\<lambda>u. u\<lparr>u_balance := u_balance u - charge\<rparr>) (users d)\<rparr> in
      case tbl_get (users d1) uid of
        None \<Rightarrow> None
      | Some u \<Rightarrow> Some (add_ledger \<lparr>l_user = uid, l_delta = - charge, l_kind = LedgerCallCharge,
                          l_ref_table = ''cdrs'', l_ref_id = cdr_id cid d1, l_after = u_balance u\<rparr> d1))"

text \<open>The transaction that bills a call to an order.\<close>

definition bill_call ::
  "sip_env \<Rightarrow> cdr_request \<Rightarrow> db_id \<Rightarrow> order_row \<Rightarrow> did_row \<Rightarrow> rate_row \<Rightarrow> sip_state \<Rightarrow> cdr_reply \<times> sip_state" where
  "bill_call env req oid ord did rc s =
     (let cid = sanitize_call_id (cr_call_id req);
          (st, r) = pop_admin env cid (ss_redis s);
          s1 = s\<lparr>ss_redis := r\<rparr>;
          row = billed_cdr req oid ord did rc st;
          d1 = upsert_cdr st row (ss_db s1)
      in if se_fault env FBegin \<or> se_fault env FCdrInsert \<or> \<not> block_action_ok (fst st) then (CdrInternal, s1)
         else if 0 < c_charge row
         then (case post_charge (o_user ord) cid (c_charge row) d1 of
                 None \<Rightarrow> (CdrInternal, s1)
               | Some d2 \<Rightarrow>
                   if se_fault env FBalance \<or> se_fault env FLedger \<or> se_fault env FCommit
                   then (CdrInternal, s1) else (CdrOk (c_charge row), s1\<lparr>ss_db := d2\<rparr>))
         else if se_fault env FCommit then (CdrInternal, s1)
         else (CdrOk (c_charge row), s1\<lparr>ss_db := d1\<rparr>))"

text \<open>The deferred clean-up: the reservation under the raw Call-ID, the live index under the sanitised one.\<close>

definition cdr_release :: "sip_env \<Rightarrow> string \<Rightarrow> sip_state \<Rightarrow> sip_state" where
  "cdr_release env cid s =
     (let r1 = snd (release_channel_by_call_id (se_now env) cid (se_pages env) (ss_redis s));
          r2 = snd (live_deregister (se_fault env FDeregister) (sanitize_call_id cid) r1)
      in s\<lparr>ss_redis := r2\<rparr>)"

definition cdr_body :: "sip_env \<Rightarrow> cdr_request \<Rightarrow> sip_state \<Rightarrow> cdr_reply \<times> sip_state" where
  "cdr_body env req s =
     (let cid = sanitize_call_id (cr_call_id req) in
      if se_fault env FCdrLookup then (CdrNoMatch, s)
      else case cdr_lookup env cid (parse_e164 (cr_dst req)) (ss_db s) of
        None \<Rightarrow> (CdrOk 0, fill_unbilled_cdr env cid req s)
      | Some (oid, ord, did, rc) \<Rightarrow> bill_call env req oid ord did rc s)"

definition cdr_handler :: "sip_env \<Rightarrow> cdr_request option \<Rightarrow> sip_state \<Rightarrow> cdr_reply \<times> sip_state" where
  "cdr_handler env body s =
     (case body of
        None \<Rightarrow> (CdrBadJson, s)
      | Some req \<Rightarrow> let (reply, s') = cdr_body env req s in (reply, cdr_release env (cr_call_id req) s'))"

definition cdr_endpoint ::
  "string \<Rightarrow> sip_env \<Rightarrow> string \<Rightarrow> cdr_request option \<Rightarrow> sip_state \<Rightarrow> cdr_reply option \<times> sip_state" where
  "cdr_endpoint token env header body s =
     (if header \<noteq> token then (None, s)
      else let (reply, s') = cdr_handler env body s in (Some reply, s'))"

end
