(* ===== verification/Call_Control.thy ===== *)
theory Call_Control
  imports Sipctl
begin

text \<open>
  The properties of the control plane: what \<open>/authorize\<close> may touch and whom it lets in, the
  channel caps, the audit rows of denials, the money \<open>/cdr\<close> moves, and the reservations the
  hang-up releases.
\<close>

lemma deny_simps [simp]:
  "rs_decision (deny r) = ''deny''" "rs_reason (deny r) = r"
  by (simp_all add: deny_def no_response_def)

subsection \<open>What an authorisation may touch\<close>

text \<open>The audit tables grow, everything else in the database stays.\<close>

definition audit_extends :: "db \<Rightarrow> db \<Rightarrow> bool" where
  "audit_extends d e \<longleftrightarrow>
     (\<exists>xs ys. e = d\<lparr>cdrs := cdrs d @ xs, denied_calls := denied_calls d @ ys\<rparr>)"

lemma audit_extendsI: "audit_extends d (d\<lparr>cdrs := cdrs d @ xs, denied_calls := denied_calls d @ ys\<rparr>)"
  unfolding audit_extends_def by blast

lemma audit_extends_refl [simp, inv_intros]: "audit_extends d d"
  using audit_extendsI [of d "[]" "[]"] by simp

lemma audit_extends_trans: "audit_extends d e \<Longrightarrow> audit_extends e f \<Longrightarrow> audit_extends d f"
  unfolding audit_extends_def by fastforce

lemma audit_extends_sel:
  assumes "audit_extends d e"
  shows "users e = users d" "ledger e = ledger d" "orders e = orders d" "rate_cards e = rate_cards d"
    "dids e = dids d" "billing_runs e = billing_runs d" "acl e = acl d"
    "audio_files e = audio_files d" "audio_members e = audio_members d"
  using assms unfolding audit_extends_def by auto

lemma audit_add_denied: "audit_extends d (d\<lparr>denied_calls := denied_calls d @ ys\<rparr>)"
  using audit_extendsI [where xs = "[]"] by simp

lemma audit_add_cdr: "audit_extends d (d\<lparr>cdrs := cdrs d @ xs\<rparr>)"
  using audit_extendsI [where ys = "[]"] by simp

lemma audit_denied_call [inv_intros]:
  "audit_extends d (ss_db s) \<Longrightarrow> audit_extends d (ss_db (denied_call env req r s))"
  by (erule audit_extends_trans) (simp add: denied_call_def Let_def audit_add_denied)

lemma audit_insert_cdr: "audit_extends d e \<Longrightarrow> audit_extends d (insert_cdr c e)"
  by (erule audit_extends_trans) (simp add: insert_cdr_def audit_add_cdr tbl_insert_def)

lemma audit_unbilled [inv_intros]:
  "audit_extends d (ss_db s) \<Longrightarrow> audit_extends d (ss_db (unbilled_cdr env req a b c k t s))"
  by (simp add: unbilled_cdr_def audit_insert_cdr split: option.split)

lemma audit_denial [inv_intros]:
  "audit_extends d (ss_db s) \<Longrightarrow> audit_extends d (ss_db (denial_cdr env req a b c e f g k t s))"
  unfolding denial_cdr_def
  by (rule audit_denied_call) (simp add: audit_insert_cdr split: option.split)

lemma pick_group_db [simp]: "ss_db (snd (pick_group env g s)) = ss_db s"
  "ss_hosts (snd (pick_group env g s)) = ss_hosts s"
  by (simp_all add: pick_group_def Let_def split: prod.split)

lemma pick_group_dbE: "pick_group env g s = (f, s') \<Longrightarrow> ss_db s' = ss_db s"
  by (metis pick_group_db(1) snd_conv)

lemma register_call_db [simp]: "ss_db (register_call env ac s) = ss_db s"
  "ss_hosts (register_call env ac s) = ss_hosts s"
  by (simp_all add: register_call_def)

lemma audit_reserved [inv_intros]:
  "audit_extends d (ss_db s) \<Longrightarrow> audit_extends d (ss_db (snd (decide_reserved env req e i did s)))"
  unfolding decide_reserved_def
  by (auto simp: Let_def intro!: inv_intros dest: pick_group_dbE split: option.split prod.split)

lemma audit_admit [inv_intros]:
  "audit_extends d (ss_db s) \<Longrightarrow>
     audit_extends d (ss_db (snd (admit_call env req e i sid oid ord usr rc m s)))"
  unfolding admit_call_def
  by (auto simp: Let_def intro!: inv_intros dest: pick_group_dbE split: option.split prod.split)

lemma audit_order [inv_intros]:
  "audit_extends d (ss_db s) \<Longrightarrow> audit_extends d (ss_db (snd (decide_order env req e i did s)))"
  unfolding decide_order_def
  by (auto simp: Let_def intro!: inv_intros split: option.split prod.split)

lemma authorize_only_audits_lemma: "audit_extends (ss_db s) (ss_db (snd (decide env req s)))"
  unfolding decide_def
  by (auto simp: Let_def intro!: inv_intros split: option.split prod.split)

text \<open>
  An authorisation moves no money and edits nothing: whatever it decides and whatever
  fails, balances, ledger, orders, DIDs and rates stay as they were, and the audit tables
  \<open>cdrs\<close> and \<open>denied_calls\<close> only gain rows at the end.
\<close>

theorem authorize_only_audits:
  "audit_extends (ss_db s) (ss_db (snd (decide env req s))) \<and>
   users (ss_db (snd (decide env req s))) = users (ss_db s) \<and>
   ledger (ss_db (snd (decide env req s))) = ledger (ss_db s)"
  using authorize_only_audits_lemma [of s env req] by (simp add: audit_extends_sel)

subsection \<open>Whom an authorisation lets in\<close>

lemma limit1_in: "limit1 n xs = Some x \<Longrightarrow> x \<in> set xs"
  by (auto simp: limit1_def split: if_splits)

lemma limit1_None [simp]: "limit1 n xs = None \<longleftrightarrow> xs = []"
  by (simp add: limit1_def)

lemma callable_orders_iff:
  "(oid, ord, u, rc) \<in> set (callable_orders did d) \<longleftrightarrow>
     (oid, ord) \<in> set (orders d) \<and> o_did ord = did \<and>
     o_status ord \<in> {OrdActive, OrdQuarantined, OrdKycPending} \<and>
     tbl_get (users d) (o_user ord) = Some u \<and> tbl_get (rate_cards d) (o_rate_card ord) = Some rc"
  unfolding callable_orders_def in_map_filter
  by (force split: if_splits option.splits)

lemma find_order_in: "find_order n did d = Some x \<Longrightarrow> x \<in> set (callable_orders did d)"
  unfolding find_order_def Let_def by (auto dest!: limit1_in set_takeWhileD)

lemma takeWhile_hd_Nil: "takeWhile (\<lambda>x. f x = f (hd xs)) xs = [] \<longleftrightarrow> xs = []"
  by (cases xs) auto

lemma find_order_None: "find_order n did d = None \<longleftrightarrow> callable_orders did d = []"
  by (simp add: find_order_def Let_def takeWhile_hd_Nil)

text \<open>The lookup prefers an active order over a quarantined one over a KYC-pending one.\<close>

lemma find_order_best:
  assumes "find_order n did d = Some x" "y \<in> set (callable_orders did d)"
  shows "row_rank x \<le> row_rank y"
proof -
  let ?xs = "sort_key row_rank (callable_orders did d)"
  have "x \<in> set (takeWhile (\<lambda>x. row_rank x = row_rank (hd ?xs)) ?xs)"
    using assms(1) unfolding find_order_def Let_def by (rule limit1_in)
  then have "row_rank (hd ?xs) = row_rank x" by (auto dest: set_takeWhileD)
  moreover have "y \<in> set ?xs" using assms(2) by simp
  moreover have "sorted (map row_rank ?xs)" by (rule sorted_sort_key)
  ultimately show ?thesis by (cases ?xs) auto
qed

lemma reserve_channel_1:
  assumes "reserve_channel now fails uid did cid ucap dcap r = (Some 1, r')"
  shows "0 \<le> ucap \<Longrightarrow> int (card (set_members now r (user_key uid))) < ucap"
    and "int (card (set_members now r (did_key did))) < dcap"
    and "set_members now r' k = (if k = user_key uid \<or> k = did_key did then insert cid (set_members now r k)
           else set_members now r k)"
    and "rd_meta r' = rd_meta r" "rd_active r' = rd_active r" "rd_pending r' = rd_pending r"
  using assms
  by (auto simp: reserve_channel_def reserve_lua_def Let_def split: if_splits)

lemma reserve_channel_no:
  assumes "reserve_channel now fails uid did cid ucap dcap r = (res, r')" "res \<noteq> Some 1"
  shows "r' = r" "res = None \<or> res = Some (-1) \<or> res = Some (-2)"
  using assms by (auto simp: reserve_channel_def reserve_lua_def Let_def split: if_splits)

lemma admit_call_allow:
  assumes "admit_call env req e i sid oid ord usr rc m s = (resp, s')" "rs_decision resp = ''allow''"
  shows "\<exists>r. reserve_channel (se_now env) (se_fault env FReserve) (o_user ord) i (rq_call_id req) (u_cap usr)
           (o_channels ord) (ss_redis s) = (Some 1, r)" "rs_max_seconds resp = m"
    "rs_reservation resp = rq_call_id req" "rs_rate resp = r_per_minute rc"
proof -
  obtain res r where rc: "reserve_channel (se_now env) (se_fault env FReserve) (o_user ord) i (rq_call_id req)
      (u_cap usr) (o_channels ord) (ss_redis s) = (res, r)" by (meson surj_pair)
  show "\<exists>r. reserve_channel (se_now env) (se_fault env FReserve) (o_user ord) i (rq_call_id req) (u_cap usr)
      (o_channels ord) (ss_redis s) = (Some 1, r)"
  proof (rule ccontr)
    assume "\<not> ?thesis"
    with rc have "res \<noteq> Some 1" by auto
    with reserve_channel_no(2) [OF rc] have "res \<in> {None, Some (-1), Some (-2)}" by auto
    with assms rc show False by (auto simp: admit_call_def Let_def)
  qed
  show "rs_max_seconds resp = m" "rs_reservation resp = rq_call_id req" "rs_rate resp = r_per_minute rc"
    using assms by (auto simp: admit_call_def Let_def split: if_splits prod.splits option.splits)
qed

lemma decide_order_allow:
  assumes "decide_order env req e i did s = (resp, s')" "rs_decision resp = ''allow''"
  obtains oid ord usr rc where
    "find_order (se_choice env FOrder) i (ss_db s) = Some (oid, ord, usr, rc)"
    "o_status ord = OrdActive" "u_status usr = ''active''"
    "se_min_seconds env \<le> max_seconds_for_balance (u_balance usr) (r_per_minute rc)"
    "admit_call env req e i (d_supplier did) oid ord usr rc
       (max_seconds_for_balance (u_balance usr) (r_per_minute rc)) s = (resp, s')"
proof -
  obtain oid ord usr rc where fo: "find_order (se_choice env FOrder) i (ss_db s) = Some (oid, ord, usr, rc)"
    using assms by (auto simp: decide_order_def Let_def split: if_splits option.splits)
  from find_order_in [OF this] have "o_status ord \<in> {OrdActive, OrdQuarantined, OrdKycPending}"
    by (simp add: callable_orders_iff)
  with fo assms that [OF fo] show ?thesis
    by (auto simp: decide_order_def Let_def split: if_splits)
qed

lemma decide_allow_cases:
  assumes "decide env req s = (resp, s')" "rs_decision resp = ''allow''"
  obtains src did_id did hosts where
    "parse_ip (rq_src_ip req) = Some src" "parse_e164 (rq_to req) \<noteq> []"
    "tbl_find (\<lambda>_ d. d_e164 d = parse_e164 (rq_to req)) (dids (ss_db s)) = Some (did_id, did)"
    "supplier_ip_allowed (se_nanos env) (se_dns env) (se_fault env FAclCidr) (se_fault env FAclHosts)
       (d_supplier did) src (ss_db s) (ss_hosts s) = (True, hosts)"
    "d_status did = DidReserved \<and>
       decide_reserved env req (parse_e164 (rq_to req)) did_id did (s\<lparr>ss_hosts := hosts\<rparr>) = (resp, s') \<or>
     d_status did = DidAssigned \<and>
       decide_order env req (parse_e164 (rq_to req)) did_id did (s\<lparr>ss_hosts := hosts\<rparr>) = (resp, s')"
  using assms by (auto simp: decide_def Let_def split: if_splits option.splits prod.splits)

text \<open>
  C6: whom an authorisation lets in: an allowed call dials a number in the inventory from an
  address on that supplier's allow-list; the number is reserved by an admin, or it carries
  an active order of an active user whose balance pays for at least the configured minimum
  at the order's rate, the answer's time limit is what the balance pays for, and both the
  user's and the order's channel cap had room.
\<close>

theorem authorize_allow_sound:
  assumes "decide env req s = (resp, s')" "rs_decision resp = ''allow''"
  shows "\<exists>src did_id did. parse_ip (rq_src_ip req) = Some src \<and>
    (did_id, did) \<in> set (dids (ss_db s)) \<and> d_e164 did = parse_e164 (rq_to req) \<and>
    fst (supplier_ip_allowed (se_nanos env) (se_dns env) (se_fault env FAclCidr) (se_fault env FAclHosts)
           (d_supplier did) src (ss_db s) (ss_hosts s)) \<and>
    (d_status did = DidReserved \<or>
     d_status did = DidAssigned \<and>
     (\<exists>oid ord usr rc. (oid, ord) \<in> set (orders (ss_db s)) \<and> o_did ord = did_id \<and> o_status ord = OrdActive \<and>
        tbl_get (users (ss_db s)) (o_user ord) = Some usr \<and> u_status usr = ''active'' \<and>
        tbl_get (rate_cards (ss_db s)) (o_rate_card ord) = Some rc \<and>
        rs_max_seconds resp = max_seconds_for_balance (u_balance usr) (r_per_minute rc) \<and>
        se_min_seconds env \<le> rs_max_seconds resp \<and>
        (u_cap usr < 0 \<or>
         int (card (set_members (se_now env) (ss_redis s) (user_key (o_user ord)))) < u_cap usr) \<and>
        int (card (set_members (se_now env) (ss_redis s) (did_key did_id))) < o_channels ord))"
  using assms
proof (cases rule: decide_allow_cases)
  case (1 src did_id did hosts)
  have did: "(did_id, did) \<in> set (dids (ss_db s))" "d_e164 did = parse_e164 (rq_to req)"
    using tbl_find_Some [OF 1(3)] by auto
  from 1(5) show ?thesis
  proof
    assume "d_status did = DidAssigned \<and>
      decide_order env req (parse_e164 (rq_to req)) did_id did (s\<lparr>ss_hosts := hosts\<rparr>) = (resp, s')"
    then have st: "d_status did = DidAssigned" and
      "decide_order env req (parse_e164 (rq_to req)) did_id did (s\<lparr>ss_hosts := hosts\<rparr>) = (resp, s')" by auto
    from this(2) assms(2) show ?thesis
    proof (cases rule: decide_order_allow)
      case (1 oid ord usr rc)
      have "(oid, ord) \<in> set (orders (ss_db s))" "o_did ord = did_id"
        "tbl_get (users (ss_db s)) (o_user ord) = Some usr"
        "tbl_get (rate_cards (ss_db s)) (o_rate_card ord) = Some rc"
        using find_order_in [OF 1(1)] by (simp_all add: callable_orders_iff)
      moreover obtain r where "reserve_channel (se_now env) (se_fault env FReserve) (o_user ord) did_id
        (rq_call_id req) (u_cap usr) (o_channels ord) (ss_redis s) = (Some 1, r)"
        using admit_call_allow(1) [OF 1(5) assms(2)] by auto
      note reserve_channel_1(1,2) [OF this]
      moreover have "rs_max_seconds resp = max_seconds_for_balance (u_balance usr) (r_per_minute rc)"
        by (rule admit_call_allow(2) [OF 1(5) assms(2)])
      ultimately show ?thesis
        using \<open>parse_ip (rq_src_ip req) = Some src\<close> did st 1(2-4)
          \<open>supplier_ip_allowed (se_nanos env) (se_dns env) (se_fault env FAclCidr) (se_fault env FAclHosts)
             (d_supplier did) src (ss_db s) (ss_hosts s) = (True, hosts)\<close>
        by (metis fst_conv not_le)
    qed
  qed (use 1 did in force)
qed

subsection \<open>The channel caps\<close>

lemma denied_call_redis [simp]: "ss_redis (denied_call env req r s) = ss_redis s"
  by (simp add: denied_call_def Let_def)

lemma unbilled_redis [simp]: "ss_redis (unbilled_cdr env req a b c k t s) = ss_redis s"
  by (simp add: unbilled_cdr_def split: option.split)

lemma denial_redis [simp]: "ss_redis (denial_cdr env req a b c e f g k t s) = ss_redis s"
  by (simp add: denial_cdr_def split: option.split)

lemma pick_member_frame:
  "rd_sets (snd (pick_member n f g d r)) = rd_sets r" "rd_active (snd (pick_member n f g d r)) = rd_active r"
  "rd_meta (snd (pick_member n f g d r)) = rd_meta r" "rd_pending (snd (pick_member n f g d r)) = rd_pending r"
  by (simp_all add: pick_member_def Let_def)

lemma pick_group_redis:
  assumes "pick_group env g s = (f, s')"
  shows "rd_sets (ss_redis s') = rd_sets (ss_redis s)" "rd_active (ss_redis s') = rd_active (ss_redis s)"
    "rd_meta (ss_redis s') = rd_meta (ss_redis s)" "rd_pending (ss_redis s') = rd_pending (ss_redis s)"
  using assms pick_member_frame [of "se_nanos env" "pick_env env" g "ss_db s" "ss_redis s"]
  by (auto simp: pick_group_def Let_def split: prod.splits)

lemma live_register_sets [simp]: "rd_sets (snd (live_register now f ac r)) = rd_sets r"
  by (simp add: live_register_def Let_def)

lemma register_call_sets [simp]: "rd_sets (ss_redis (register_call env ac s)) = rd_sets (ss_redis s)"
  by (simp add: register_call_def)

lemma reserved_sets: "rd_sets (ss_redis (snd (decide_reserved env req e i did s))) = rd_sets (ss_redis s)"
  unfolding decide_reserved_def
  by (auto simp: Let_def dest: pick_group_redis(1) split: option.split prod.split)

lemma admit_sets:
  assumes "reserve_channel (se_now env) (se_fault env FReserve) (o_user ord) i (rq_call_id req) (u_cap usr)
      (o_channels ord) (ss_redis s) = (res, r)"
  shows "rd_sets (ss_redis (snd (admit_call env req e i sid oid ord usr rc m s))) = rd_sets r"
  unfolding admit_call_def assms
  by (auto simp: Let_def dest: pick_group_redis(1) split: option.split prod.split)

lemma order_sets:
  assumes "decide_order env req e i did s = (resp, s')"
  shows "rd_sets (ss_redis s') = rd_sets (ss_redis s) \<or>
    (\<exists>oid ord usr rc r. find_order (se_choice env FOrder) i (ss_db s) = Some (oid, ord, usr, rc) \<and>
       o_status ord = OrdActive \<and>
       reserve_channel (se_now env) (se_fault env FReserve) (o_user ord) i (rq_call_id req) (u_cap usr)
         (o_channels ord) (ss_redis s) = (Some 1, r) \<and> rd_sets (ss_redis s') = rd_sets r)"
proof (cases "se_fault env FOrder \<or> find_order (se_choice env FOrder) i (ss_db s) = None")
  case True
  with assms show ?thesis by (auto simp: decide_order_def Let_def split: if_splits)
next
  case False
  then obtain oid ord usr rc where fo: "find_order (se_choice env FOrder) i (ss_db s) = Some (oid, ord, usr, rc)"
    by auto
  let ?m = "max_seconds_for_balance (u_balance usr) (r_per_minute rc)"
  have st: "o_status ord \<in> {OrdActive, OrdQuarantined, OrdKycPending}"
    using find_order_in [OF fo] by (simp add: callable_orders_iff)
  obtain res r where rs: "reserve_channel (se_now env) (se_fault env FReserve) (o_user ord) i (rq_call_id req)
      (u_cap usr) (o_channels ord) (ss_redis s) = (res, r)" by (meson surj_pair)
  have "rd_sets (ss_redis s') = rd_sets (ss_redis s) \<or> o_status ord = OrdActive \<and>
      snd (admit_call env req e i (d_supplier did) oid ord usr rc ?m s) = s'"
    using assms False fo st by (auto simp: decide_order_def Let_def split: if_splits)
  then show ?thesis
  proof
    assume a: "o_status ord = OrdActive \<and> snd (admit_call env req e i (d_supplier did) oid ord usr rc ?m s) = s'"
    then have "rd_sets (ss_redis s') = rd_sets r" using admit_sets [OF rs] by auto
    then show ?thesis
      using a fo rs reserve_channel_no(1) [OF rs] by (cases "res = Some 1") auto
  qed simp
qed

lemma decide_cases:
  assumes "decide env req s = (resp, s')"
  obtains (early) reason where "resp = deny reason" "ss_redis s' = ss_redis s"
  | (reserved) i did hosts where "d_status did = DidReserved"
      "decide_reserved env req (parse_e164 (rq_to req)) i did (s\<lparr>ss_hosts := hosts\<rparr>) = (resp, s')"
  | (ordered) i did hosts where "d_status did = DidAssigned"
      "decide_order env req (parse_e164 (rq_to req)) i did (s\<lparr>ss_hosts := hosts\<rparr>) = (resp, s')"
proof (cases "parse_e164 (rq_to req) = [] \<or> parse_ip (rq_src_ip req) = None \<or> se_fault env FDid \<or>
    tbl_find (\<lambda>_ d. d_e164 d = parse_e164 (rq_to req)) (dids (ss_db s)) = None")
  case True
  with assms early show ?thesis by (auto simp: decide_def Let_def split: if_splits option.splits prod.splits)
next
  case False
  then obtain src i did where d: "parse_ip (rq_src_ip req) = Some src"
    "tbl_find (\<lambda>_ d. d_e164 d = parse_e164 (rq_to req)) (dids (ss_db s)) = Some (i, did)" by auto
  obtain ok hosts where acl: "supplier_ip_allowed (se_nanos env) (se_dns env) (se_fault env FAclCidr)
      (se_fault env FAclHosts) (d_supplier did) src (ss_db s) (ss_hosts s) = (ok, hosts)" by (meson surj_pair)
  show ?thesis
    using assms False d acl that
    by (cases "d_status did") (auto simp: decide_def Let_def split: if_splits)
qed

lemma decide_sets:
  assumes "decide env req s = (resp, s')"
  obtains (same) "rd_sets (ss_redis s') = rd_sets (ss_redis s)"
  | (reserved) did oid ord usr rc r where
      "find_order (se_choice env FOrder) did (ss_db s) = Some (oid, ord, usr, rc)" "o_status ord = OrdActive"
      "reserve_channel (se_now env) (se_fault env FReserve) (o_user ord) did (rq_call_id req) (u_cap usr)
         (o_channels ord) (ss_redis s) = (Some 1, r)" "rd_sets (ss_redis s') = rd_sets r"
  using assms
proof (cases rule: decide_cases)
  case (early reason)
  with same show ?thesis by simp
next
  case (reserved i did hosts)
  with same reserved_sets [of env req "parse_e164 (rq_to req)" i did "s\<lparr>ss_hosts := hosts\<rparr>"]
  show ?thesis by simp
next
  case (ordered i did hosts)
  from order_sets [OF this(2)] that show ?thesis by auto
qed

text \<open>
  The requests that reach the control plane, one after the other: the clock advances between
  them. Each request runs atomically here; the only step that must be atomic for the caps is
  the Lua script, which Redis runs as one.
\<close>

inductive sip_step :: "int \<times> sip_state \<Rightarrow> int \<times> sip_state \<Rightarrow> bool" where
  invite: "se_nanos env = t \<Longrightarrow> decide env req s = (resp, s') \<Longrightarrow> sip_step (t, s) (t, s')"
| hangup: "se_nanos env = t \<Longrightarrow> cdr_handler env body s = (reply, s') \<Longrightarrow> sip_step (t, s) (t, s')"
| sweep: "rc_now renv = t div 1000000000 \<Longrightarrow> reconcile_once renv (ss_redis s, ss_db s) = (ev, r, d) \<Longrightarrow>
    sip_step (t, s) (t, s\<lparr>ss_redis := r, ss_db := d\<rparr>)"
| tick: "t \<le> t' \<Longrightarrow> sip_step (t, s) (t', s)"

inductive_cases sip_stepE: "sip_step p q"

definition finite_sets :: "redis \<Rightarrow> bool" where
  "finite_sets r \<longleftrightarrow> (\<forall>k. finite (fst (rd_sets r k)))"

definition caps_ok :: "int \<Rightarrow> sip_state \<Rightarrow> bool" where
  "caps_ok t s \<longleftrightarrow>
     (\<forall>uid usr. tbl_get (users (ss_db s)) uid = Some usr \<longrightarrow> 0 \<le> u_cap usr \<longrightarrow>
        int (card (set_members (t div 1000000000) (ss_redis s) (user_key uid))) \<le> u_cap usr) \<and>
     (\<forall>did n. 0 \<le> n \<longrightarrow> (\<forall>(oid, ord) \<in> set (orders (ss_db s)). o_did ord = did \<longrightarrow> o_channels ord \<le> n) \<longrightarrow>
        int (card (set_members (t div 1000000000) (ss_redis s) (did_key did))) \<le> n)"

text \<open>What the machine keeps of the caps' configuration.\<close>

definition caps_of :: "db \<Rightarrow> (db_id \<Rightarrow> int option) \<times> (db_id \<times> order_row) list" where
  "caps_of d = ((\<lambda>u. map_option u_cap (tbl_get (users d) u)), orders d)"

lemma members_cong: "rd_sets r k = rd_sets r' k \<Longrightarrow> set_members now r k = set_members now r' k"
  by (simp add: set_members_def)

lemma finite_members: "finite_sets r \<Longrightarrow> finite (set_members now r k)"
  unfolding finite_sets_def set_members_def by (auto split: prod.splits option.splits) (metis fst_conv)+

text \<open>Fewer members under the same configuration keep the caps.\<close>

lemma caps_ok_shrink:
  assumes "caps_ok t s" "caps_of (ss_db s') = caps_of (ss_db s)" "finite_sets (ss_redis s)"
    and "\<And>k. set_members (t' div 1000000000) (ss_redis s') k \<subseteq> set_members (t div 1000000000) (ss_redis s) k"
  shows "caps_ok t' s'"
proof -
  have le: "card (set_members (t' div 1000000000) (ss_redis s') k) \<le>
      card (set_members (t div 1000000000) (ss_redis s) k)" for k
    using assms(3,4) by (intro card_mono finite_members)
  have usr: "\<exists>u. tbl_get (users (ss_db s)) uid = Some u \<and> u_cap u = u_cap usr"
    if "tbl_get (users (ss_db s')) uid = Some usr" for uid usr
    using that assms(2) unfolding caps_of_def by (metis (no_types, lifting) map_option_eq_Some prod.inject)
  have ord: "orders (ss_db s') = orders (ss_db s)" using assms(2) by (simp add: caps_of_def)
  show ?thesis
    unfolding caps_ok_def ord
  proof (intro conjI allI impI)
    fix uid usr assume u: "tbl_get (users (ss_db s')) uid = Some usr" "0 \<le> u_cap usr"
    from usr [OF u(1)] obtain u' where "tbl_get (users (ss_db s)) uid = Some u'" "u_cap u' = u_cap usr" by blast
    with assms(1) u(2) have "int (card (set_members (t div 1000000000) (ss_redis s) (user_key uid))) \<le> u_cap usr"
      unfolding caps_ok_def by metis
    with le [of "user_key uid"]
    show "int (card (set_members (t' div 1000000000) (ss_redis s') (user_key uid))) \<le> u_cap usr" by linarith
  next
    fix did and n :: int
    assume "0 \<le> n" "\<forall>(oid, ord) \<in> set (orders (ss_db s)). o_did ord = did \<longrightarrow> o_channels ord \<le> n"
    with assms(1) have "int (card (set_members (t div 1000000000) (ss_redis s) (did_key did))) \<le> n"
      unfolding caps_ok_def by blast
    with le [of "did_key did"]
    show "int (card (set_members (t' div 1000000000) (ss_redis s') (did_key did))) \<le> n" by linarith
  qed
qed

lemma key_inj [simp]: "user_key a = user_key b \<longleftrightarrow> a = b" "did_key a = did_key b \<longleftrightarrow> a = b"
  "user_key a \<noteq> did_key b" "did_key b \<noteq> user_key a"
  by (simp_all add: user_key_def did_key_def)

text \<open>A successful reservation fills at most the room it found.\<close>

lemma caps_ok_reserve:
  assumes "caps_ok t s" "finite_sets (ss_redis s)"
    and "reserve_channel (t div 1000000000) f (o_user ord) did cid (u_cap usr) (o_channels ord) (ss_redis s) = (Some 1, r)"
    and "(oid, ord) \<in> set (orders (ss_db s))" "o_did ord = did" "tbl_get (users (ss_db s)) (o_user ord) = Some usr"
    and "rd_sets (ss_redis s') = rd_sets r" "caps_of (ss_db s') = caps_of (ss_db s)"
  shows "caps_ok t s'"
proof -
  let ?m = "\<lambda>s k. set_members (t div 1000000000) (ss_redis s) k"
  have m: "?m s' k = (if k = user_key (o_user ord) \<or> k = did_key did then insert cid (?m s k) else ?m s k)" for k
    using reserve_channel_1(3) [OF assms(3)] members_cong [of "ss_redis s'" k r] assms(7) by simp
  have room: "0 \<le> u_cap usr \<Longrightarrow> int (card (?m s (user_key (o_user ord)))) < u_cap usr"
    "int (card (?m s (did_key did))) < o_channels ord"
    using reserve_channel_1(1,2) [OF assms(3)] by auto
  have ins: "int (card (insert cid (?m s k))) \<le> int (card (?m s k)) + 1" for k
    using card_insert_le_m1 [of "card (?m s k) + 1" "?m s k" cid] by (simp add: card_insert_if finite_members [OF assms(2)])
  have ord: "orders (ss_db s') = orders (ss_db s)" using assms(8) by (simp add: caps_of_def)
  show ?thesis
    unfolding caps_ok_def ord
  proof (intro conjI allI impI)
    fix uid u' assume u: "tbl_get (users (ss_db s')) uid = Some u'" "0 \<le> u_cap u'"
    then obtain u where u1: "tbl_get (users (ss_db s)) uid = Some u" "u_cap u = u_cap u'"
      using assms(8) unfolding caps_of_def by (metis (no_types, lifting) map_option_eq_Some prod.inject)
    show "int (card (?m s' (user_key uid))) \<le> u_cap u'"
    proof (cases "uid = o_user ord")
      case True
      with u1 assms(6) have "u_cap usr = u_cap u'" by simp
      with True room(1) u(2) ins [of "user_key uid"] show ?thesis by (simp add: m)
    next
      case False
      from assms(1) u1 u(2) have "int (card (?m s (user_key uid))) \<le> u_cap u'"
        unfolding caps_ok_def by metis
      with False show ?thesis by (simp add: m)
    qed
  next
    fix j and n :: int
    assume n: "0 \<le> n" "\<forall>(oid, ord) \<in> set (orders (ss_db s)). o_did ord = j \<longrightarrow> o_channels ord \<le> n"
    show "int (card (?m s' (did_key j))) \<le> n"
    proof (cases "j = did")
      case True
      with n(2) assms(4,5) have "o_channels ord \<le> n" by auto
      with True room(2) ins [of "did_key j"] show ?thesis by (simp add: m)
    next
      case False
      with assms(1) n show ?thesis unfolding caps_ok_def by (simp add: m)
    qed
  qed
qed

lemma finite_sets_mono: "finite_sets r \<Longrightarrow> (\<And>k. fst (rd_sets r' k) \<subseteq> fst (rd_sets r k)) \<Longrightarrow> finite_sets r'"
  unfolding finite_sets_def by (meson finite_subset)

lemma finite_sets_cong: "finite_sets r \<Longrightarrow> rd_sets r' = rd_sets r \<Longrightarrow> finite_sets r'"
  by (simp add: finite_sets_def)

lemma members_subset_raw: "set_members now r k \<subseteq> fst (rd_sets r k)"
  by (auto simp: set_members_def split: prod.splits option.splits if_splits)

lemma finite_set_rem: "finite_sets r \<Longrightarrow> finite_sets (set_rem now k m r)"
  using finite_members [of r now k] by (simp add: finite_sets_def set_rem_def)

lemma finite_set_add: "finite_sets r \<Longrightarrow> finite_sets (set_add now k m r)"
  using finite_members [of r now k] by (simp add: finite_sets_def set_add_def)

lemma finite_set_expire: "finite_sets r \<Longrightarrow> finite_sets (set_expire now k ttl r)"
  using finite_members [of r now k] by (simp add: finite_sets_def set_expire_def)

lemma finite_reserve:
  "finite_sets r \<Longrightarrow> reserve_channel now f u d c uc dc r = (res, r') \<Longrightarrow> finite_sets r'"
  by (auto simp: reserve_channel_def reserve_lua_def Let_def finite_set_add finite_set_expire split: if_splits)

lemma release_pages_members:
  "set_members now (snd (release_pages now cids ps r)) k \<subseteq> set_members now r k"
proof (induction now cids ps r rule: release_pages.induct)
  case (3 now cids keys ps r)
  have one: "set_members now (fold (\<lambda>c. set_rem now k' c) cids r) k \<subseteq> set_members now r k" for k' r
    by (rule fold_shrinks [where g = "\<lambda>r. set_members now r k"]) auto
  have "set_members now (fold (\<lambda>k. fold (\<lambda>c. set_rem now k c) cids) keys r) k \<subseteq> set_members now r k"
    by (rule fold_shrinks [where g = "\<lambda>r. set_members now r k"]) (rule one)
  with 3 show ?case by fastforce
qed simp_all

lemma release_pages_finite:
  "finite_sets r \<Longrightarrow> finite_sets (snd (release_pages now cids ps r))"
proof (induction now cids ps r rule: release_pages.induct)
  case (3 now cids keys ps r)
  have "finite_sets (fold (\<lambda>k. fold (\<lambda>c. set_rem now k c) cids) keys r)"
  proof (rule fold_invariant [where P = finite_sets])
    show "finite_sets (fold (\<lambda>c. set_rem now k c) cids r')" if "finite_sets r'" for k r'
      using that by (rule fold_invariant [where P = finite_sets]) (rule finite_set_rem)
  qed (rule 3(2))
  with 3 show ?case by simp
qed simp_all

lemma caps_of_audit: "audit_extends d e \<Longrightarrow> caps_of e = caps_of d"
  by (simp add: caps_of_def audit_extends_sel)

lemma pop_pending_frame:
  assumes "pop_pending now f cid r = (res, r')"
  shows "rd_sets r' = rd_sets r" "rd_meta r' = rd_meta r" "rd_active r' = rd_active r" "rd_last r' = rd_last r"
  using assms by (auto simp: pop_pending_def split: if_splits option.splits)

lemma pop_admin_frame:
  assumes "pop_admin env cid r = (st, r')"
  shows "rd_sets r' = rd_sets r" "rd_meta r' = rd_meta r" "rd_active r' = rd_active r" "rd_last r' = rd_last r"
proof -
  obtain res r1 where p: "pop_pending (se_now env) (se_fault env FPop) cid r = (res, r1)" by (meson surj_pair)
  then have "r' = r1" using assms by (auto simp: pop_admin_def split: sum.splits option.splits)
  with pop_pending_frame [OF p] show "rd_sets r' = rd_sets r" "rd_meta r' = rd_meta r"
    "rd_active r' = rd_active r" "rd_last r' = rd_last r" by simp_all
qed

lemma upsert_cdr_frame [simp]:
  "users (upsert_cdr st c d) = users d" "orders (upsert_cdr st c d) = orders d"
  "ledger (upsert_cdr st c d) = ledger d" "dids (upsert_cdr st c d) = dids d"
  "rate_cards (upsert_cdr st c d) = rate_cards d" "denied_calls (upsert_cdr st c d) = denied_calls d"
  by (simp_all add: upsert_cdr_def)

lemma post_charge_Some:
  assumes "post_charge uid cid c d = Some e"
  shows "users e = tbl_upd uid (\<lambda>u. u\<lparr>u_balance := u_balance u - c\<rparr>) (users d)"
    "orders e = orders d" "cdrs e = cdrs d" "dids e = dids d" "rate_cards e = rate_cards d"
    "\<exists>l. ledger e = ledger d @ [l] \<and> l_user l = uid \<and> l_delta l = - c \<and> l_kind l = LedgerCallCharge \<and>
         Some (l_after l) = balance e uid"
  using assms by (auto simp: post_charge_def Let_def balance_def split: option.splits)

lemma caps_of_post_charge: "post_charge uid cid c d = Some e \<Longrightarrow> caps_of e = caps_of d"
proof -
  assume "post_charge uid cid c d = Some e"
  from post_charge_Some(1,2) [OF this]
  have "users e = tbl_upd uid (\<lambda>u. u\<lparr>u_balance := u_balance u - c\<rparr>) (users d)" "orders e = orders d" .
  then show ?thesis
    by (auto simp: caps_of_def fun_eq_iff option.map_comp comp_def)
qed

lemma caps_of_cdrs [simp]: "caps_of (d\<lparr>cdrs := x\<rparr>) = caps_of d" "caps_of (upsert_cdr st c d) = caps_of d"
  by (simp_all add: caps_of_def)

lemma post_charge_frame:
  "post_charge uid cid c d = Some e \<Longrightarrow> caps_of e = caps_of d \<and> dids e = dids d \<and> rate_cards e = rate_cards d"
  using caps_of_post_charge post_charge_Some(4,5) by blast

text \<open>What the body of \<open>/cdr\<close> leaves alone, whichever way it ends.\<close>

lemma cdr_body_frame:
  assumes "cdr_body env req s = (reply, s')"
  shows "rd_sets (ss_redis s') = rd_sets (ss_redis s)" "rd_meta (ss_redis s') = rd_meta (ss_redis s)"
    "rd_active (ss_redis s') = rd_active (ss_redis s)" "caps_of (ss_db s') = caps_of (ss_db s)"
    "dids (ss_db s') = dids (ss_db s)" "rate_cards (ss_db s') = rate_cards (ss_db s)"
proof -
  let ?c = "sanitize_call_id (cr_call_id req)"
  obtain st r where p: "pop_admin env ?c (ss_redis s) = (st, r)" by (meson surj_pair)
  have "ss_redis s' = ss_redis s \<or> ss_redis s' = r"
    using assms p by (auto simp: cdr_body_def fill_unbilled_cdr_def bill_call_def Let_def split: if_splits option.splits)
  with pop_admin_frame [OF p] show "rd_sets (ss_redis s') = rd_sets (ss_redis s)"
    "rd_meta (ss_redis s') = rd_meta (ss_redis s)" "rd_active (ss_redis s') = rd_active (ss_redis s)" by auto
  have "caps_of (ss_db s') = caps_of (ss_db s) \<and> dids (ss_db s') = dids (ss_db s) \<and>
      rate_cards (ss_db s') = rate_cards (ss_db s)"
    using assms p
    by (auto simp: cdr_body_def fill_unbilled_cdr_def bill_call_def Let_def
        dest!: post_charge_frame split: if_splits option.splits)
  then show "caps_of (ss_db s') = caps_of (ss_db s)" "dids (ss_db s') = dids (ss_db s)"
    "rate_cards (ss_db s') = rate_cards (ss_db s)" by auto
qed

lemma cdr_release_frame:
  "ss_db (cdr_release env cid s) = ss_db s" "ss_hosts (cdr_release env cid s) = ss_hosts s"
  "set_members (se_now env) (ss_redis (cdr_release env cid s)) k \<subseteq> set_members (se_now env) (ss_redis s) k"
  "finite_sets (ss_redis s) \<Longrightarrow> finite_sets (ss_redis (cdr_release env cid s))"
proof -
  let ?r1 = "snd (release_pages (se_now env) [cid] (se_pages env) (ss_redis s))"
  have r: "rd_sets (ss_redis (cdr_release env cid s)) = rd_sets ?r1"
    by (auto simp: cdr_release_def release_channel_by_call_id_def live_deregister_def Let_def)
  show "ss_db (cdr_release env cid s) = ss_db s" "ss_hosts (cdr_release env cid s) = ss_hosts s"
    by (simp_all add: cdr_release_def Let_def)
  show "set_members (se_now env) (ss_redis (cdr_release env cid s)) k \<subseteq> set_members (se_now env) (ss_redis s) k"
    using release_pages_members members_cong r by metis
  show "finite_sets (ss_redis s) \<Longrightarrow> finite_sets (ss_redis (cdr_release env cid s))"
    using release_pages_finite finite_sets_cong r by metis
qed

lemma sip_step_caps:
  assumes "sip_step p q" "caps_ok (fst p) (snd p)" "finite_sets (ss_redis (snd p))"
  shows "caps_ok (fst q) (snd q) \<and> finite_sets (ss_redis (snd q))"
  using assms(1)
proof cases
  case (invite env t req s resp s')
  have p: "caps_ok t s" "finite_sets (ss_redis s)" using assms(2,3) invite(1) by simp_all
  have aud: "audit_extends (ss_db s) (ss_db s')"
    using authorize_only_audits_lemma [of s env req] invite(4) by simp
  have now: "se_now env = t div 1000000000" using invite(3) by (simp add: se_now_def)
  from invite(4) have "caps_ok t s' \<and> finite_sets (ss_redis s')"
  proof (cases rule: decide_sets)
    case same
    then have "set_members now (ss_redis s') k = set_members now (ss_redis s) k" for now k
      by (intro members_cong) simp
    with caps_ok_shrink [OF p(1) caps_of_audit [OF aud] p(2), of t] finite_sets_cong [OF p(2) same]
    show ?thesis by simp
  next
    case (reserved did oid ord usr rc r)
    have ord: "(oid, ord) \<in> set (orders (ss_db s))" "o_did ord = did" "tbl_get (users (ss_db s)) (o_user ord) = Some usr"
      using find_order_in [OF reserved(1)] by (simp_all add: callable_orders_iff)
    have "caps_ok t s'"
      using caps_ok_reserve [OF p reserved(3) [unfolded now] ord reserved(4) caps_of_audit [OF aud]] .
    moreover have "finite_sets (ss_redis s')"
      using finite_reserve [OF p(2) reserved(3)] reserved(4) finite_sets_cong by metis
    ultimately show ?thesis ..
  qed
  with invite(2) show ?thesis by simp
next
  case (hangup env t body s reply s')
  have p: "caps_ok t s" "finite_sets (ss_redis s)" using assms(2,3) hangup(1) by simp_all
  have now: "se_now env = t div 1000000000" using hangup(3) by (simp add: se_now_def)
  have "caps_ok t s' \<and> finite_sets (ss_redis s')"
  proof (cases body)
    case None
    with hangup(4) p show ?thesis by (simp add: cdr_handler_def)
  next
    case (Some req)
    then obtain s1 where b: "cdr_body env req s = (reply, s1)" "s' = cdr_release env (cr_call_id req) s1"
      using hangup(4) by (auto simp: cdr_handler_def split: prod.splits)
    note f = cdr_body_frame [OF b(1)]
    have fin: "finite_sets (ss_redis s1)" using finite_sets_cong [OF p(2) f(1)] .
    have "set_members (t div 1000000000) (ss_redis s') k \<subseteq> set_members (t div 1000000000) (ss_redis s) k" for k
      using cdr_release_frame(3) [of env "cr_call_id req" s1 k] members_cong [of "ss_redis s1" k "ss_redis s"] f(1) b(2)
      unfolding now by simp
    from caps_ok_shrink [OF p(1) _ p(2) this] f(4) cdr_release_frame(1,4) [where env = env and cid = "cr_call_id req" and s = s1] b(2) fin
    show ?thesis by simp
  qed
  with hangup(2) show ?thesis by simp
next
  case (sweep renv t s ev r d)
  have p: "caps_ok t s" "finite_sets (ss_redis s)" using assms(2,3) sweep(1) by simp_all
  have "set_members (t div 1000000000) r k \<subseteq> set_members (t div 1000000000) (ss_redis s) k \<and>
      finite_sets r \<and> caps_of d = caps_of (ss_db s)" for k
    using sweep(4)
  proof (cases rule: reconcile_cases)
    case idle
    then have "rd_sets r = rd_sets (ss_redis s)" using live_list_ok(3) by auto
    with idle(2) p(2) finite_sets_cong members_cong show ?thesis by (metis order_refl)
  next
    case (swept chans calls r1 r2)
    have "rd_sets r2 = rd_sets (ss_redis s)" using swept(4) live_list_ok(3) [OF swept(2)] by simp
    then have "set_members (t div 1000000000) r k \<subseteq> set_members (t div 1000000000) (ss_redis s) k" "finite_sets r"
      using release_pages_members [of "t div 1000000000" ev "rc_pages renv" r2 k] members_cong [of r2 k "ss_redis s"]
        release_pages_finite [of r2] finite_sets_cong [OF p(2), of r2] swept(5) sweep(3)
      by (auto simp: release_channel_reservations_def split: if_splits)
    moreover have "caps_of d = caps_of (ss_db s)" using swept(6) by (simp add: stamp_ended_def)
    ultimately show ?thesis by blast
  qed
  then have "caps_ok t (s\<lparr>ss_redis := r, ss_db := d\<rparr>) \<and> finite_sets r"
    using caps_ok_shrink [OF p(1) _ p(2), of "s\<lparr>ss_redis := r, ss_db := d\<rparr>" t] by simp
  with sweep(2) show ?thesis by simp
next
  case (tick t t' s)
  have "set_members (t' div 1000000000) (ss_redis s) k \<subseteq> set_members (t div 1000000000) (ss_redis s) k" for k
    using tick(3) by (intro members_later zdiv_mono1) auto
  then show ?thesis
    using assms(2,3) tick(1,2) caps_ok_shrink [of t s s t'] by simp
qed

interpretation caps: safe_machine sip_step "\<lambda>(t, s). caps_ok t s \<and> finite_sets (ss_redis s)"
  by unfold_locales (use sip_step_caps in \<open>auto simp: case_prod_unfold\<close>)

text \<open>
  C3: the channel caps are never exceeded: starting from an empty Redis, after any sequence
  of INVITEs, hang-ups, reconciler sweeps and pauses, with any failures, no user with a cap
  holds more channels than it and no number holds more than its orders' channel count.
\<close>

theorem caps_never_exceeded:
  assumes "sip_step\<^sup>*\<^sup>* (t0, s0) (t, s)" "ss_redis s0 = empty_redis"
  shows "(\<forall>uid usr. tbl_get (users (ss_db s)) uid = Some usr \<longrightarrow> 0 \<le> u_cap usr \<longrightarrow>
            int (card (set_members (t div 1000000000) (ss_redis s) (user_key uid))) \<le> u_cap usr) \<and>
         (\<forall>did n. 0 \<le> n \<longrightarrow> (\<forall>(oid, ord) \<in> set (orders (ss_db s)). o_did ord = did \<longrightarrow> o_channels ord \<le> n) \<longrightarrow>
            int (card (set_members (t div 1000000000) (ss_redis s) (did_key did))) \<le> n)"
proof -
  have "caps_ok t0 s0" "finite_sets (ss_redis s0)"
    by (simp_all add: assms(2) caps_ok_def finite_sets_def empty_redis_def set_members_def)
  with caps.run_inv [OF assms(1)] have "caps_ok t s" by simp
  then show ?thesis by (simp only: caps_ok_def)
qed

subsection \<open>A small installation\<close>

text \<open>
  Supplier 1 with the network 10.0.0.0/8 and three numbers: one assigned to the order 10 of
  user 1 (two channels, 700 cents, user cap 1), one reserved, one available.
\<close>

definition sample_did :: "string \<Rightarrow> did_status \<Rightarrow> did_row" where
  "sample_did e st = \<lparr>d_e164 = e, d_supplier = 1, d_country = ''GB'', d_type = ''national'', d_cap = -1,
     d_status = st, d_res_kind = (if st = DidReserved then Some RouteIP else None),
     d_res_target = (if st = DidReserved then Some ''10.0.0.1'' else None), d_res_group = None, d_res_file = None,
     d_res_note = None, d_res_at = None, d_res_by = None\<rparr>"

definition call_order :: order_row where
  "call_order = \<lparr>o_did = 1, o_user = 1, o_pop = None, o_channels = 2, o_kind = RouteIP,
      o_target = ''10.0.0.1'', o_rate_card = 1, o_status = OrdActive, o_anniversary = 1,
      o_next_billing = UTC 2026 3 1 0, o_ended = None, o_kyc = None, o_group = None,
      o_pre_kind = None, o_pre_target = None\<rparr>"

definition call_db :: db where
  "call_db = empty_db\<lparr>
     users := [(1, plain_user 700 1 ''active'')],
     rate_cards := [(1, plain_rate 0 500 100 (3 / 2) 60 60 (1 / 2) 1 1)],
     dids := [(1, sample_did ''442038968001'' DidAssigned), (2, sample_did ''442038968002'' DidReserved),
              (3, sample_did ''442038968003'' DidAvailable)],
     orders := [(10, call_order)],
     acl := [\<lparr>a_supplier = 1, a_match = AclCidr \<lparr>net_addr = v4 [10, 0, 0, 0], net_len = 8\<rparr>\<rparr>]\<rparr>"

definition call_state0 :: sip_state where
  "call_state0 = \<lparr>ss_redis = empty_redis, ss_db = call_db, ss_hosts = []\<rparr>"

definition call_env :: sip_env where
  "call_env = \<lparr>se_nanos = 1000 * 1000000000, se_dns = (\<lambda>_. None), se_fault = (\<lambda>_. False),
     se_choice = (\<lambda>_. 0), se_pages = [Some [''act:user:1'', ''act:did:1'']], se_min_seconds = 60\<rparr>"

definition invite_of :: "string \<Rightarrow> string \<Rightarrow> auth_request" where
  "invite_of cid number = \<lparr>rq_call_id = cid, rq_src_ip = ''10.0.0.9'', rq_to = ''<sip:+'' @ number @ ''@1.2.3.4>'',
     rq_from = ''sip:alice@example'', rq_channel = ''PJSIP/a-1''\<rparr>"

lemma invite_allowed:
  "rs_decision (fst (decide call_env (invite_of ''c1@10.0.0.9'' ''442038968001'') call_state0)) = ''allow''"
  by code_simp

lemma second_invite_denied:
  "rs_reason (fst (decide call_env (invite_of ''c2@10.0.0.9'' ''442038968001'')
     (snd (decide call_env (invite_of ''c1@10.0.0.9'' ''442038968001'') call_state0)))) = ''user_channel_cap_hit''"
  by code_simp

theorem caps_never_exceeded_witness:
  "int (card (set_members 1000 (ss_redis (snd (decide call_env (invite_of ''c1@10.0.0.9'' ''442038968001'') call_state0)))
     (user_key 1))) \<le> 1"
proof -
  let ?d = "decide call_env (invite_of ''c1@10.0.0.9'' ''442038968001'') call_state0"
  have "sip_step (1000 * 1000000000, call_state0) (1000 * 1000000000, snd ?d)"
    by (rule sip_step.invite [OF _ prod.collapse [symmetric]]) (simp add: call_env_def)
  then have run: "sip_step\<^sup>*\<^sup>* (1000 * 1000000000, call_state0) (1000 * 1000000000, snd ?d)" by blast
  have "users (ss_db (snd ?d)) = users call_db"
    using authorize_only_audits_lemma [of call_state0 call_env] by (simp add: audit_extends_sel call_state0_def)
  then have "tbl_get (users (ss_db (snd ?d))) 1 = Some (plain_user 700 1 ''active'')"
    by (simp add: call_db_def tbl_get_def)
  with caps_never_exceeded [OF run, THEN conjunct1] show ?thesis by (force simp: call_state0_def)
qed

theorem authorize_allow_sound_witness:
  "\<exists>did_id did. (did_id, did) \<in> set (dids call_db) \<and> d_e164 did = parse_e164 ''<sip:+442038968001@1.2.3.4>'' \<and>
     d_status did \<in> {DidReserved, DidAssigned}"
proof -
  let ?r = "invite_of ''c1@10.0.0.9'' ''442038968001''"
  have "decide call_env ?r call_state0 = (fst (decide call_env ?r call_state0), snd (decide call_env ?r call_state0))"
    by simp
  from authorize_allow_sound [OF this invite_allowed] show ?thesis
    by (auto simp: call_state0_def invite_of_def)
qed

subsection \<open>The audit trail of denials\<close>

definition audit_reason :: "string \<Rightarrow> string" where
  "audit_reason reason =
     (if reason = ''src_ip_not_authorized'' then ''unauthorized_ip''
      else if reason \<in> {''user_channel_cap_hit'', ''did_channel_cap_hit''} then ''insufficient_channels''
      else reason)"

definition audited :: "auth_request \<Rightarrow> string \<Rightarrow> sip_state \<Rightarrow> sip_state \<Rightarrow> bool" where
  "audited req reason s s' \<longleftrightarrow>
     (\<exists>l. denied_calls (ss_db s') = denied_calls (ss_db s) @ [l] \<and> dn_call_id l = rq_call_id req \<and>
          dn_to l = rq_to req \<and> dn_from l = rq_from req \<and> dn_reason l = audit_reason reason)"

lemma audited_denied_call:
  "\<not> se_fault env FDeniedCall \<Longrightarrow> denied_calls (ss_db s1) = denied_calls (ss_db s) \<Longrightarrow> reason' = audit_reason reason \<Longrightarrow>
     audited req reason s (denied_call env req reason' s1)"
  by (auto simp: audited_def denied_call_def Let_def)

lemma unbilled_denied_calls [simp]:
  "denied_calls (ss_db (unbilled_cdr env req a b c k t s)) = denied_calls (ss_db s)"
  by (simp add: unbilled_cdr_def insert_cdr_def split: option.split)

lemma audited_denial:
  "\<not> se_fault env FDeniedCall \<Longrightarrow> denied_calls (ss_db s1) = denied_calls (ss_db s) \<Longrightarrow> cause = audit_reason reason \<Longrightarrow>
     audited req reason s (denial_cdr env req a b c e f cause k t s1)"
  unfolding denial_cdr_def
  by (rule audited_denied_call) (simp_all add: insert_cdr_def split: option.split)

lemma audited_hosts: "audited req reason (s\<lparr>ss_hosts := h\<rparr>) s' = audited req reason s s'"
  by (simp add: audited_def)

lemma admit_audited:
  assumes "admit_call env req e i sid oid ord usr rc m s = (resp, s')" "rs_decision resp = ''deny''"
    and "\<not> se_fault env FDeniedCall" "rs_reason resp \<noteq> ''reservation_misconfigured''" "\<not> se_fault env FReserve"
  shows "audited req (rs_reason resp) s s'"
proof -
  obtain res r where rs: "reserve_channel (se_now env) (se_fault env FReserve) (o_user ord) i (rq_call_id req)
      (u_cap usr) (o_channels ord) (ss_redis s) = (res, r)" by (meson surj_pair)
  have "res \<noteq> None" using rs assms(5) by (auto simp: reserve_channel_def split: prod.splits)
  with reserve_channel_no(2) [OF rs] have "res = Some 1 \<or> res = Some (-1) \<or> res = Some (-2)" by auto
  then show ?thesis
  proof (elim disjE)
    assume "res = Some 1"
    with assms rs show ?thesis
      by (auto simp: admit_call_def Let_def no_response_def split: if_splits option.splits prod.splits)
  next
    assume "res = Some (-1)"
    with assms rs show ?thesis
      by (auto simp: admit_call_def Let_def audit_reason_def intro!: audited_denial)
  next
    assume "res = Some (-2)"
    with assms rs show ?thesis
      by (auto simp: admit_call_def Let_def audit_reason_def intro!: audited_denial)
  qed
qed

lemma order_audited:
  assumes "decide_order env req e i did s = (resp, s')" "rs_decision resp = ''deny''"
    and "\<And>f. \<not> se_fault env f" "rs_reason resp \<noteq> ''reservation_misconfigured''"
  shows "audited req (rs_reason resp) s s'"
  using assms admit_audited [of env req e i "d_supplier did" _ _ _ _ _ s resp s']
  unfolding decide_order_def
  by (auto simp: Let_def audit_reason_def intro!: audited_denial audited_denied_call split: if_splits option.splits)

text \<open>
  Every refused INVITE is on record: when nothing fails, every denial except
  \<open>reservation_misconfigured\<close> appends exactly one row to \<open>denied_calls\<close> that carries the raw
  Call-ID, the two URIs and the reason.
\<close>

theorem denial_is_audited:
  assumes "decide env req s = (resp, s')" "rs_decision resp = ''deny''"
    and "\<And>f. \<not> se_fault env f" "rs_reason resp \<noteq> ''reservation_misconfigured''"
  shows "\<exists>l. denied_calls (ss_db s') = denied_calls (ss_db s) @ [l] \<and> dn_call_id l = rq_call_id req \<and>
          dn_to l = rq_to req \<and> dn_from l = rq_from req \<and> dn_reason l = audit_reason (rs_reason resp)"
proof -
  have "audited req (rs_reason resp) s s'"
  proof (cases "\<exists>i did hosts. decide_order env req (parse_e164 (rq_to req)) i did (s\<lparr>ss_hosts := hosts\<rparr>) = (resp, s')")
    case True
    then show ?thesis using order_audited assms(2-4) audited_hosts by metis
  next
    case False
    with assms show ?thesis
      unfolding decide_def decide_reserved_def
      by (auto simp: Let_def audit_reason_def no_response_def intro!: audited_denied_call
          split: if_splits option.splits prod.splits)
  qed
  then show ?thesis by (simp only: audited_def)
qed

lemma unknown_denied:
  "rs_decision (fst (decide call_env (invite_of ''c9'' ''15550100'') call_state0)) = ''deny''"
  "rs_reason (fst (decide call_env (invite_of ''c9'' ''15550100'') call_state0)) = ''unknown_did''"
  by code_simp+

theorem denial_is_audited_witness:
  "map dn_reason (denied_calls (ss_db (snd (decide call_env (invite_of ''c9'' ''15550100'') call_state0)))) = [''unknown_did'']"
proof -
  let ?d = "decide call_env (invite_of ''c9'' ''15550100'') call_state0"
  have d: "decide call_env (invite_of ''c9'' ''15550100'') call_state0 = (fst ?d, snd ?d)" by simp
  have "denied_calls (ss_db call_state0) = []" by (simp add: call_state0_def call_db_def empty_db_def)
  moreover have "\<not> se_fault call_env f" for f by (simp add: call_env_def)
  ultimately show ?thesis
    using denial_is_audited [OF d unknown_denied(1)] by (auto simp: unknown_denied(2) audit_reason_def)
qed

subsection \<open>An admitted call is tracked and holds its channels\<close>

lemma register_call_get:
  assumes "\<not> se_fault env FRegister" "ac_call_id ac \<noteq> []" "ac_started ac = 0"
  shows "live_get (se_now env) False (ac_call_id ac) (ss_redis (register_call env ac s)) =
    Inr (Some (ac\<lparr>ac_started := se_now env\<rparr>))"
    "(ac_call_id ac, se_now env) \<in> set (rd_active (ss_redis (register_call env ac s)))"
  using assms by (simp_all add: register_call_def live_register_def live_get_def Let_def default_ttl_def)

lemma live_get_members:
  "set_members now (ss_redis (register_call env ac s)) k = set_members now (ss_redis s) k"
  by (rule members_cong) simp

lemma admit_tracks:
  assumes "admit_call env req e i sid oid ord usr rc m s = (resp, s')" "rs_decision resp = ''allow''"
    and "\<not> se_fault env FRegister" "sanitize_call_id (rq_call_id req) \<noteq> []"
  shows "(\<exists>ac. live_get (se_now env) False (sanitize_call_id (rq_call_id req)) (ss_redis s') = Inr (Some ac) \<and>
      ac_full ac = rq_call_id req \<and> ac_did ac = i \<and> ac_order ac = oid \<and> ac_user ac = o_user ord \<and>
      ac_started ac = se_now env) \<and>
    rq_call_id req \<in> set_members (se_now env) (ss_redis s') (user_key (o_user ord)) \<and>
    rq_call_id req \<in> set_members (se_now env) (ss_redis s') (did_key i)"
proof -
  obtain r where rs: "reserve_channel (se_now env) (se_fault env FReserve) (o_user ord) i (rq_call_id req)
      (u_cap usr) (o_channels ord) (ss_redis s) = (Some 1, r)"
    using admit_call_allow(1) [OF assms(1,2)] by auto
  have sets: "rd_sets (ss_redis s') = rd_sets r" using admit_sets [OF rs] assms(1) by (metis snd_conv)
  have "set_members (se_now env) (ss_redis s') k = set_members (se_now env) r k" for k
    by (rule members_cong) (simp add: sets)
  with reserve_channel_1(3) [OF rs]
  have m: "rq_call_id req \<in> set_members (se_now env) (ss_redis s') (user_key (o_user ord))"
    "rq_call_id req \<in> set_members (se_now env) (ss_redis s') (did_key i)" by simp_all
  obtain ac s2 where "s' = register_call env ac s2" "ac_call_id ac = sanitize_call_id (rq_call_id req)"
    "ac_full ac = rq_call_id req" "ac_started ac = 0" "ac_did ac = i" "ac_order ac = oid" "ac_user ac = o_user ord"
    using assms(1,2) rs by (auto simp: admit_call_def Let_def split: if_splits option.splits prod.splits)
  with register_call_get(1) [of env ac s2] assms(3,4) m show ?thesis by auto
qed

lemma reserved_tracks:
  assumes "decide_reserved env req e i did s = (resp, s')" "rs_decision resp = ''allow''"
    and "\<not> se_fault env FRegister" "sanitize_call_id (rq_call_id req) \<noteq> []"
  shows "\<exists>ac. live_get (se_now env) False (sanitize_call_id (rq_call_id req)) (ss_redis s') = Inr (Some ac) \<and>
      ac_full ac = rq_call_id req \<and> ac_did ac = i \<and> ac_reserved ac \<and> ac_started ac = se_now env"
proof -
  obtain ac s2 where "s' = register_call env ac s2" "ac_call_id ac = sanitize_call_id (rq_call_id req)"
    "ac_full ac = rq_call_id req" "ac_started ac = 0" "ac_did ac = i" "ac_reserved ac"
    using assms(1,2) unfolding decide_reserved_def Let_def
    by (auto split: if_splits option.splits prod.splits)
  with register_call_get(1) [of env ac s2] assms(3,4) show ?thesis by auto
qed

text \<open>
  An allowed call shows up: unless the Redis write fails (or the Call-ID is empty), the
  live index holds it under its sanitised Call-ID with the raw one and the start time, and a
  billed call holds a channel of its user and one of its number under the raw Call-ID.
\<close>

theorem allowed_call_is_tracked:
  assumes "decide env req s = (resp, s')" "rs_decision resp = ''allow''"
    and "\<not> se_fault env FRegister" "sanitize_call_id (rq_call_id req) \<noteq> []"
  shows "\<exists>ac. live_get (se_now env) False (sanitize_call_id (rq_call_id req)) (ss_redis s') = Inr (Some ac) \<and>
    ac_full ac = rq_call_id req \<and> ac_started ac = se_now env \<and>
    (ac_reserved ac \<or>
     rq_call_id req \<in> set_members (se_now env) (ss_redis s') (user_key (ac_user ac)) \<and>
     rq_call_id req \<in> set_members (se_now env) (ss_redis s') (did_key (ac_did ac)))"
  using assms(1,2)
proof (cases rule: decide_allow_cases)
  case (1 src did_id did hosts)
  from 1(5) show ?thesis
  proof
    assume "d_status did = DidReserved \<and>
      decide_reserved env req (parse_e164 (rq_to req)) did_id did (s\<lparr>ss_hosts := hosts\<rparr>) = (resp, s')"
    with reserved_tracks [OF _ assms(2-4)] show ?thesis by blast
  next
    assume "d_status did = DidAssigned \<and>
      decide_order env req (parse_e164 (rq_to req)) did_id did (s\<lparr>ss_hosts := hosts\<rparr>) = (resp, s')"
    then have "decide_order env req (parse_e164 (rq_to req)) did_id did (s\<lparr>ss_hosts := hosts\<rparr>) = (resp, s')" ..
    from this assms(2) show ?thesis
    proof (cases rule: decide_order_allow)
      case (1 oid ord usr rc)
      from admit_tracks [OF 1(5) assms(2-4)] show ?thesis by auto
    qed
  qed
qed

theorem allowed_call_is_tracked_witness:
  "\<exists>ac. live_get 1000 False ''c1'' (ss_redis (snd (decide call_env (invite_of ''c1@10.0.0.9'' ''442038968001'') call_state0))) =
     Inr (Some ac) \<and> ac_full ac = ''c1@10.0.0.9'' \<and> ac_started ac = 1000"
proof -
  let ?r = "invite_of ''c1@10.0.0.9'' ''442038968001''"
  have d: "decide call_env ?r call_state0 = (fst (decide call_env ?r call_state0), snd (decide call_env ?r call_state0))"
    by simp
  have c: "sanitize_call_id ''c1@10.0.0.9'' = ''c1''" "se_now call_env = 1000" "\<not> se_fault call_env FRegister"
    by code_simp+
  have id: "rq_call_id ?r = ''c1@10.0.0.9''" by (simp add: invite_of_def)
  from allowed_call_is_tracked [OF d invite_allowed c(3)] show ?thesis unfolding id c by auto
qed

subsection \<open>The money a hang-up moves\<close>

lemma tbl_upd_balance:
  "balance (d\<lparr>users := tbl_upd uid (\<lambda>u. u\<lparr>u_balance := u_balance u - c\<rparr>) (users d)\<rparr>) v =
     (if v = uid then map_option (\<lambda>b. b - c) (balance d v) else balance d v)"
  by (simp add: balance_def option.map_comp comp_def)

lemma post_charge_money:
  assumes "post_charge uid cid c d = Some e"
  shows "balance e v = (if v = uid then map_option (\<lambda>b. b - c) (balance d v) else balance d v)"
    "posted e v = posted d v - (if v = uid then c else 0)"
proof -
  obtain l where l: "ledger e = ledger d @ [l]" "l_user l = uid" "l_delta l = - c"
    using post_charge_Some(6) [OF assms] by blast
  have "balance e = balance (d\<lparr>users := tbl_upd uid (\<lambda>u. u\<lparr>u_balance := u_balance u - c\<rparr>) (users d)\<rparr>)"
    using post_charge_Some(1) [OF assms] by (intro balance_cong) simp
  then show "balance e v = (if v = uid then map_option (\<lambda>b. b - c) (balance d v) else balance d v)"
    by (simp only: tbl_upd_balance)
  show "posted e v = posted d v - (if v = uid then c else 0)"
    using l by (simp add: posted_def)
qed

lemma post_charge_conserves: "post_charge uid cid c d = Some e \<Longrightarrow> conserves d e"
  unfolding conserves_def by (auto simp: post_charge_money option.map_ident)

lemma conserves_upsert: "conserves d (upsert_cdr st c d)"
  by (rule conserves_frame) simp_all

lemma fill_conserves: "conserves (ss_db s) (ss_db (fill_unbilled_cdr env cid req s))"
  by (rule conserves_frame) (simp_all add: fill_unbilled_cdr_def Let_def split: prod.split)

lemma cdr_handler_db:
  assumes "cdr_handler env body s = (reply, s')"
  obtains (bad) "body = None" "ss_db s' = ss_db s" "reply = CdrBadJson"
  | (body) req s1 where "body = Some req" "cdr_body env req s = (reply, s1)" "ss_db s' = ss_db s1"
      "s' = cdr_release env (cr_call_id req) s1"
  using assms cdr_release_frame(1)
  by (cases body) (auto simp: cdr_handler_def split: prod.splits)

text \<open>The three ways the body ends: nothing booked, the free row, or the charge.\<close>

lemma cdr_body_cases:
  assumes "cdr_body env req s = (reply, s')"
  obtains (unbooked) "ss_db s' = ss_db s" "reply = CdrNoMatch \<or> reply = CdrInternal"
  | (unbilled) "cdr_lookup env (sanitize_call_id (cr_call_id req)) (parse_e164 (cr_dst req)) (ss_db s) = None"
      "reply = CdrOk 0" "s' = fill_unbilled_cdr env (sanitize_call_id (cr_call_id req)) req s"
  | (billed) oid ord did rc st where
      "cdr_lookup env (sanitize_call_id (cr_call_id req)) (parse_e164 (cr_dst req)) (ss_db s) = Some (oid, ord, did, rc)"
      "reply = CdrOk (c_charge (billed_cdr req oid ord did rc st))"
      "0 < c_charge (billed_cdr req oid ord did rc st) \<and>
       post_charge (o_user ord) (sanitize_call_id (cr_call_id req)) (c_charge (billed_cdr req oid ord did rc st))
         (upsert_cdr st (billed_cdr req oid ord did rc st) (ss_db s)) = Some (ss_db s') \<or>
       \<not> 0 < c_charge (billed_cdr req oid ord did rc st) \<and>
       ss_db s' = upsert_cdr st (billed_cdr req oid ord did rc st) (ss_db s)"
proof (cases "se_fault env FCdrLookup")
  case True
  with assms unbooked show ?thesis by (simp add: cdr_body_def)
next
  case nf: False
  show ?thesis
  proof (cases "cdr_lookup env (sanitize_call_id (cr_call_id req)) (parse_e164 (cr_dst req)) (ss_db s)")
    case None
    with assms nf unbilled show ?thesis by (simp add: cdr_body_def)
  next
    case (Some x)
    obtain oid ord did rc where x: "x = (oid, ord, did, rc)" by (metis prod.exhaust)
    obtain st r where p: "pop_admin env (sanitize_call_id (cr_call_id req)) (ss_redis s) = (st, r)" by (meson surj_pair)
    show ?thesis
      using assms nf Some x p unbooked billed [of oid ord did rc st]
      by (auto simp: cdr_body_def bill_call_def Let_def split: if_splits option.splits)
  qed
qed

lemma cdr_money:
  "conserves (ss_db s) (ss_db (snd (cdr_handler env body s)))"
proof -
  obtain reply s' where h: "cdr_handler env body s = (reply, s')" by (meson surj_pair)
  then have "conserves (ss_db s) (ss_db s')"
  proof (cases rule: cdr_handler_db)
    case (body req s1)
    from body(2) have "conserves (ss_db s) (ss_db s1)"
    proof (cases rule: cdr_body_cases)
      case unbooked
      then show ?thesis by simp
    next
      case unbilled
      then show ?thesis by (simp add: fill_conserves)
    next
      case (billed oid ord did rc st)
      then show ?thesis
        using conserves_upsert post_charge_conserves conserves_trans by metis
    qed
    with body(3) show ?thesis by simp
  qed simp
  with h show ?thesis by simp
qed

text \<open>
  C4: a hang-up creates and destroys no money: whatever it finds and whatever fails, every
  balance moves by exactly the ledger rows it writes (both or neither are committed).
\<close>

theorem cdr_conserves_money:
  "conserves (ss_db s) (ss_db (snd (cdr_handler env body s)))"
  by (rule cdr_money)

lemma charge_of_billed [simp]:
  "c_charge (billed_cdr req oid ord did rc st) =
     snd (snd (charge_for_call (cr_billsec req) (r_bill_min rc) (r_bill_inc rc) (r_per_minute rc)))"
  "c_call_id (billed_cdr req oid ord did rc st) = sanitize_call_id (cr_call_id req)"
  by (simp_all add: billed_cdr_def split: prod.split)

lemma tbl_insert_in: "(next_id t, r) \<in> set (tbl_insert r t)"
  by (simp add: tbl_insert_def)

text \<open>
  C21: what a hang-up costs: an answer with a positive charge \<open>c\<close> means the order the call
  belongs to was found, \<open>c\<close> is the price of its rate card for the reported seconds, exactly
  the order's user was debited \<open>c\<close> and nobody else, one \<open>call_charge\<close> row of \<open>-c\<close> with the
  new balance was appended, and the first report of a call stores a CDR with that charge.
\<close>

theorem cdr_charges_exactly:
  assumes "cdr_handler env (Some req) s = (CdrOk c, s')" "0 < c"
  shows "\<exists>oid ord did rc bal. cdr_lookup env (sanitize_call_id (cr_call_id req)) (parse_e164 (cr_dst req)) (ss_db s) =
      Some (oid, ord, did, rc) \<and>
    c = snd (snd (charge_for_call (cr_billsec req) (r_bill_min rc) (r_bill_inc rc) (r_per_minute rc))) \<and>
    balance (ss_db s) (o_user ord) = Some bal \<and>
    (\<forall>v. balance (ss_db s') v = (if v = o_user ord then Some (bal - c) else balance (ss_db s) v)) \<and>
    (\<exists>l. ledger (ss_db s') = ledger (ss_db s) @ [l] \<and> l_user l = o_user ord \<and> l_delta l = - c \<and>
         l_kind l = LedgerCallCharge \<and> l_after l = bal - c) \<and>
    ((\<exists>x \<in> set (cdrs (ss_db s)). c_call_id (snd x) = sanitize_call_id (cr_call_id req)) \<or>
     (\<exists>x \<in> set (cdrs (ss_db s')). c_call_id (snd x) = sanitize_call_id (cr_call_id req) \<and> c_charge (snd x) = c \<and>
        c_order (snd x) = Some oid \<and> c_user (snd x) = Some (o_user ord)))"
  using assms(1)
proof (cases rule: cdr_handler_db)
  case (body req' s1)
  have body': "cdr_body env req s = (CdrOk c, s1)" "ss_db s' = ss_db s1" using body by simp_all
  from body'(1) show ?thesis
  proof (cases rule: cdr_body_cases)
    case (billed oid ord did rc st)
    let ?row = "billed_cdr req oid ord did rc st" and ?cid = "sanitize_call_id (cr_call_id req)"
    have c: "c = c_charge ?row" using billed(2) by simp
    have pc: "post_charge (o_user ord) ?cid c (upsert_cdr st ?row (ss_db s)) = Some (ss_db s')"
      using billed(3) assms(2) c body'(2) by auto
    have bal_up: "balance (upsert_cdr st ?row (ss_db s)) = balance (ss_db s)" by (rule balance_cong) simp
    obtain l where l: "ledger (ss_db s') = ledger (ss_db s) @ [l]" "l_user l = o_user ord" "l_delta l = - c"
      "l_kind l = LedgerCallCharge" "Some (l_after l) = balance (ss_db s') (o_user ord)"
      using post_charge_Some(6) [OF pc] by auto
    obtain bal where bal: "balance (ss_db s) (o_user ord) = Some bal" "l_after l = bal - c"
      using l(5) unfolding post_charge_money(1) [OF pc] bal_up
      by (cases "balance (ss_db s) (o_user ord)") auto
    have cols: "c_order ?row = Some oid" "c_user ?row = Some (o_user ord)"
      by (simp_all add: billed_cdr_def split: prod.split)
    have row: "(\<exists>x \<in> set (cdrs (ss_db s)). c_call_id (snd x) = ?cid) \<or>
        (\<exists>x \<in> set (cdrs (ss_db s')). c_call_id (snd x) = ?cid \<and> c_charge (snd x) = c \<and>
           c_order (snd x) = Some oid \<and> c_user (snd x) = Some (o_user ord))"
    proof (cases "tbl_find (\<lambda>_ x. c_call_id x = ?cid) (cdrs (ss_db s)) = None")
      case True
      then have "cdrs (ss_db s') = tbl_insert ?row (cdrs (ss_db s))"
        using post_charge_Some(3) [OF pc] by (simp add: upsert_cdr_def)
      then have "(next_id (cdrs (ss_db s)), ?row) \<in> set (cdrs (ss_db s'))" by (simp add: tbl_insert_in)
      then show ?thesis using c cols by (intro disjI2 bexI) simp_all
    next
      case False
      then obtain k x where "tbl_find (\<lambda>_ x. c_call_id x = ?cid) (cdrs (ss_db s)) = Some (k, x)" by auto
      from tbl_find_Some [OF this] have "\<exists>x \<in> set (cdrs (ss_db s)). c_call_id (snd x) = ?cid" by force
      then show ?thesis ..
    qed
    show ?thesis
    proof (rule exI [of _ oid], rule exI [of _ ord], rule exI [of _ did], rule exI [of _ rc],
        rule exI [of _ bal], intro conjI)
      show "cdr_lookup env ?cid (parse_e164 (cr_dst req)) (ss_db s) = Some (oid, ord, did, rc)" by (rule billed(1))
      show "c = snd (snd (charge_for_call (cr_billsec req) (r_bill_min rc) (r_bill_inc rc) (r_per_minute rc)))"
        using c by simp
      show "balance (ss_db s) (o_user ord) = Some bal" by (rule bal(1))
      show "\<forall>v. balance (ss_db s') v = (if v = o_user ord then Some (bal - c) else balance (ss_db s) v)"
        using post_charge_money(1) [OF pc] bal(1) by (simp add: bal_up)
      show "\<exists>l. ledger (ss_db s') = ledger (ss_db s) @ [l] \<and> l_user l = o_user ord \<and> l_delta l = - c \<and>
          l_kind l = LedgerCallCharge \<and> l_after l = bal - c" using l bal(2) by blast
    qed (rule row)
  qed (use assms(2) in auto)
qed simp

definition hangup_of :: "string \<Rightarrow> int \<Rightarrow> cdr_request" where
  "hangup_of cid secs = \<lparr>cr_call_id = cid, cr_reservation = cid, cr_started = 1000, cr_answered = 1001,
     cr_ended = 1001 + secs, cr_billsec = secs, cr_cause = ''16'', cr_src = ''sip:alice@example'',
     cr_dst = ''sip:+442038968001@1.2.3.4''\<rparr>"

lemma hangup_reply: "fst (cdr_handler call_env (Some (hangup_of ''c1@10.0.0.9'' 120)) call_state0) = CdrOk 3"
  by code_simp

theorem cdr_charges_exactly_witness:
  "balance (ss_db (snd (cdr_handler call_env (Some (hangup_of ''c1@10.0.0.9'' 120)) call_state0))) 1 = Some 697"
proof -
  let ?h = "cdr_handler call_env (Some (hangup_of ''c1@10.0.0.9'' 120)) call_state0"
  have h: "?h = (CdrOk 3, snd ?h)" using hangup_reply by (metis prod.collapse)
  have lk: "map_option (\<lambda>(a, b, c, d). o_user b) (cdr_lookup call_env (sanitize_call_id ''c1@10.0.0.9'')
      (parse_e164 ''sip:+442038968001@1.2.3.4'') call_db) = Some 1" by code_simp
  have "balance call_db 1 = Some 700" by (simp add: balance_def call_db_def tbl_get_def)
  with cdr_charges_exactly [OF h] lk show ?thesis by (auto simp: hangup_of_def call_state0_def)
qed

text \<open>
  A repeated report charges again: delivering the same hang-up twice (as the AGI script
  does when the first answer is lost) debits the user twice while the CDR list still shows
  one call with the single charge.
\<close>

theorem cdr_retry_charges_again:
  "let s1 = snd (cdr_handler call_env (Some (hangup_of ''c1@10.0.0.9'' 120)) call_state0);
       s2 = snd (cdr_handler call_env (Some (hangup_of ''c1@10.0.0.9'' 120)) s1)
   in balance (ss_db s1) 1 = Some 697 \<and> balance (ss_db s2) 1 = Some 694 \<and>
      map (\<lambda>x. c_charge (snd x)) (cdrs (ss_db s2)) = [3]"
  by code_simp

subsection \<open>Reservations: freed by the hang-up, leaked by the sweep\<close>

lemma fold_rem_gone:
  "k \<in> set keys \<Longrightarrow> c \<in> set cids \<Longrightarrow>
     c \<notin> set_members now (fold (\<lambda>k. fold (\<lambda>c. set_rem now k c) cids) keys r) k"
proof (induction keys arbitrary: r)
  case (Cons k' keys)
  have one: "c \<notin> set_members now (fold (\<lambda>c. set_rem now k c) cids r) k" if "c \<in> set cids" for cids r
    using that
  proof (induction cids arbitrary: r)
    case (Cons c' cids)
    have "set_members now (fold (\<lambda>c. set_rem now k c) cids (set_rem now k c r)) k \<subseteq> set_members now (set_rem now k c r) k"
      by (rule fold_shrinks [where g = "\<lambda>r. set_members now r k"]) auto
    then have "c \<notin> set_members now (fold (\<lambda>c. set_rem now k c) cids (set_rem now k c r)) k" by auto
    with Cons show ?case by auto
  qed simp
  have shrink: "set_members now (fold (\<lambda>k. fold (\<lambda>c. set_rem now k c) cids) keys r) k \<subseteq> set_members now r k" for r
  proof (rule fold_shrinks [where g = "\<lambda>r. set_members now r k"])
    show "set_members now (fold (\<lambda>c. set_rem now k' c) cids r) k \<subseteq> set_members now r k" for k' r
      by (rule fold_shrinks [where g = "\<lambda>r. set_members now r k"]) auto
  qed
  show ?case
  proof (cases "k = k'")
    case True
    with one [OF Cons.prems(2)] shrink show ?thesis by auto
  next
    case False
    with Cons show ?thesis by simp
  qed
qed simp

lemma release_pages_gone:
  "k \<in> set (concat kss) \<Longrightarrow> c \<in> set cids \<Longrightarrow>
     c \<notin> set_members now (snd (release_pages now cids (map Some kss) r)) k"
proof (induction kss arbitrary: r)
  case (Cons ks kss)
  let ?r = "fold (\<lambda>k. fold (\<lambda>c. set_rem now k c) cids) ks r"
  show ?case
  proof (cases "k \<in> set ks")
    case True
    then show ?thesis
      using fold_rem_gone [OF True Cons.prems(2), of now r] release_pages_members [of now cids "map Some kss" ?r k]
      by auto
  next
    case False
    with Cons show ?thesis by simp
  qed
qed simp

text \<open>
  C22: a hang-up gives everything back: however the booking ends, when the SCAN visits every
  key that holds the call and Redis answers, the raw Call-ID is in no reservation set
  afterwards and the live index no longer knows the call.
\<close>

theorem cdr_frees_the_call:
  assumes "cdr_handler env (Some req) s = (reply, s')" "\<not> se_fault env FDeregister"
    and "se_pages env = map Some kss" "sanitize_call_id (cr_call_id req) \<noteq> []"
    and "\<And>k. cr_call_id req \<in> set_members (se_now env) (ss_redis s) k \<Longrightarrow> k \<in> set (concat kss)"
  shows "(\<forall>k. cr_call_id req \<notin> set_members (se_now env) (ss_redis s') k) \<and>
    live_get t False (sanitize_call_id (cr_call_id req)) (ss_redis s') = Inr None \<and>
    sanitize_call_id (cr_call_id req) \<notin> fst ` set (rd_active (ss_redis s'))"
  using assms(1)
proof (cases rule: cdr_handler_db)
  case (body req' s1)
  then have b: "cdr_body env req s = (reply, s1)" "s' = cdr_release env (cr_call_id req) s1" by simp_all
  let ?c = "cr_call_id req"
  let ?r = "snd (release_pages (se_now env) [?c] (se_pages env) (ss_redis s1))"
  have s': "ss_redis s' = snd (live_deregister False (sanitize_call_id ?c) ?r)"
    using b(2) assms(2) by (simp add: cdr_release_def release_channel_by_call_id_def Let_def)
  have m: "set_members (se_now env) (ss_redis s') k = set_members (se_now env) ?r k" for k
    by (rule members_cong) (simp add: s' live_deregister_def)
  have "?c \<notin> set_members (se_now env) ?r k" for k
  proof (cases "k \<in> set (concat kss)")
    case True
    then show ?thesis using release_pages_gone [OF True, of ?c "[?c]"] assms(3) by simp
  next
    case False
    then have "?c \<notin> set_members (se_now env) (ss_redis s) k" using assms(5) by blast
    then have "?c \<notin> set_members (se_now env) (ss_redis s1) k"
      using members_cong [of "ss_redis s1" k "ss_redis s" "se_now env"] cdr_body_frame(1) [OF b(1)] by simp
    then show ?thesis using release_pages_members by blast
  qed
  moreover have "live_get t False (sanitize_call_id ?c) (ss_redis s') = Inr None"
    using assms(4) by (simp add: s' live_deregister_def live_get_def)
  moreover have "sanitize_call_id ?c \<notin> fst ` set (rd_active (ss_redis s'))"
    using assms(4) by (auto simp: s' live_deregister_def)
  ultimately show ?thesis using m by simp
qed simp

lemma no_members_empty [simp]: "set_members now empty_redis k = {}"
  by (simp add: set_members_def empty_redis_def)

theorem cdr_frees_the_call_witness:
  "''c1@10.0.0.9'' \<notin> set_members 1000 (ss_redis (snd (cdr_handler call_env (Some (hangup_of ''c1@10.0.0.9'' 120))
     (snd (decide call_env (invite_of ''c1@10.0.0.9'' ''442038968001'') call_state0))))) (user_key 1)"
proof -
  let ?d = "decide call_env (invite_of ''c1@10.0.0.9'' ''442038968001'') call_state0"
  let ?h = "cdr_handler call_env (Some (hangup_of ''c1@10.0.0.9'' 120)) (snd ?d)"
  have h: "?h = (fst ?h, snd ?h)" by simp
  have e: "se_now call_env = 1000" "se_pages call_env = map Some [[''act:user:1'', ''act:did:1'']]"
    "\<not> se_fault call_env FDeregister" by (simp_all add: call_env_def se_now_def)
  have c: "cr_call_id (hangup_of ''c1@10.0.0.9'' 120) = ''c1@10.0.0.9''" "sanitize_call_id ''c1@10.0.0.9'' \<noteq> []"
    by code_simp+
  have "k \<in> {''act:user:1'', ''act:did:1''}"
    if "''c1@10.0.0.9'' \<in> set_members 1000 (ss_redis (snd ?d)) k" for k
  proof (rule ccontr)
    assume k: "\<not> ?thesis"
    have sets: "fst (rd_sets (ss_redis (snd ?d)) k) = {}" if "k \<noteq> ''act:user:1''" "k \<noteq> ''act:did:1''" for k
    proof -
      have keys: "user_key 1 = ''act:user:1''" "did_key 1 = ''act:did:1''" by code_simp+
      have d: "?d = (fst ?d, snd ?d)" by simp
      from d show ?thesis
      proof (cases rule: decide_sets)
        case same
        then show ?thesis by (simp add: call_state0_def empty_redis_def)
      next
        case (reserved did oid ord usr rc r)
        have "(oid, ord) \<in> set (orders call_db)" "o_did ord = did"
          using find_order_in [OF reserved(1)] by (simp_all add: callable_orders_iff call_state0_def)
        then have "did = 1" "o_user ord = 1" by (auto simp: call_db_def call_order_def)
        with reserved(3,4) that keys show ?thesis
          by (auto simp: reserve_channel_def reserve_lua_def Let_def set_add_def set_expire_def call_state0_def
              empty_redis_def split: if_splits)
      qed
    qed
    from k sets [of k] that members_subset_raw [of 1000 "ss_redis (snd ?d)" k] show False by auto
  qed
  then have "\<And>k. cr_call_id (hangup_of ''c1@10.0.0.9'' 120) \<in> set_members (se_now call_env) (ss_redis (snd ?d)) k \<Longrightarrow>
      k \<in> set (concat [[''act:user:1'', ''act:did:1'']])" unfolding c(1) e(1) by simp
  from cdr_frees_the_call [OF h e(3,2) _ this, THEN conjunct1] c show ?thesis by (simp add: e(1))
qed

lemma fold_set_rem_keeps:
  assumes "c \<notin> set cids"
  shows "c \<in> set_members now (fold (\<lambda>k. fold (\<lambda>c. set_rem now k c) cids) keys r) k \<longleftrightarrow> c \<in> set_members now r k"
proof -
  have one: "c \<in> set_members now (fold (\<lambda>c. set_rem now k' c) cids r) k \<longleftrightarrow> c \<in> set_members now r k" for k' r
    using assms by (induction cids arbitrary: r) auto
  show ?thesis by (induction keys arbitrary: r) (simp_all add: one)
qed

lemma release_pages_keeps:
  "c \<notin> set cids \<Longrightarrow> c \<in> set_members now (snd (release_pages now cids ps r)) k \<longleftrightarrow> c \<in> set_members now r k"
proof (induction now cids ps r rule: release_pages.induct)
  case (3 now cids keys ps r)
  then show ?case by (simp add: fold_set_rem_keeps)
qed simp_all

text \<open>The live index only ever holds sanitised Call-IDs, which contain no \<open>@\<close>.\<close>

definition ids_clean :: "redis \<Rightarrow> bool" where
  "ids_clean r \<longleftrightarrow> (\<forall>k ac e. rd_meta r k = Some (Blob ac, e) \<longrightarrow> CHR ''@'' \<notin> set (ac_call_id ac))"

text \<open>
  The reconciler frees no channel of a call with an ordinary Call-ID: reservations are
  held under the raw Call-ID, a sweep passes the sanitised ones, so a raw Call-ID with an
  \<open>@\<close> stays in every reservation set whatever the sweep evicts, until the key expires.
\<close>

theorem sweep_leaks_reservations:
  assumes "reconcile_once renv (r, d) = (evicted, r', d')" "ids_clean r" "CHR ''@'' \<in> set cid"
  shows "cid \<in> set_members (rc_now renv) r' k \<longleftrightarrow> cid \<in> set_members (rc_now renv) r k"
  using assms(1)
proof (cases rule: reconcile_cases)
  case idle
  then have "rd_sets r' = rd_sets r" using live_list_ok(3) by auto
  then have "set_members (rc_now renv) r' k = set_members (rc_now renv) r k" by (intro members_cong) simp
  then show ?thesis by simp
next
  case (swept chans calls r1 r2)
  have "CHR ''@'' \<notin> set (ac_call_id ac)" if "ac \<in> set calls" for ac
  proof -
    from that live_list_ok(1) [OF swept(2)] obtain m where "ttl_get (rc_now renv) (rd_meta r) m = Some (Blob ac)"
      by blast
    with assms(2) show ?thesis
      unfolding ids_clean_def ttl_get_def by (fastforce split: option.splits if_splits)
  qed
  then have "cid \<notin> set evicted" using assms(3) unfolding swept(3) evicted_of_def by auto
  then have "cid \<in> set_members (rc_now renv) r' k \<longleftrightarrow> cid \<in> set_members (rc_now renv) r2 k"
    using swept(5) by (auto simp: release_channel_reservations_def release_pages_keeps)
  moreover have "set_members (rc_now renv) r2 k = set_members (rc_now renv) r k"
    using swept(4) live_list_ok(3) [OF swept(2)] by (intro members_cong) simp
  ultimately show ?thesis by simp
qed

definition ghost_redis :: redis where
  "ghost_redis = set_add 1000 ''act:did:1'' ''b@10.0.0.9'' sample_redis"

theorem sweep_leaks_reservations_witness:
  "''b'' \<in> set (fst (reconcile_once sample_env (ghost_redis, empty_db))) \<and>
   ''b@10.0.0.9'' \<in> set_members 1100 (fst (snd (reconcile_once sample_env (ghost_redis, empty_db)))) ''act:did:1''"
proof
  show "''b'' \<in> set (fst (reconcile_once sample_env (ghost_redis, empty_db)))" by code_simp
  obtain ev r' d' where rec: "reconcile_once sample_env (ghost_redis, empty_db) = (ev, r', d')"
    using prod_cases3 by blast
  have "ids_clean ghost_redis"
    by (auto simp: ids_clean_def ghost_redis_def sample_redis_def sample_call_def empty_redis_def split: if_splits)
  moreover have "''b@10.0.0.9'' \<in> set_members 1100 ghost_redis ''act:did:1''" by code_simp
  ultimately show "''b@10.0.0.9'' \<in> set_members 1100 (fst (snd (reconcile_once sample_env (ghost_redis, empty_db)))) ''act:did:1''"
    using sweep_leaks_reservations [OF rec, of "''b@10.0.0.9''" "''act:did:1''"] rec by (simp add: sample_env_def)
qed

text \<open>
  A misconfigured audio-group order leaks a channel per call: when the group is missing
  or cannot be resolved the call is refused after its channel was reserved, and the
  reservation stays.
\<close>

theorem misconfigured_group_leaks:
  assumes "admit_call env req e i sid oid ord usr rc m s = (resp, s')"
    and "rs_reason resp = ''reservation_misconfigured''"
  shows "rs_decision resp = ''deny'' \<and>
    rq_call_id req \<in> set_members (se_now env) (ss_redis s') (user_key (o_user ord)) \<and>
    rq_call_id req \<in> set_members (se_now env) (ss_redis s') (did_key i)"
proof -
  obtain res r where rs: "reserve_channel (se_now env) (se_fault env FReserve) (o_user ord) i (rq_call_id req)
      (u_cap usr) (o_channels ord) (ss_redis s) = (res, r)" by (meson surj_pair)
  have "res = Some 1"
  proof (rule ccontr)
    assume "res \<noteq> Some 1"
    with reserve_channel_no(2) [OF rs] have "res = None \<or> res = Some (-1) \<or> res = Some (-2)" by auto
    with assms rs show False by (auto simp: admit_call_def Let_def)
  qed
  note res = reserve_channel_1(3) [OF rs [unfolded this]]
  have "rd_sets (ss_redis s') = rd_sets r" using admit_sets [OF rs] assms(1) by (metis snd_conv)
  then have "set_members (se_now env) (ss_redis s') k = set_members (se_now env) r k" for k
    by (intro members_cong) simp
  moreover have "rs_decision resp = ''deny''"
    using assms rs \<open>res = Some 1\<close>
    by (auto simp: admit_call_def Let_def no_response_def split: if_splits option.splits prod.splits)
  ultimately show ?thesis using res by simp
qed

definition group_order :: order_row where
  "group_order = call_order\<lparr>o_kind := RouteAudioGroup, o_target := [], o_group := Some 7\<rparr>"

theorem misconfigured_group_leaks_witness:
  "''c1@10.0.0.9'' \<in> set_members 1000 (ss_redis (snd (admit_call call_env
     (invite_of ''c1@10.0.0.9'' ''442038968001'') ''442038968001'' 1 1 10 group_order
     (plain_user 700 1 ''active'') (snd (hd (rate_cards call_db))) 60 call_state0))) (user_key 1)"
proof -
  let ?a = "admit_call call_env (invite_of ''c1@10.0.0.9'' ''442038968001'') ''442038968001'' 1 1 10 group_order
     (plain_user 700 1 ''active'') (snd (hd (rate_cards call_db))) 60 call_state0"
  have a: "?a = (fst ?a, snd ?a)" by simp
  have r: "rs_reason (fst ?a) = ''reservation_misconfigured''" by code_simp
  have c: "o_user group_order = 1" "rq_call_id (invite_of ''c1@10.0.0.9'' ''442038968001'') = ''c1@10.0.0.9''"
    "se_now call_env = 1000" by (simp_all add: group_order_def call_order_def invite_of_def call_env_def se_now_def)
  from misconfigured_group_leaks [OF a r] show ?thesis unfolding c by blast
qed

end
