(* ===== verification/User_Block.thy ===== *)
theory User_Block
  imports Call_Control
begin

text \<open>
  \<open>web/block_handlers.go\<close>: blocking a user quarantines all of their active orders and
  remembers their routes, unblocking restores them; each is one transaction with an audit
  row. A statement, the begin and the commit may fail; then nothing is kept.
\<close>

datatype block_reply =
    BlkNoReason | BlkBegin | BlkUserFailed | BlkNothing | BlkOrdersFailed | BlkAuditFailed | BlkCommitFailed | BlkDone

record block_faults =
  bf_begin :: bool
  bf_user :: bool
  bf_orders :: bool
  bf_audit :: bool
  bf_commit :: bool

definition nullable_admin :: "int \<Rightarrow> db_id option" where
  "nullable_admin a = (if a = 0 then None else Some a)"

definition user_is :: "string \<Rightarrow> db_id \<Rightarrow> db_id \<Rightarrow> user_row \<Rightarrow> bool" where
  "user_is st uid k u \<longleftrightarrow> k = uid \<and> u_status u = st"

definition order_is :: "order_status \<Rightarrow> db_id \<Rightarrow> db_id \<Rightarrow> order_row \<Rightarrow> bool" where
  "order_is st uid k ord \<longleftrightarrow> o_user ord = uid \<and> o_status ord = st"

definition quarantine_order :: "order_row \<Rightarrow> order_row" where
  "quarantine_order ord =
     ord\<lparr>o_pre_kind := Some (o_kind ord), o_pre_target := Some (o_target ord), o_status := OrdQuarantined\<rparr>"

definition restore_order :: "order_row \<Rightarrow> order_row" where
  "restore_order ord =
     ord\<lparr>o_kind := (case o_pre_kind ord of Some k \<Rightarrow> k | None \<Rightarrow> o_kind ord),
       o_target := (case o_pre_target ord of Some t \<Rightarrow> t | None \<Rightarrow> o_target ord),
       o_pre_kind := None, o_pre_target := None, o_status := OrdActive\<rparr>"

definition log_block :: "block_row \<Rightarrow> db \<Rightarrow> db" where
  "log_block b d = d\<lparr>block_log := tbl_insert b (block_log d)\<rparr>"

text \<open>The body of both transactions: the user's status, the orders, the audit row.\<close>

definition block_tx ::
  "block_faults \<Rightarrow> string \<Rightarrow> string \<Rightarrow> order_status \<Rightarrow> (order_row \<Rightarrow> order_row) \<Rightarrow> block_row \<Rightarrow> db_id \<Rightarrow> db \<Rightarrow> block_reply \<times> db" where
  "block_tx flt old new st f row uid d =
     (if bf_begin flt then (BlkBegin, d)
      else if bf_user flt then (BlkUserFailed, d)
      else if affected (user_is old uid) (users d) = 0 then (BlkNothing, d)
      else let d1 = d\<lparr>users := tbl_upd_where (user_is old uid) (\<lambda>u. u\<lparr>u_status := new\<rparr>) (users d)\<rparr> in
        let d2 = d1\<lparr>orders := tbl_upd_where (order_is st uid) f (orders d1)\<rparr> in
        if bf_orders flt \<or> \<not> one_active_per_did (orders d2) then (BlkOrdersFailed, d)
        else if bf_audit flt then (BlkAuditFailed, d)
          else if bf_commit flt then (BlkCommitFailed, d)
          else (BlkDone, log_block row d2))"

text \<open>The forms: the fields as \<open>PostForm.Get\<close> returns them.\<close>

definition user_block :: "block_faults \<Rightarrow> db_id \<Rightarrow> string \<Rightarrow> string \<Rightarrow> int \<Rightarrow> db \<Rightarrow> block_reply \<times> db" where
  "user_block flt uid reason0 bundle0 admin d =
     (let reason = trim_space reason0 in
      if reason = [] then (BlkNoReason, d)
      else let bundle = (if 0 < atoi64 bundle0 then Some (atoi64 bundle0) else None)
           in block_tx flt ''active'' ''inactive'' OrdActive quarantine_order
                \<lparr>bl_user = uid, bl_action = ''block'', bl_reason = reason, bl_bundle = bundle, bl_by = nullable_admin admin,
                 bl_order = None, bl_details = None\<rparr> uid d)"

definition user_unblock :: "block_faults \<Rightarrow> db_id \<Rightarrow> string \<Rightarrow> int \<Rightarrow> db \<Rightarrow> block_reply \<times> db" where
  "user_unblock flt uid reason0 admin d =
     (let r = trim_space reason0; reason = (if r = [] then ''unblocked'' else r)
      in block_tx flt ''inactive'' ''active'' OrdQuarantined restore_order
           \<lparr>bl_user = uid, bl_action = ''unblock'', bl_reason = reason, bl_bundle = None, bl_by = nullable_admin admin,
                 bl_order = None, bl_details = None\<rparr> uid d)"

text \<open>The audit trail of the user page: the latest entries first.\<close>

definition load_block_history :: "bool \<Rightarrow> db_id \<Rightarrow> nat \<Rightarrow> db \<Rightarrow> (string \<times> string \<times> db_id) list" where
  "load_block_history fails uid limit d =
     (if fails then []
      else map (\<lambda>(k, b). (bl_action b, bl_reason b, case bl_bundle b of Some i \<Rightarrow> i | None \<Rightarrow> 0))
        (take limit (rev (sort_key fst (filter (\<lambda>(k, b). bl_user b = uid) (block_log d))))))"

definition block_history_for :: "bool \<Rightarrow> db_id \<Rightarrow> db \<Rightarrow> (string \<times> string \<times> db_id) list" where
  "block_history_for fails uid d = load_block_history fails uid 50 d"

subsection \<open>One transaction\<close>

lemma block_tx_done:
  assumes "block_tx flt old new st f row uid d = (BlkDone, e)"
  shows "e = log_block row (d\<lparr>users := tbl_upd_where (user_is old uid) (\<lambda>u. u\<lparr>u_status := new\<rparr>) (users d),
      orders := tbl_upd_where (order_is st uid) f (orders d)\<rparr>)"
    "affected (user_is old uid) (users d) \<noteq> 0"
  using assms by (auto simp: block_tx_def Let_def split: if_splits)

lemma block_tx_atomic: "block_tx flt old new st f row uid d = (rep, e) \<Longrightarrow> rep \<noteq> BlkDone \<Longrightarrow> e = d"
  by (auto simp: block_tx_def Let_def split: if_splits)

lemma block_tx_sel:
  assumes "block_tx flt old new st f row uid d = (BlkDone, e)"
  shows "users e = tbl_upd_where (user_is old uid) (\<lambda>u. u\<lparr>u_status := new\<rparr>) (users d)"
    "orders e = tbl_upd_where (order_is st uid) f (orders d)" "dids e = dids d"
    "block_log e = tbl_insert row (block_log d)"
  by (simp_all add: block_tx_done(1) [OF assms] log_block_def)

lemma user_block_tx:
  assumes "user_block flt uid reason bundle admin d = (BlkDone, e)"
  obtains row where "bl_user row = uid" "bl_action row = ''block''"
    "block_tx flt ''active'' ''inactive'' OrdActive quarantine_order row uid d = (BlkDone, e)"
proof -
  let ?row = "\<lparr>bl_user = uid, bl_action = ''block'', bl_reason = trim_space reason,
    bl_bundle = (if 0 < atoi64 bundle then Some (atoi64 bundle) else None),
    bl_by = nullable_admin admin,
                 bl_order = None, bl_details = None\<rparr>"
  have "block_tx flt ''active'' ''inactive'' OrdActive quarantine_order ?row uid d = (BlkDone, e)"
    using assms by (simp add: user_block_def Let_def split: if_splits)
  then show thesis by (rule that [rotated 2]) simp_all
qed

lemma user_unblock_tx:
  assumes "user_unblock flt uid reason admin d = (BlkDone, e)"
  obtains row where "bl_user row = uid" "bl_action row = ''unblock''"
    "block_tx flt ''inactive'' ''active'' OrdQuarantined restore_order row uid d = (BlkDone, e)"
  by (rule that [OF _ _ assms [unfolded user_unblock_def Let_def]]) simp_all

lemma tbl_upd_where_undo:
  assumes "\<And>k r. (k, r) \<in> set t \<Longrightarrow> P k r \<Longrightarrow> Q k (f r) \<and> g (f r) = r"
    and "\<And>k r. (k, r) \<in> set t \<Longrightarrow> \<not> P k r \<Longrightarrow> \<not> Q k r"
  shows "tbl_upd_where Q g (tbl_upd_where P f t) = t"
  using assms by (auto simp: tbl_upd_where_def split_def comp_def intro!: map_idI)

text \<open>
  C10: a block followed by an unblock restores the account: users and orders are exactly as
  before, provided no order of the user was quarantined or carried a remembered route
  before; only the two audit rows remain. A block or unblock that does not report success
  changes nothing.
\<close>

theorem block_unblock_roundtrip:
  assumes "distinct (tbl_ids (users d))"
    and "\<forall>(k, ord) \<in> set (orders d). o_user ord = uid \<longrightarrow> o_status ord \<noteq> OrdQuarantined \<and>
           (o_status ord = OrdActive \<longrightarrow> o_pre_kind ord = None \<and> o_pre_target ord = None)"
    and "user_block flt uid reason bundle admin d = (BlkDone, d1)"
    and "user_unblock flt' uid reason' admin' d1 = (BlkDone, d2)"
  shows "users d2 = users d \<and> orders d2 = orders d \<and> (\<exists>rows. length rows = 2 \<and> block_log d2 = block_log d @ rows)"
proof -
  obtain x where x: "block_tx flt ''active'' ''inactive'' OrdActive quarantine_order x uid d = (BlkDone, d1)"
    using user_block_tx [OF assms(3)] by blast
  obtain y where y: "block_tx flt' ''inactive'' ''active'' OrdQuarantined restore_order y uid d1 = (BlkDone, d2)"
    using user_unblock_tx [OF assms(4)] by blast
  from block_tx_done(2) [OF x] obtain usr where usr: "(uid, usr) \<in> set (users d)" "u_status usr = ''active''"
    by (auto simp: affected_0 user_is_def)
  have only: "r = usr" if "(uid, r) \<in> set (users d)" for r
    using tbl_in_get [OF assms(1) that] tbl_in_get [OF assms(1) usr(1)] by simp
  have "users d2 = users d"
    unfolding block_tx_sel(1) [OF y] block_tx_sel(1) [OF x]
    by (rule tbl_upd_where_undo) (use only usr(2) in \<open>auto simp: user_is_def\<close>)
  moreover have "orders d2 = orders d"
    unfolding block_tx_sel(2) [OF y] block_tx_sel(2) [OF x]
    by (rule tbl_upd_where_undo) (use assms(2) in \<open>fastforce simp: order_is_def quarantine_order_def restore_order_def\<close>)+
  moreover have "\<exists>rows. length rows = 2 \<and> block_log d2 = block_log d @ rows"
    unfolding block_tx_sel(4) [OF y] block_tx_sel(4) [OF x]
    by (rule exI [of _ "[(next_id (block_log d), x), (next_id (tbl_insert x (block_log d)), y)]"])
      (simp add: tbl_insert_def)
  ultimately show ?thesis by blast
qed

lemma blocked_orders:
  assumes "user_block flt uid reason bundle admin d = (BlkDone, e)" "(k, ord) \<in> set (orders e)"
  shows "\<exists>old. (k, old) \<in> set (orders d) \<and> o_user ord = o_user old \<and> o_did ord = o_did old \<and>
    (o_user ord = uid \<longrightarrow> o_status ord \<noteq> OrdActive)"
proof -
  obtain x where x: "block_tx flt ''active'' ''inactive'' OrdActive quarantine_order x uid d = (BlkDone, e)"
    using user_block_tx [OF assms(1)] by blast
  from assms(2) show ?thesis
    unfolding block_tx_sel(2) [OF x] tbl_upd_where_def
    by (auto simp: order_is_def quarantine_order_def split: if_splits)
qed


text \<open>
  A route that is edited while its order is quarantined is lost: the unblock puts back the
  route remembered at the block, whatever route the order has by then.
\<close>

theorem quarantine_edit_lost:
  assumes "user_unblock flt uid reason admin d = (BlkDone, e)" "tbl_get (orders d) oid = Some ord"
    and "o_user ord = uid" "o_status ord = OrdQuarantined" "o_pre_kind ord = Some k" "o_pre_target ord = Some t"
  shows "map_option (\<lambda>x. (o_status x, o_kind x, o_target x)) (tbl_get (orders e) oid) = Some (OrdActive, k, t)"
proof -
  obtain y where y: "block_tx flt ''inactive'' ''active'' OrdQuarantined restore_order y uid d = (BlkDone, e)"
    using user_unblock_tx [OF assms(1)] by blast
  show ?thesis unfolding block_tx_sel(2) [OF y] using assms(2-) by (simp add: order_is_def restore_order_def)
qed

definition calm_faults :: block_faults where
  "calm_faults = \<lparr>bf_begin = False, bf_user = False, bf_orders = False, bf_audit = False, bf_commit = False\<rparr>"

definition blocked_db :: db where
  "blocked_db = snd (user_block calm_faults 1 ''fraud'' [] 3 call_db)"

lemma call_db_blocked: "user_block calm_faults 1 ''fraud'' [] 3 call_db = (BlkDone, blocked_db)"
proof -
  have "fst (user_block calm_faults 1 ''fraud'' [] 3 call_db) = BlkDone" by code_simp
  then show ?thesis unfolding blocked_db_def by (metis prod.collapse)
qed

theorem block_unblock_roundtrip_witness:
  "orders (snd (user_unblock calm_faults 1 [] 3 blocked_db)) = [(10, call_order)] \<and> orders blocked_db \<noteq> [(10, call_order)]"
proof
  have "fst (user_unblock calm_faults 1 [] 3 blocked_db) = BlkDone" by code_simp
  then have u: "user_unblock calm_faults 1 [] 3 blocked_db = (BlkDone, snd (user_unblock calm_faults 1 [] 3 blocked_db))"
    by (metis prod.collapse)
  have "distinct (tbl_ids (users call_db))" by (simp add: call_db_def tbl_ids_def)
  from block_unblock_roundtrip [OF this _ call_db_blocked u]
  have "orders (snd (user_unblock calm_faults 1 [] 3 blocked_db)) = orders call_db"
    by (simp add: call_db_def call_order_def)
  then show "orders (snd (user_unblock calm_faults 1 [] 3 blocked_db)) = [(10, call_order)]" by (simp add: call_db_def)
  have "map (\<lambda>(k, x). o_status x) (orders blocked_db) = [OrdQuarantined]" by code_simp
  then show "orders blocked_db \<noteq> [(10, call_order)]" by (auto simp: call_order_def)
qed


theorem quarantine_edit_lost_witness:
  "let d = blocked_db\<lparr>orders := tbl_upd 10 (\<lambda>x. x\<lparr>o_target := ''sip:new@example''\<rparr>) (orders blocked_db)\<rparr>
   in map_option o_target (tbl_get (orders (snd (user_unblock calm_faults 1 [] 3 d))) 10) = Some (o_target call_order)"
proof -
  let ?d = "blocked_db\<lparr>orders := tbl_upd 10 (\<lambda>x. x\<lparr>o_target := ''sip:new@example''\<rparr>) (orders blocked_db)\<rparr>"
  have "fst (user_unblock calm_faults 1 [] 3 ?d) = BlkDone" by code_simp
  then have u: "user_unblock calm_faults 1 [] 3 ?d = (BlkDone, snd (user_unblock calm_faults 1 [] 3 ?d))"
    by (metis prod.collapse)
  have q: "tbl_get (orders ?d) 10 = Some ((quarantine_order call_order)\<lparr>o_target := ''sip:new@example''\<rparr>)"
    by code_simp
  have k: "o_user ((quarantine_order call_order)\<lparr>o_target := ''sip:new@example''\<rparr>) = 1" by (simp add: quarantine_order_def call_order_def)
  from quarantine_edit_lost [OF u q k] show ?thesis by (auto simp: quarantine_order_def)
qed

end
