(* ===== verification/Kyc.thy ===== *)
theory Kyc
  imports Go_Path Schema
begin

text \<open>
  \<open>internal/kyc/kyc.go\<close> and the handlers of \<open>web/kyc_handlers.go\<close>: file names and paths of
  the stored documents, upload, download and deletion over the database and the files on
  disk, and the approval of a bundle. A file system call or a statement may fail; \<open>info\<close>
  (a JSON text) is checked by the database and not kept here.
\<close>

subsection \<open>Names and paths\<close>

definition kyc_root :: string where "kyc_root = ''/var/lib/didstorage/kyc''"

definition is_ascii_letter :: "rune \<Rightarrow> bool" where
  "is_ascii_letter r \<longleftrightarrow> 65 \<le> r \<and> r \<le> 90 \<or> 97 \<le> r \<and> r \<le> 122"

text \<open>What the loop writes for one rune; a kept rune is written back with its own bytes.\<close>

definition kept_rune :: "rune \<times> string \<Rightarrow> string" where
  "kept_rune p =
     (case p of (r, bs) \<Rightarrow>
        if is_ascii_letter r \<or> rune_is_digit r \<or> r = 46 \<or> r = 95 \<or> r = 45 then bs else ''_'')"

definition cap80 :: "string \<Rightarrow> string" where
  "cap80 s =
     (if 80 < length s then
        let ext = path_ext s in
        if length ext \<le> 8 then take (80 - length ext) s @ ext else take 80 s
      else s)"

definition trim_dots :: "string \<Rightarrow> string" where
  "trim_dots s = rev (dropWhile (\<lambda>c. c = CHR ''.'') (rev (dropWhile (\<lambda>c. c = CHR ''.'') s)))"

definition sanitize_filename :: "string \<Rightarrow> string option" where
  "sanitize_filename name =
     (let s = trim_dots (cap80 (concat (map kept_rune (runes (path_base name)))))
      in if s = [] then None else Some s)"

definition bundle_dir :: "db_id \<Rightarrow> db_id \<Rightarrow> string" where
  "bundle_dir uid bid = path_join [kyc_root, itoa uid, itoa bid]"

definition doc_path :: "db_id \<Rightarrow> db_id \<Rightarrow> string \<Rightarrow> string" where
  "doc_path uid bid filename = path_join [kyc_root, itoa uid, itoa bid, filename]"

subsection \<open>Documents\<close>

record kyc_store =
  ky_db :: db
  ky_files :: "string \<rightharpoonup> string"

definition doc_kinds :: "string list" where
  "doc_kinds = [''id_front'', ''id_back'', ''passport'', ''address_proof'', ''company_registration'', ''other'']"

record upload_faults =
  uf_lookup :: bool
  uf_mkdir :: bool
  uf_open :: bool
  uf_copy :: bool
  uf_insert :: bool

datatype upload_reply =
    UpMalformed | UpNoFile | UpBadName | UpNoBundle | UpStorage | UpOpen | UpStream | UpInsert | UpDone string int

definition uploaded_doc :: "db_id \<Rightarrow> db_id \<Rightarrow> string \<Rightarrow> string \<Rightarrow> string \<Rightarrow> string \<Rightarrow> kyc_doc_row" where
  "uploaded_doc uid bid kind filename mime content =
     \<lparr>kd_bundle = bid, kd_kind = kind, kd_filename = filename, kd_mime = mime, kd_size = int (length content),
      kd_path = itoa uid @ ''/'' @ itoa bid @ ''/'' @ filename\<rparr>"

text \<open>
  \<open>kycDocUpload\<close>: the form is \<open>None\<close> when it does not parse, else its kind and its file,
  given by the client's file name, the content type and the bytes.
\<close>

definition kyc_doc_upload ::
  "upload_faults \<Rightarrow> db_id \<Rightarrow> (string \<times> (string \<times> string \<times> string) option) option \<Rightarrow> kyc_store \<Rightarrow> upload_reply \<times> kyc_store" where
  "kyc_doc_upload flt bid form s =
     (case form of
        None \<Rightarrow> (UpMalformed, s)
      | Some (kind0, file) \<Rightarrow>
          let kind1 = trim_space kind0; kind = (if kind1 = [] then ''other'' else kind1) in
          case file of
            None \<Rightarrow> (UpNoFile, s)
          | Some (name, mime, content) \<Rightarrow>
              (case sanitize_filename name of
                 None \<Rightarrow> (UpBadName, s)
               | Some filename \<Rightarrow>
                   (case (if uf_lookup flt then None else tbl_get (kyc_bundles (ky_db s)) bid) of
                      None \<Rightarrow> (UpNoBundle, s)
                    | Some b \<Rightarrow>
                        if uf_mkdir flt then (UpStorage, s)
                        else let path = bundle_dir (k_user b) bid @ ''/'' @ filename in
                          if uf_open flt then (UpOpen, s)
                          else if uf_copy flt then (UpStream, s\<lparr>ky_files := (ky_files s)(path := None)\<rparr>)
                          else if uf_insert flt \<or> kind \<notin> set doc_kinds
                          then (UpInsert, s\<lparr>ky_files := (ky_files s)(path := None)\<rparr>)
                          else (UpDone filename (int (length content)),
                                s\<lparr>ky_files := (ky_files s)(path \<mapsto> content),
                                  ky_db := (ky_db s)\<lparr>kyc_docs :=
                                    tbl_insert (uploaded_doc (k_user b) bid kind filename mime content) (kyc_docs (ky_db s))\<rparr>\<rparr>))))"

text \<open>The join of a document with its bundle.\<close>

definition find_doc :: "db_id \<Rightarrow> db_id \<Rightarrow> db \<Rightarrow> (db_id \<times> kyc_doc_row) option" where
  "find_doc bid doc d =
     (case tbl_get (kyc_docs d) doc of
        None \<Rightarrow> None
      | Some r \<Rightarrow> if kd_bundle r \<noteq> bid then None
                  else map_option (\<lambda>b. (k_user b, r)) (tbl_get (kyc_bundles d) bid))"

datatype download_reply = DlNotFound | DlMissing | DlFile string string

definition kyc_doc_download :: "bool \<Rightarrow> db_id \<Rightarrow> db_id \<Rightarrow> kyc_store \<Rightarrow> download_reply" where
  "kyc_doc_download lookup_fails bid doc s =
     (case (if lookup_fails then None else find_doc bid doc (ky_db s)) of
        None \<Rightarrow> DlNotFound
      | Some (uid, r) \<Rightarrow>
          (case ky_files s (doc_path uid bid (kd_filename r)) of
             None \<Rightarrow> DlMissing
           | Some content \<Rightarrow> DlFile (kd_mime r) content))"

text \<open>\<open>kycDocDelete\<close>: \<open>True\<close> when the row was deleted; the file is removed with it.\<close>

definition kyc_doc_delete :: "bool \<Rightarrow> bool \<Rightarrow> bool \<Rightarrow> db_id \<Rightarrow> db_id \<Rightarrow> kyc_store \<Rightarrow> bool \<times> kyc_store" where
  "kyc_doc_delete lookup_fails delete_fails remove_fails bid doc s =
     (case (if lookup_fails then None else find_doc bid doc (ky_db s)) of
        None \<Rightarrow> (False, s)
      | Some (uid, r) \<Rightarrow>
          if delete_fails then (False, s)
          else let s1 = s\<lparr>ky_db := (ky_db s)\<lparr>kyc_docs := filter (\<lambda>(k, r). k \<noteq> doc) (kyc_docs (ky_db s))\<rparr>\<rparr>
               in (True, if remove_fails then s1
                         else s1\<lparr>ky_files := (ky_files s)(doc_path uid bid (kd_filename r) := None)\<rparr>))"

subsection \<open>Bundles\<close>

definition kyc_bundle_create :: "bool \<Rightarrow> db_id \<Rightarrow> string \<Rightarrow> string \<Rightarrow> db \<Rightarrow> db_id option \<times> db" where
  "kyc_bundle_create fails uid type0 notes d =
     (let kind = trim_space type0 in
      if kind \<noteq> ''person'' \<and> kind \<noteq> ''company'' then (None, d)
      else if fails \<or> tbl_get (users d) uid = None then (None, d)
      else (Some (next_id (kyc_bundles d)),
            d\<lparr>kyc_bundles := tbl_insert \<lparr>k_user = uid, k_type = kind, k_status = KycPending, k_approved_by = None,
               k_approved_at = None, k_rejected_at = None, k_reason = None, k_notes = trim_space notes\<rparr> (kyc_bundles d)\<rparr>))"

definition approvable :: "db_id \<Rightarrow> db_id \<Rightarrow> kyc_row \<Rightarrow> bool" where
  "approvable bid k r \<longleftrightarrow> k = bid \<and> k_status r \<in> {KycPending, KycRejected}"

definition pending_of :: "db_id \<Rightarrow> db_id \<Rightarrow> order_row \<Rightarrow> bool" where
  "pending_of bid k ord \<longleftrightarrow> o_kyc ord = Some bid \<and> o_status ord = OrdKycPending"

text \<open>\<open>ApproveBundle\<close>, inside the caller's transaction: the number of orders activated, or an error.\<close>

definition approve_bundle :: "bool \<Rightarrow> bool \<Rightarrow> unix_time \<Rightarrow> db_id \<Rightarrow> db_id \<Rightarrow> db \<Rightarrow> nat option \<times> db" where
  "approve_bundle f1 f2 now bid admin d =
     (if f1 \<or> affected (approvable bid) (kyc_bundles d) = 0 then (None, d)
      else let d1 = d\<lparr>kyc_bundles := tbl_upd_where (approvable bid)
                   (\<lambda>r. r\<lparr>k_status := KycApproved, k_approved_by := Some admin, k_approved_at := Some now\<rparr>) (kyc_bundles d)\<rparr>;
               os = tbl_upd_where (pending_of bid) (\<lambda>ord. ord\<lparr>o_status := OrdActive\<rparr>) (orders d1)
           in if f2 \<or> \<not> one_active_per_did os then (None, d1)
              else (Some (affected (pending_of bid) (orders d1)), d1\<lparr>orders := os\<rparr>))"

text \<open>\<open>kycApprove\<close>: the transaction around it; an error or a failed commit rolls back.\<close>

definition kyc_approve :: "bool \<Rightarrow> bool \<Rightarrow> bool \<Rightarrow> bool \<Rightarrow> unix_time \<Rightarrow> db_id \<Rightarrow> db_id \<Rightarrow> db \<Rightarrow> nat option \<times> db" where
  "kyc_approve begin_fails f1 f2 commit_fails now bid admin d =
     (if begin_fails then (None, d)
      else case approve_bundle f1 f2 now bid admin d of
        (None, d') \<Rightarrow> (None, d)
      | (Some n, d') \<Rightarrow> if commit_fails then (None, d) else (Some n, d'))"

definition rejectable :: "db_id \<Rightarrow> db_id \<Rightarrow> kyc_row \<Rightarrow> bool" where
  "rejectable bid k r \<longleftrightarrow> k = bid \<and> k_status r \<in> {KycPending, KycApproved}"

definition reject_bundle :: "bool \<Rightarrow> unix_time \<Rightarrow> db_id \<Rightarrow> string \<Rightarrow> db \<Rightarrow> bool \<times> db" where
  "reject_bundle fails now bid reason d =
     (if fails then (False, d)
      else (True, d\<lparr>kyc_bundles := tbl_upd_where (rejectable bid)
                  (\<lambda>r. r\<lparr>k_status := KycRejected, k_reason := Some reason, k_rejected_at := Some now\<rparr>) (kyc_bundles d)\<rparr>))"

definition kyc_reject :: "bool \<Rightarrow> unix_time \<Rightarrow> db_id \<Rightarrow> string \<Rightarrow> db \<Rightarrow> bool \<times> db" where
  "kyc_reject fails now bid reason0 d =
     (let reason = trim_space reason0 in if reason = [] then (False, d) else reject_bundle fails now bid reason d)"

subsection \<open>A stored name is one plain path element\<close>

definition safe_char :: "char \<Rightarrow> bool" where
  "safe_char c \<longleftrightarrow> 0x80 \<le> byte_int c \<or> is_ascii_letter (byte_int c) \<or> is_digit c \<or> c \<in> {CHR ''.'', CHR ''_'', CHR ''-''}"

lemma is_digit_int: "is_digit c \<longleftrightarrow> 48 \<le> byte_int c \<and> byte_int c \<le> 57"
proof -
  have "byte_int c = int (byte_val c)" by (simp add: byte_int_def byte_val_def of_char_def of_bool_def)
  then show ?thesis by (simp add: is_digit_def)
qed

lemma rune_is_digit_ascii: "r < 128 \<Longrightarrow> rune_is_digit r \<Longrightarrow> 48 \<le> r \<and> r \<le> 57"
  by (simp add: rune_is_digit_def digit_starts_def)

lemma kept_rune_safe:
  assumes "(r, bs) \<in> set (runes s)" "c \<in> set (kept_rune (r, bs))"
  shows "safe_char c"
proof (cases "byte_int c < 0x80 \<and> kept_rune (r, bs) = bs")
  case True
  then have r: "r = byte_int c" using runes_ascii [OF assms(1), of c] assms(2) by auto
  show ?thesis
  proof (cases "is_ascii_letter r \<or> rune_is_digit r \<or> r = 46 \<or> r = 95 \<or> r = 45")
    case kept: True
    have "byte_int c = byte_int (CHR ''.'') \<or> byte_int c = byte_int (CHR ''_'') \<or> byte_int c = byte_int (CHR ''-'')
        \<or> is_ascii_letter (byte_int c) \<or> is_digit c"
      using kept r True rune_is_digit_ascii [of r] by (auto simp: byte_int_def is_digit_int)
    then show ?thesis by (auto simp: safe_char_def)
  next
    case False
    then show ?thesis using assms(2) by (simp add: kept_rune_def safe_char_def split: if_splits)
  qed
next
  case False
  then show ?thesis using assms(2) by (auto simp: kept_rune_def safe_char_def split: if_splits)
qed

lemma cap80_len: "length (cap80 s) \<le> 80"
  by (auto simp: cap80_def Let_def)

lemma path_ext_set: "set (path_ext s) \<subseteq> set s"
  by (auto simp: path_ext_def dest: in_set_dropD split: option.splits if_splits)

lemma cap80_set: "set (cap80 s) \<subseteq> set s"
  using path_ext_set [of s] by (auto simp: cap80_def Let_def dest: in_set_takeD split: if_splits)

lemma trim_dots_set: "set (trim_dots s) \<subseteq> set s" and trim_dots_len: "length (trim_dots s) \<le> length s"
  and trim_dots_ends: "trim_dots s \<noteq> [] \<Longrightarrow> hd (trim_dots s) \<noteq> CHR ''.'' \<and> List.last (trim_dots s) \<noteq> CHR ''.''"
proof -
  let ?P = "\<lambda>c. c = CHR ''.''"
  let ?a = "dropWhile ?P s"
  have set: "set (dropWhile ?P xs) \<subseteq> set xs" for xs by (auto dest: set_dropWhileD)
  show "set (trim_dots s) \<subseteq> set s" using set [of "rev ?a"] set [of s] by (auto simp: trim_dots_def)
  show "length (trim_dots s) \<le> length s"
    using length_dropWhile_le [of ?P "rev ?a"] length_dropWhile_le [of ?P s] by (simp add: trim_dots_def)
  assume ne: "trim_dots s \<noteq> []"
  let ?b = "dropWhile ?P (rev ?a)"
  have "?b \<noteq> []" using ne by (simp add: trim_dots_def)
  then have "\<not> ?P (hd ?b)" by (rule hd_dropWhile)
  then have "List.last (trim_dots s) \<noteq> CHR ''.''" using \<open>?b \<noteq> []\<close> by (simp add: trim_dots_def last_rev)
  moreover have "hd (trim_dots s) \<noteq> CHR ''.''"
  proof -
    obtain z where z: "?a = trim_dots s @ z"
      using suffix_dropWhile [of ?P "rev ?a"] by (auto simp: trim_dots_def suffix_def) (metis rev_append rev_rev_ident)
    then have "?a \<noteq> []" using ne by simp
    then have "\<not> ?P (hd ?a)" by (rule hd_dropWhile)
    with z ne show ?thesis by simp
  qed
  ultimately show "hd (trim_dots s) \<noteq> CHR ''.'' \<and> List.last (trim_dots s) \<noteq> CHR ''.''" by simp
qed

lemma sanitize_filename_safe:
  assumes "sanitize_filename name = Some f"
  shows "plain_element f" "length f \<le> 80" "list_all safe_char f"
proof -
  let ?s = "concat (map kept_rune (runes (path_base name)))"
  have f: "f = trim_dots (cap80 ?s)" "f \<noteq> []"
    using assms by (auto simp: sanitize_filename_def Let_def split: if_splits)
  have "list_all safe_char ?s" using kept_rune_safe by (fastforce simp: list_all_iff)
  then show safe: "list_all safe_char f"
    using trim_dots_set [of "cap80 ?s"] cap80_set [of ?s] by (auto simp: f(1) list_all_iff)
  show "length f \<le> 80" using trim_dots_len [of "cap80 ?s"] cap80_len [of ?s] f(1) by simp
  have "hd f \<noteq> CHR ''.''" using trim_dots_ends [of "cap80 ?s"] f by simp
  moreover have "slash \<notin> set f"
    using safe by (auto simp: list_all_iff slash_def safe_char_def is_digit_int is_ascii_letter_def byte_int_def)
  ultimately show "plain_element f" using f(2) by (auto simp: plain_element_def)
qed

lemma itoa_plain: "plain_element (itoa i)"
proof -
  have "list_all is_digit (nat_digits n)" "nat_digits n \<noteq> []" for n by (simp_all add: nat_digits_is_digit)
  then have n: "c \<in> set (itoa i) \<Longrightarrow> is_digit c \<or> c = CHR ''-''" "itoa i \<noteq> []" for c
    by (auto simp: itoa_def list_all_iff split: if_splits)
  have "slash \<notin> set (itoa i)" "CHR ''.'' \<notin> set (itoa i)"
    using n(1) [of slash] n(1) [of "CHR ''.''"] by (auto simp: slash_def is_digit_def byte_val_def)
  with n(2) show ?thesis by (auto simp: plain_element_def)
qed

definition root_elements :: "string list" where
  "root_elements = [''var'', ''lib'', ''didstorage'', ''kyc'']"

lemma kyc_root_split: "kyc_root = ''/'' @ str_join root_elements ''/''" "list_all plain_element root_elements" "root_elements \<noteq> []"
  by (simp_all add: kyc_root_def root_elements_def plain_element_def slash_def)

lemma doc_path_eq:
  assumes "plain_element f"
  shows "doc_path uid bid f = ''/'' @ str_join (root_elements @ [itoa uid, itoa bid, f]) ''/''"
  unfolding doc_path_def kyc_root_split(1)
  by (rule path_join_plain) (use assms itoa_plain kyc_root_split in simp_all)

lemma bundle_dir_eq: "bundle_dir uid bid = ''/'' @ str_join (root_elements @ [itoa uid, itoa bid]) ''/''"
  unfolding bundle_dir_def kyc_root_split(1)
  by (rule path_join_plain) (use itoa_plain kyc_root_split in simp_all)

lemma bundle_dir_file: "plain_element f \<Longrightarrow> bundle_dir uid bid @ CHR ''/'' # f = doc_path uid bid f"
  by (simp add: doc_path_eq bundle_dir_eq root_elements_def)

lemma doc_path_inj:
  assumes "plain_element f" "plain_element f'" "doc_path uid bid f = doc_path uid' bid' f'"
  shows "uid = uid' \<and> bid = bid' \<and> f = f'"
proof -
  have split: "split_byte slash (str_join (root_elements @ [itoa u, itoa b, g]) ''/'') = root_elements @ [itoa u, itoa b, g]"
    if "plain_element g" for u b g
    by (rule split_join_plain) (use that itoa_plain kyc_root_split in simp_all)
  have "str_join (root_elements @ [itoa uid, itoa bid, f]) ''/'' = str_join (root_elements @ [itoa uid', itoa bid', f']) ''/''"
    using assms(3) unfolding doc_path_eq [OF assms(1)] doc_path_eq [OF assms(2)] by (simp only: same_append_eq)
  then have "root_elements @ [itoa uid, itoa bid, f] = root_elements @ [itoa uid', itoa bid', f']"
    using split [OF assms(1)] split [OF assms(2)] by metis
  then show ?thesis by simp
qed

text \<open>
  C15: whatever file name a client sends, the stored document stays inside the directory of its
  bundle: the name that is kept is one path element of at most 80 bytes, letters, digits,
  dots, dashes and underscores, its path is the root, the user, the bundle and the name, and
  two documents share a path only when user, bundle and name are the same.
\<close>

theorem document_path_contained:
  assumes "sanitize_filename name = Some f"
  shows "doc_path uid bid f = kyc_root @ ''/'' @ itoa uid @ ''/'' @ itoa bid @ ''/'' @ f \<and>
    length f \<le> 80 \<and> list_all safe_char f \<and>
    (sanitize_filename name' = Some f' \<longrightarrow> doc_path uid bid f = doc_path uid' bid' f' \<longrightarrow> uid = uid' \<and> bid = bid' \<and> f = f')"
proof -
  note s = sanitize_filename_safe [OF assms]
  have "doc_path uid bid f = kyc_root @ ''/'' @ itoa uid @ ''/'' @ itoa bid @ ''/'' @ f"
    unfolding doc_path_eq [OF s(1)] by (simp add: kyc_root_def root_elements_def)
  moreover have "uid = uid' \<and> bid = bid' \<and> f = f'"
    if "sanitize_filename name' = Some f'" "doc_path uid bid f = doc_path uid' bid' f'"
    using doc_path_inj [OF s(1) sanitize_filename_safe(1) [OF that(1)] that(2)] .
  ultimately show ?thesis using s(2,3) by simp
qed

theorem document_path_contained_witness:
  "doc_path 7 9 ''passwd'' = ''/var/lib/didstorage/kyc/7/9/passwd''"
proof -
  have "sanitize_filename ''../../etc/passwd'' = Some ''passwd''" "itoa 7 = ''7''" "itoa 9 = ''9''" by code_simp+
  with document_path_contained [of "''../../etc/passwd''" "''passwd''" 7 9] show ?thesis by (simp add: kyc_root_def)
qed

subsection \<open>Upload and download\<close>

lemma upload_done:
  assumes "kyc_doc_upload flt bid (Some (kind, Some (name, mime, content))) s = (UpDone f n, t)"
  shows "n = int (length content) \<and> (\<exists>b kind'. tbl_get (kyc_bundles (ky_db s)) bid = Some b \<and>
    ky_db t = (ky_db s)\<lparr>kyc_docs := tbl_insert (uploaded_doc (k_user b) bid kind' f mime content) (kyc_docs (ky_db s))\<rparr> \<and>
    ky_files t = (ky_files s)(doc_path (k_user b) bid f \<mapsto> content))"
proof -
  obtain f' where f: "sanitize_filename name = Some f'"
    using assms by (auto simp: kyc_doc_upload_def Let_def split: option.splits if_splits)
  obtain b where b: "tbl_get (kyc_bundles (ky_db s)) bid = Some b"
    using assms f by (auto simp: kyc_doc_upload_def Let_def split: option.splits if_splits)
  show ?thesis
    using assms by (auto simp: kyc_doc_upload_def Let_def f b bundle_dir_file [OF sanitize_filename_safe(1) [OF f]] split: if_splits)
qed

text \<open>
  An uploaded document is read back as it was sent: after a successful upload a download
  of the new document returns the same bytes under the same content type.
\<close>

theorem upload_then_download:
  assumes "kyc_doc_upload flt bid (Some (kind, Some (name, mime, content))) s = (UpDone f n, t)"
  shows "kyc_doc_download False bid (next_id (kyc_docs (ky_db s))) t = DlFile mime content \<and> n = int (length content)"
  using upload_done [OF assms] by (auto simp: kyc_doc_download_def find_doc_def tbl_get_insert uploaded_doc_def)

definition no_faults :: upload_faults where
  "no_faults = \<lparr>uf_lookup = False, uf_mkdir = False, uf_open = False, uf_copy = False, uf_insert = False\<rparr>"

definition sample_store :: kyc_store where
  "sample_store = \<lparr>ky_db = empty_db\<lparr>kyc_bundles := [(9, \<lparr>k_user = 7, k_type = ''person'', k_status = KycPending, k_approved_by = None,
     k_approved_at = None, k_rejected_at = None, k_reason = None, k_notes = []\<rparr>)]\<rparr>, ky_files = Map.empty\<rparr>"

lemma sample_upload:
  "fst (kyc_doc_upload no_faults 9 (Some (''passport'', Some (''id.pdf'', ''application/pdf'', ''PDF''))) sample_store) = UpDone ''id.pdf'' 3"
  by code_simp

theorem upload_then_download_witness:
  "kyc_doc_download False 9 1
     (snd (kyc_doc_upload no_faults 9 (Some (''passport'', Some (''id.pdf'', ''application/pdf'', ''PDF''))) sample_store))
   = DlFile ''application/pdf'' ''PDF''"
proof -
  let ?u = "kyc_doc_upload no_faults 9 (Some (''passport'', Some (''id.pdf'', ''application/pdf'', ''PDF''))) sample_store"
  have "?u = (UpDone ''id.pdf'' 3, snd ?u)" using sample_upload by (metis prod.collapse)
  from upload_then_download [OF this] show ?thesis by (simp add: sample_store_def empty_db_def next_id_def tbl_ids_def)
qed

text \<open>
  An upload that fails after the file was opened destroys the document stored earlier
  under the same name: its row stays, its file is gone and its download fails. The document
  row and the reply of the earlier upload give no hint of it.
\<close>

theorem failed_upload_destroys:
  assumes "kyc_doc_download False bid doc s = DlFile mime content"
    and "find_doc bid doc (ky_db s) = Some (uid, r)" "sanitize_filename name = Some (kd_filename r)"
    and "kyc_doc_upload flt bid (Some (kind, Some (name, mime', content'))) s = (rep, t)" "rep \<in> {UpInsert, UpStream}"
  shows "ky_db t = ky_db s \<and> kyc_doc_download False bid doc t = DlMissing"
proof -
  obtain b where b: "tbl_get (kyc_bundles (ky_db s)) bid = Some b" "k_user b = uid"
    using assms(2) by (auto simp: find_doc_def split: option.splits if_splits)
  have "ky_db t = ky_db s" "ky_files t = (ky_files s)(doc_path uid bid (kd_filename r) := None)"
    using assms(4,5) b bundle_dir_file [OF sanitize_filename_safe(1) [OF assms(3)]]
    by (auto simp: kyc_doc_upload_def Let_def assms(3) split: option.splits if_splits)
  then show ?thesis using assms(2) by (simp add: kyc_doc_download_def)
qed

theorem failed_upload_destroys_witness:
  "kyc_doc_download False 9 1
     (snd (kyc_doc_upload no_faults 9 (Some (''selfie'', Some (''id.pdf'', ''image/png'', ''PNG'')))
        (snd (kyc_doc_upload no_faults 9 (Some (''passport'', Some (''id.pdf'', ''application/pdf'', ''PDF''))) sample_store))))
   = DlMissing"
proof -
  let ?s = "snd (kyc_doc_upload no_faults 9 (Some (''passport'', Some (''id.pdf'', ''application/pdf'', ''PDF''))) sample_store)"
  let ?u = "kyc_doc_upload no_faults 9 (Some (''selfie'', Some (''id.pdf'', ''image/png'', ''PNG''))) ?s"
  let ?r = "\<lparr>kd_bundle = 9, kd_kind = ''passport'', kd_filename = ''id.pdf'', kd_mime = ''application/pdf'',
    kd_size = 3, kd_path = ''7/9/id.pdf''\<rparr>"
  have a: "kyc_doc_download False 9 1 ?s = DlFile ''application/pdf'' ''PDF''" by code_simp
  have b: "find_doc 9 1 (ky_db ?s) = Some (7, ?r)" by code_simp
  have c: "sanitize_filename ''id.pdf'' = Some (kd_filename ?r)" by code_simp
  have d: "fst ?u = UpInsert" by code_simp
  then have "?u = (UpInsert, snd ?u)" by (metis prod.collapse)
  from failed_upload_destroys [OF a b c this] show ?thesis by simp
qed

subsection \<open>Approval\<close>

text \<open>
  C13: approving a bundle activates exactly its orders that wait for it, whatever else the
  order table holds, and marks the bundle; no money moves; an approval that fails in any
  statement, or of a bundle that is already approved, changes nothing.
\<close>

theorem approve_activates_exactly:
  assumes "distinct (tbl_ids (kyc_bundles d))" and "kyc_approve fb f1 f2 fc now bid admin d = (res, e)"
  shows "(case res of
       None \<Rightarrow> e = d
     | Some n \<Rightarrow>
         (\<forall>oid. tbl_get (orders e) oid =
            map_option (\<lambda>ord. if o_kyc ord = Some bid \<and> o_status ord = OrdKycPending
                              then ord\<lparr>o_status := OrdActive\<rparr> else ord) (tbl_get (orders d) oid)) \<and>
         n = length (filter (\<lambda>(k, ord). o_kyc ord = Some bid \<and> o_status ord = OrdKycPending) (orders d)) \<and>
         (\<exists>b. tbl_get (kyc_bundles d) bid = Some b \<and> k_status b \<noteq> KycApproved) \<and>
         map_option k_status (tbl_get (kyc_bundles e) bid) = Some KycApproved \<and>
         users e = users d \<and> ledger e = ledger d)"
proof (cases res)
  case None
  with assms show ?thesis by (auto simp: kyc_approve_def split: if_splits prod.splits option.splits)
next
  case (Some n)
  let ?d1 = "d\<lparr>kyc_bundles := tbl_upd_where (approvable bid)
     (\<lambda>r. r\<lparr>k_status := KycApproved, k_approved_by := Some admin, k_approved_at := Some now\<rparr>) (kyc_bundles d)\<rparr>"
  have e: "e = ?d1\<lparr>orders := tbl_upd_where (pending_of bid) (\<lambda>ord. ord\<lparr>o_status := OrdActive\<rparr>) (orders d)\<rparr>"
    "n = affected (pending_of bid) (orders d)" "affected (approvable bid) (kyc_bundles d) \<noteq> 0"
    using assms(2) Some by (auto simp: kyc_approve_def approve_bundle_def Let_def split: if_splits prod.splits option.splits)
  then obtain b where "(bid, b) \<in> set (kyc_bundles d)" "approvable bid bid b"
    by (auto simp: affected_0 approvable_def)
  then have b: "tbl_get (kyc_bundles d) bid = Some b" "approvable bid bid b" "k_status b \<noteq> KycApproved"
    using tbl_in_get [OF assms(1)] by (auto simp: approvable_def)
  with Some show ?thesis
    by (auto simp: e(1,2) pending_of_def affected_def intro!: option.map_cong)
qed

definition pending_order :: order_row where
  "pending_order = \<lparr>o_did = 1, o_user = 7, o_pop = None, o_channels = 2, o_kind = RouteIP, o_target = [],
     o_rate_card = 1, o_status = OrdKycPending, o_anniversary = 1, o_next_billing = UTC 2026 3 1 0, o_ended = None,
     o_kyc = Some 9, o_group = None, o_pre_kind = None, o_pre_target = None\<rparr>"

definition pending_db :: db where
  "pending_db = (ky_db sample_store)\<lparr>orders := [(4, pending_order)]\<rparr>"

theorem approve_activates_exactly_witness:
  "tbl_get (orders (snd (kyc_approve False False False False 5 9 1 pending_db))) 4 = Some (pending_order\<lparr>o_status := OrdActive\<rparr>)"
proof -
  obtain res e where r: "kyc_approve False False False False 5 9 1 pending_db = (res, e)" by fastforce
  have "fst (kyc_approve False False False False 5 9 1 pending_db) = Some 1" by code_simp
  with r have "res = Some 1" by simp
  moreover have "distinct (tbl_ids (kyc_bundles pending_db))"
    by (simp add: pending_db_def sample_store_def tbl_ids_def)
  moreover have "tbl_get (orders pending_db) 4 = Some pending_order" by (simp add: pending_db_def tbl_get_def)
  moreover have "o_kyc pending_order = Some 9" "o_status pending_order = OrdKycPending" by (simp_all add: pending_order_def)
  ultimately show ?thesis using approve_activates_exactly [of pending_db False False False False 5 9 1 res e] r by simp
qed

text \<open>
  A bundle may also be rejected after its approval; the orders that the approval activated
  stay active.
\<close>

lemma reject_keeps_orders: "orders (snd (kyc_reject f now bid reason d)) = orders d"
  by (simp add: kyc_reject_def reject_bundle_def Let_def)

end
