(* ===== verification/Orders.thy ===== *)
theory Orders
  imports Forms User_Block Kyc
begin

text \<open>
  The life of an order, of its number and of its user in \<open>web/crud.go\<close> (orderCreate,
  orderUpdate, orderCancel, orderSwapDID, userTopup, userCreate, userUpdate, userDelete,
  didRetire) and \<open>web/did_handlers.go\<close> (didReserve, didRelease). A handler takes the form's
  fields and gives its reply (the flash message) and the database. A transaction whose
  statement fails is rolled back; a failed statement whose error the code drops aborts the
  transaction, so its commit fails.
\<close>

text \<open>The statements that may fail.\<close>

datatype office_stmt =
    StmPeer | StmBegin | StmRate | StmBalance | StmBundle | StmInsert | StmAssign | StmDebit | StmPost
  | StmLoad | StmAudio | StmGroup | StmUpdate | StmRelease | StmRepoint | StmDelete | StmCount | StmHistory
  | StmAudit | StmCommit

type_synonym office_faults = "office_stmt \<Rightarrow> bool"

definition has_peer :: "db_id \<Rightarrow> string \<Rightarrow> db \<Rightarrow> bool" where
  "has_peer uid name d \<longleftrightarrow> list_ex (\<lambda>(k, a). sa_user a = uid \<and> sa_username a = name) (sip_accounts d)"

subsection \<open>Creating an order\<close>

record order_form =
  of_user :: string
  of_did :: string
  of_channels :: string
  of_kind :: string
  of_target :: string
  of_day :: string
  of_kyc :: string

datatype create_reply =
    CreateMissing | CreateNoPeer | CreateBegin | CreateNoRate | CreatePoor | CreateBadBundle
  | CreateRefused | CreateAssign | CreateCommit | CreateDone order_status

text \<open>The active rate card of a number: by supplier, country and type, the newest first.\<close>

definition rate_for_did :: "db_id \<Rightarrow> db \<Rightarrow> (db_id \<times> rate_row) option" where
  "rate_for_did did d =
     (case tbl_get (dids d) did of
        None \<Rightarrow> None
      | Some n \<Rightarrow>
          (case sort_key (\<lambda>(k, r). - r_valid_from r)
                  (filter (\<lambda>(k, r). r_supplier r = d_supplier n \<and> r_country r = d_country n \<and> r_type r = d_type n \<and>
                     r_valid_to r = None) (rate_cards d)) of
             [] \<Rightarrow> None
           | x # _ \<Rightarrow> Some x))"

definition billing_day :: "utc_time \<Rightarrow> string \<Rightarrow> int" where
  "billing_day now s = (let day = atoi64 s in if 1 \<le> day \<and> day \<le> 28 then day else min (t_day now) 28)"

definition bundle_field :: "string \<Rightarrow> db_id option" where
  "bundle_field s = (if 0 < atoi64 s then Some (atoi64 s) else None)"

text \<open>The status a new order starts in; \<open>None\<close> when the bundle is not one of the user's.\<close>

definition start_status :: "bool \<Rightarrow> db_id \<Rightarrow> db_id option \<Rightarrow> db \<Rightarrow> order_status option" where
  "start_status fails uid kyc d =
     (case kyc of
        None \<Rightarrow> Some OrdKycPending
      | Some b \<Rightarrow>
          (case (if fails then None else tbl_get (kyc_bundles d) b) of
             None \<Rightarrow> None
           | Some r \<Rightarrow> if k_user r \<noteq> uid then None
                      else Some (if k_status r = KycApproved then OrdActive else OrdKycPending)))"

text \<open>The INSERT: the enum cast, the reference to the user, the column range, the index.\<close>

definition insert_order :: "bool \<Rightarrow> string \<Rightarrow> (route_kind \<Rightarrow> order_row) \<Rightarrow> db \<Rightarrow> (db_id \<times> db) option" where
  "insert_order fails kind mk d =
     (case route_kind_of kind of
        None \<Rightarrow> None
      | Some k \<Rightarrow>
          let row = mk k; d' = d\<lparr>orders := tbl_insert row (orders d)\<rparr> in
          if fails \<or> tbl_get (users d) (o_user row) = None \<or> o_channels row < 0 \<or> int4_max < o_channels row \<or>
             \<not> one_active_per_did (orders d')
          then None else Some (next_id (orders d), d'))"

definition new_order ::
  "db_id \<Rightarrow> db_id \<Rightarrow> int \<Rightarrow> string \<Rightarrow> db_id \<Rightarrow> int \<Rightarrow> utc_time \<Rightarrow> order_status \<Rightarrow> db_id option \<Rightarrow> route_kind \<Rightarrow> order_row" where
  "new_order did uid channels target rate day next st kyc kind =
     \<lparr>o_did = did, o_user = uid, o_pop = None, o_channels = channels, o_kind = kind, o_target = target,
      o_rate_card = rate, o_status = st, o_anniversary = day, o_next_billing = next, o_ended = None,
      o_kyc = kyc, o_group = None, o_pre_kind = None, o_pre_target = None\<rparr>"

definition set_did_status :: "did_status \<Rightarrow> db_id \<Rightarrow> db \<Rightarrow> db" where
  "set_did_status st did d = d\<lparr>dids := tbl_upd did (\<lambda>n. n\<lparr>d_status := st\<rparr>) (dids d)\<rparr>"

definition charge_nrc :: "db_id \<Rightarrow> db_id \<Rightarrow> cents \<Rightarrow> cents \<Rightarrow> db \<Rightarrow> db" where
  "charge_nrc uid oid nrc bal d =
     (if 0 < nrc
      then add_ledger \<lparr>l_user = uid, l_delta = - nrc, l_kind = LedgerNRC, l_ref_table = ''orders'',
             l_ref_id = Some oid, l_after = bal - nrc\<rparr>
             (d\<lparr>users := tbl_upd uid (\<lambda>u. u\<lparr>u_balance := bal - nrc\<rparr>) (users d)\<rparr>)
      else d)"

definition order_create :: "office_faults \<Rightarrow> utc_time \<Rightarrow> order_form \<Rightarrow> db \<Rightarrow> create_reply \<times> db" where
  "order_create flt now f d =
     (let uid = atoi64 (of_user f); did = atoi64 (of_did f); channels = max 0 (atoi64 (of_channels f));
          kind = of_kind f; target = normalize_route_target kind (of_target f);
          day = billing_day now (of_day f); kyc = bundle_field (of_kyc f) in
      if uid = 0 \<or> did = 0 \<or> kind = [] \<or> target = [] then (CreateMissing, d)
      else if kind = ''sip_account'' \<and> (flt StmPeer \<or> \<not> has_peer uid target d) then (CreateNoPeer, d)
      else if flt StmBegin then (CreateBegin, d)
      else case (if flt StmRate then None else rate_for_did did d) of
        None \<Rightarrow> (CreateNoRate, d)
      | Some (rc, rate) \<Rightarrow>
          let nrc = r_nrc rate;
              bal = (case (if flt StmBalance then None else tbl_get (users d) uid) of Some u \<Rightarrow> u_balance u | None \<Rightarrow> 0) in
          if bal < nrc then (CreatePoor, d)
          else case start_status (flt StmBundle \<or> flt StmBalance) uid kyc d of
            None \<Rightarrow> (CreateBadBundle, d)
          | Some st \<Rightarrow>
              (case insert_order (flt StmInsert \<or> flt StmBalance) kind
                      (new_order did uid channels target rc day (next_anniversary now day) st kyc) d of
                 None \<Rightarrow> (CreateRefused, d)
               | Some (oid, d1) \<Rightarrow>
                   if flt StmAssign then (CreateAssign, d)
                   else let d2 = charge_nrc uid oid nrc bal (set_did_status DidAssigned did d1) in
                     if 0 < nrc \<and> (flt StmDebit \<or> flt StmPost) \<or> flt StmCommit then (CreateCommit, d)
                     else (CreateDone st, d2)))"

subsection \<open>Editing an order\<close>

record update_form =
  uf_kind :: string
  uf_target :: string
  uf_audio :: string
  uf_group :: string
  uf_channels :: string
  uf_day :: string
  uf_kyc :: string
  uf_kyc_clear :: bool

datatype update_reply =
    UpdBadForm | UpdNotFound | UpdLocked order_status | UpdBadKind | UpdNoClip | UpdPickClip
  | UpdGroupFailed | UpdEmptyGroup | UpdPickGroup | UpdNoTarget | UpdChannels | UpdDay | UpdNoPeer
  | UpdBadBundle | UpdNoBundle | UpdForeignBundle | UpdFailed | UpdSaved

text \<open>What the UPDATE writes; \<open>None\<close> as the target is SQL's NULL.\<close>

record order_patch =
  op_kind :: route_kind
  op_target :: "string option"
  op_channels :: int
  op_day :: int
  op_kyc :: "db_id option"
  op_group :: "db_id option"

definition edit_kind :: "string \<Rightarrow> order_row \<Rightarrow> update_reply + route_kind" where
  "edit_kind rk ord =
     (case route_kind_of (if rk = [] then route_kind_text (o_kind ord) else rk) of
        None \<Rightarrow> Inl UpdBadKind | Some k \<Rightarrow> Inr k)"

definition group_size :: "db_id \<Rightarrow> db \<Rightarrow> nat" where
  "group_size g d = length (filter (\<lambda>m. m_group m = g) (audio_members d))"

text \<open>The target and the group, by the kind of the route.\<close>

definition edit_route ::
  "office_faults \<Rightarrow> update_form \<Rightarrow> route_kind \<Rightarrow> order_row \<Rightarrow> db \<Rightarrow> update_reply + string \<times> db_id option" where
  "edit_route flt f k ord d =
     (case k of
        RouteAudio \<Rightarrow>
          let af = atoi64 (trim_space (uf_audio f)) in
          (case (if 0 < af
                 then (case (if flt StmAudio then None else tbl_get (audio_files d) af) of
                         None \<Rightarrow> Inl UpdNoClip | Some a \<Rightarrow> Inr (''didstorage/'' @ f_filename a))
                 else Inr (o_target ord)) of
             Inl e \<Rightarrow> Inl e
           | Inr rt \<Rightarrow> if rt = [] then Inl UpdPickClip else Inr (rt, None))
      | RouteAudioGroup \<Rightarrow>
          let ag = atoi64 (trim_space (uf_group f)) in
          if 0 < ag then
            (if flt StmGroup then Inl UpdGroupFailed
             else if group_size ag d = 0 then Inl UpdEmptyGroup else Inr ([], Some ag))
          else (case o_group ord of None \<Rightarrow> Inl UpdPickGroup | Some g \<Rightarrow> Inr ([], Some g))
      | _ \<Rightarrow>
          let raw = trim_space (uf_target f);
              rt = (if raw \<noteq> [] then normalize_route_target (route_kind_text k) raw else o_target ord) in
          if rt = [] then Inl UpdNoTarget else Inr (rt, None))"

text \<open>An optional integer field within bounds; empty keeps the current value.\<close>

definition edit_int :: "string \<Rightarrow> int \<Rightarrow> int \<Rightarrow> int \<Rightarrow> update_reply \<Rightarrow> update_reply + int" where
  "edit_int s lo hi cur err =
     (if s = [] then Inr cur
      else case parse_int64 s of
        None \<Rightarrow> Inl err
      | Some v \<Rightarrow> if v < lo \<or> hi < v then Inl err else Inr v)"

definition edit_kyc :: "office_faults \<Rightarrow> update_form \<Rightarrow> order_row \<Rightarrow> db \<Rightarrow> update_reply + db_id option" where
  "edit_kyc flt f ord d =
     (let raw = trim_space (uf_kyc f) in
      if uf_kyc_clear f then Inr None
      else if raw \<noteq> [] then
        (case parse_int64 raw of
           None \<Rightarrow> Inl UpdBadBundle
         | Some v \<Rightarrow>
             if v \<le> 0 then Inl UpdBadBundle
             else (case (if flt StmBundle then None else tbl_get (kyc_bundles d) v) of
                     None \<Rightarrow> Inl UpdNoBundle
                   | Some b \<Rightarrow> if k_user b \<noteq> o_user ord then Inl UpdForeignBundle else Inr (Some v)))
      else Inr (o_kyc ord))"

definition edit_order :: "office_faults \<Rightarrow> update_form \<Rightarrow> order_row \<Rightarrow> db \<Rightarrow> update_reply + order_patch" where
  "edit_order flt f ord d =
     sum_bind (edit_kind (trim_space (uf_kind f)) ord) (\<lambda>k.
     sum_bind (edit_route flt f k ord d) (\<lambda>(rt, grp).
     sum_bind (edit_int (trim_space (uf_channels f)) 0 8192 (o_channels ord) UpdChannels) (\<lambda>ch.
     sum_bind (edit_int (trim_space (uf_day f)) 1 28 (o_anniversary ord) UpdDay) (\<lambda>day.
     sum_bind (if k = RouteSIPAccount \<and> (flt StmPeer \<or> \<not> has_peer (o_user ord) rt d) then Inl UpdNoPeer else Inr ()) (\<lambda>_.
     sum_bind (edit_kyc flt f ord d) (\<lambda>kyc.
       Inr \<lparr>op_kind = k, op_target = (if k = RouteAudioGroup then None else Some rt), op_channels = ch,
            op_day = day, op_kyc = kyc, op_group = grp\<rparr>))))))"

definition bundle_approved :: "db_id option \<Rightarrow> db \<Rightarrow> bool" where
  "bundle_approved kyc d \<longleftrightarrow>
     (case kyc of None \<Rightarrow> False
      | Some b \<Rightarrow> (case tbl_get (kyc_bundles d) b of None \<Rightarrow> False | Some r \<Rightarrow> k_status r = KycApproved))"

definition patch_order :: "order_patch \<Rightarrow> string \<Rightarrow> bool \<Rightarrow> order_row \<Rightarrow> order_row" where
  "patch_order p rt approved ord =
     ord\<lparr>o_kind := op_kind p, o_target := rt, o_channels := op_channels p, o_anniversary := op_day p,
         o_kyc := op_kyc p, o_group := op_group p,
         o_status := (if o_status ord = OrdKycPending \<and> approved then OrdActive else o_status ord)\<rparr>"

text \<open>The UPDATE; the column \<open>route_target\<close> is NOT NULL and the index is checked.\<close>

definition save_patch :: "bool \<Rightarrow> db_id \<Rightarrow> order_patch \<Rightarrow> db \<Rightarrow> update_reply \<times> db" where
  "save_patch fails oid p d =
     (case op_target p of
        None \<Rightarrow> (UpdFailed, d)
      | Some rt \<Rightarrow>
          let os = tbl_upd oid (patch_order p rt (bundle_approved (op_kyc p) d)) (orders d) in
          if fails \<or> \<not> one_active_per_did os then (UpdFailed, d) else (UpdSaved, d\<lparr>orders := os\<rparr>))"

definition order_update :: "office_faults \<Rightarrow> db_id \<Rightarrow> update_form option \<Rightarrow> db \<Rightarrow> update_reply \<times> db" where
  "order_update flt oid form d =
     (case form of
        None \<Rightarrow> (UpdBadForm, d)
      | Some f \<Rightarrow>
          (case (if flt StmLoad then None else tbl_get (orders d) oid) of
             None \<Rightarrow> (UpdNotFound, d)
           | Some ord \<Rightarrow>
               if o_status ord \<notin> {OrdActive, OrdKycPending, OrdQuarantined} then (UpdLocked (o_status ord), d)
               else (case edit_order flt f ord d of
                       Inl e \<Rightarrow> (e, d)
                     | Inr p \<Rightarrow> save_patch (flt StmUpdate) oid p d)))"

subsection \<open>Cancelling an order, swapping its number\<close>

text \<open>The result of the commit is not looked at: the reply is \<open>True\<close> although nothing is kept.\<close>

definition open_order :: "order_row \<Rightarrow> bool" where
  "open_order r \<longleftrightarrow> o_status r \<in> {OrdActive, OrdKycPending, OrdQuarantined, OrdSuspended}"

definition cancel_row :: "utc_time \<Rightarrow> order_row \<Rightarrow> order_row" where
  "cancel_row now r = r\<lparr>o_status := OrdCancelled, o_ended := Some now\<rparr>"

definition order_cancel :: "office_faults \<Rightarrow> utc_time \<Rightarrow> db_id \<Rightarrow> db \<Rightarrow> bool \<times> db" where
  "order_cancel flt now oid d =
     (if flt StmBegin then (False, d)
      else case (if flt StmUpdate then None else tbl_get (orders d) oid) of
        None \<Rightarrow> (False, d)
      | Some ord \<Rightarrow>
          if \<not> open_order ord then (False, d)
          else if flt StmRelease then (False, d)
          else if flt StmCommit then (True, d)
          else (True, set_did_status DidAvailable (o_did ord)
                        (d\<lparr>orders := tbl_upd oid (cancel_row now) (orders d)\<rparr>)))"

text \<open>
  \<open>writeComplianceEvent\<close> of \<open>web/live_handlers.go\<close>: an action that is no label of the enum
  \<open>user_block_action\<close> makes the INSERT fail, which is only logged.
\<close>

definition positive_id :: "db_id \<Rightarrow> db_id option" where
  "positive_id i = (if 0 < i then Some i else None)"

definition write_compliance_event ::
  "bool \<Rightarrow> db_id \<Rightarrow> db_id \<Rightarrow> db_id \<Rightarrow> string \<Rightarrow> string \<Rightarrow> string \<Rightarrow> db \<Rightarrow> db" where
  "write_compliance_event fails uid oid admin action reason details d =
     (if uid = 0 \<or> fails \<or> \<not> block_action_ok (Some action) \<or> tbl_get (users d) uid = None \<or>
         0 < oid \<and> tbl_get (orders d) oid = None
      then d
      else log_block \<lparr>bl_user = uid, bl_action = action, bl_reason = reason, bl_bundle = None,
             bl_by = positive_id admin, bl_order = positive_id oid, bl_details = Some details\<rparr> d)"

datatype swap_reply =
    SwapBadForm | SwapPick | SwapBegin | SwapNoOrder | SwapLocked order_status | SwapSame | SwapNoDid
  | SwapTaken did_status | SwapFailed office_stmt | SwapDone

definition swap_details :: "string \<Rightarrow> db_id \<Rightarrow> string \<Rightarrow> db_id \<Rightarrow> string" where
  "swap_details old_e old_id new_e new_id =
     ''swapped from '' @ old_e @ '' (did_id='' @ itoa old_id @ '') to '' @ new_e @ '' (did_id='' @ itoa new_id @
     '') '' @ [CHR 0xE2, CHR 0x80, CHR 0x94] @ '' no charge, MRC/NRC/anniversary preserved''"

definition swap_rows :: "db_id \<Rightarrow> db_id \<Rightarrow> db_id \<Rightarrow> db \<Rightarrow> db" where
  "swap_rows oid old_did new_did d =
     set_did_status DidAssigned new_did
       ((set_did_status DidAvailable old_did d)\<lparr>orders := tbl_upd oid (\<lambda>r. r\<lparr>o_did := new_did\<rparr>) (orders d)\<rparr>)"

definition order_swap :: "office_faults \<Rightarrow> db_id \<Rightarrow> db_id \<Rightarrow> (string \<times> string) option \<Rightarrow> db \<Rightarrow> swap_reply \<times> db" where
  "order_swap flt admin oid form d =
     (case form of
        None \<Rightarrow> (SwapBadForm, d)
      | Some (did_field, reason) \<Rightarrow>
          let new_did = atoi64 did_field in
          if new_did \<le> 0 then (SwapPick, d)
          else if flt StmBegin then (SwapBegin, d)
          else case (if flt StmLoad then None else tbl_get (orders d) oid) of
            None \<Rightarrow> (SwapNoOrder, d)
          | Some ord \<Rightarrow>
              if o_status ord \<notin> {OrdActive, OrdKycPending, OrdQuarantined} then (SwapLocked (o_status ord), d)
              else if o_did ord = new_did then (SwapSame, d)
              else case (if flt StmRate then None else tbl_get (dids d) new_did) of
                None \<Rightarrow> (SwapNoDid, d)
              | Some n \<Rightarrow>
                  if d_status n \<noteq> DidAvailable then (SwapTaken (d_status n), d)
                  else let d1 = swap_rows oid (o_did ord) new_did d;
                           old_e = (case tbl_get (dids d) (o_did ord) of Some m \<Rightarrow> d_e164 m | None \<Rightarrow> []) in
                    if flt StmRelease then (SwapFailed StmRelease, d)
                    else if flt StmRepoint \<or> \<not> one_active_per_did (orders d1) then (SwapFailed StmRepoint, d)
                    else if flt StmAssign then (SwapFailed StmAssign, d)
                    else if flt StmCommit then (SwapFailed StmCommit, d)
                    else (SwapDone,
                          write_compliance_event (flt StmAudit) (o_user ord) oid admin ''order_did_swap'' (trim_space reason)
                            (swap_details old_e (o_did ord) (d_e164 n) new_did) d1))"

subsection \<open>Users\<close>

text \<open>
  \<open>userTopup\<close>: \<open>None\<close> stands for a zero amount, \<open>Some False\<close> for a failed statement. A balance
  outside of BIGINT is refused; the result of the commit is not looked at.
\<close>

definition user_topup :: "office_faults \<Rightarrow> db_id \<Rightarrow> string \<Rightarrow> db \<Rightarrow> bool option \<times> db" where
  "user_topup flt uid amount d =
     (let cents = dollars_to_cents amount in
      if cents = 0 then (None, d)
      else if flt StmBegin then (Some False, d)
      else case tbl_get (users d) uid of
        None \<Rightarrow> (Some False, d)
      | Some u \<Rightarrow>
          let bal = u_balance u + cents in
          if flt StmDebit \<or> flt StmPost \<or> bal < - (2 ^ 63) \<or> 2 ^ 63 \<le> bal then (Some False, d)
          else if flt StmCommit then (Some True, d)
          else (Some True,
                add_ledger \<lparr>l_user = uid, l_delta = cents, l_kind = LedgerTopup, l_ref_table = [], l_ref_id = None, l_after = bal\<rparr>
                  (d\<lparr>users := tbl_upd uid (\<lambda>u. u\<lparr>u_balance := bal\<rparr>) (users d)\<rparr>)))"

record user_form =
  us_external :: string
  us_label :: string
  us_contact :: string
  us_reseller :: string
  us_cap :: string
  us_status :: string

definition text_field :: "string \<Rightarrow> string option" where
  "text_field s = (let t = trim_space s in if t = [] then None else Some t)"

text \<open>A blank or negative cap is -1, no cap.\<close>

definition cap_field :: "string \<Rightarrow> int" where
  "cap_field s = (let t = trim_space s; n = atoi64 t in if t = [] \<or> n < 0 then -1 else n)"

text \<open>The unique index on the external ids of one reseller, where both are set.\<close>

definition external_ids_unique :: "user_row table \<Rightarrow> bool" where
  "external_ids_unique t \<longleftrightarrow>
     distinct (map (\<lambda>(k, u). (u_reseller u, u_external u)) (filter (\<lambda>(k, u). u_reseller u \<noteq> None \<and> u_external u \<noteq> None) t))"

datatype user_reply = UserBadForm | UserNameless | UserFailed | UserSaved db_id

definition user_create :: "bool \<Rightarrow> user_form option \<Rightarrow> db \<Rightarrow> user_reply \<times> db" where
  "user_create fails form d =
     (case form of
        None \<Rightarrow> (UserBadForm, d)
      | Some f \<Rightarrow>
          let ext = text_field (us_external f); label = text_field (us_label f); contact = text_field (us_contact f);
              res = bundle_field (us_reseller f); cap = cap_field (us_cap f);
              us = tbl_insert \<lparr>u_balance = 0, u_cap = cap, u_status = ''active'', u_reseller = res,
                     u_external = ext, u_label = label, u_contact = contact\<rparr> (users d) in
          if ext = None \<and> label = None \<and> contact = None then (UserNameless, d)
          else if fails \<or> int4_max < cap \<or> \<not> external_ids_unique us \<or> (case res of None \<Rightarrow> False | Some r \<Rightarrow> tbl_get (resellers d) r = None)
          then (UserFailed, d)
          else (UserSaved (next_id (users d)), d\<lparr>users := us\<rparr>))"

definition edited_user :: "user_form \<Rightarrow> user_row \<Rightarrow> user_row" where
  "edited_user f u =
     u\<lparr>u_status := nonempty (us_status f) ''active'', u_external := text_field (us_external f),
       u_label := text_field (us_label f), u_contact := text_field (us_contact f), u_cap := cap_field (us_cap f)\<rparr>"

definition user_update :: "bool \<Rightarrow> db_id \<Rightarrow> user_form \<Rightarrow> db \<Rightarrow> user_reply \<times> db" where
  "user_update fails uid f d =
     (let us = tbl_upd uid (edited_user f) (users d) in
      if fails \<or> int4_max < cap_field (us_cap f) \<or> \<not> external_ids_unique us then (UserFailed, d)
      else (UserSaved uid, d\<lparr>users := us\<rparr>))"

text \<open>
  \<open>userDelete\<close>: the foreign keys cascade to the peers, bundles, documents, ledger and block
  log, and unlink CDRs; \<open>orders.user_id\<close> is ON DELETE RESTRICT. The files go last.
\<close>

definition user_bundles :: "db_id \<Rightarrow> db \<Rightarrow> db_id set" where
  "user_bundles uid d = fst ` set (filter (\<lambda>(k, b). k_user b = uid) (kyc_bundles d))"

definition delete_user_rows :: "db_id \<Rightarrow> db \<Rightarrow> db" where
  "delete_user_rows uid d =
     (let bs = user_bundles uid d in
      d\<lparr>users := filter (\<lambda>(k, u). k \<noteq> uid) (users d),
        sip_accounts := filter (\<lambda>(k, a). sa_user a \<noteq> uid) (sip_accounts d),
        kyc_bundles := filter (\<lambda>(k, b). k_user b \<noteq> uid) (kyc_bundles d),
        kyc_docs := filter (\<lambda>(k, r). kd_bundle r \<notin> bs) (kyc_docs d),
        ledger := filter (\<lambda>l. l_user l \<noteq> uid) (ledger d),
        block_log := filter (\<lambda>(k, b). bl_user b \<noteq> uid) (block_log d),
        cdrs := tbl_upd_where (\<lambda>_ c. c_user c = Some uid) (\<lambda>c. c\<lparr>c_user := None\<rparr>) (cdrs d),
        orders := tbl_upd_where (\<lambda>_ r. case o_kyc r of None \<Rightarrow> False | Some b \<Rightarrow> b \<in> bs) (\<lambda>r. r\<lparr>o_kyc := None\<rparr>) (orders d)\<rparr>)"

definition user_has_orders :: "db_id \<Rightarrow> db \<Rightarrow> bool" where
  "user_has_orders uid d \<longleftrightarrow> list_ex (\<lambda>(k, r). o_user r = uid) (orders d)"

definition cancel_orders :: "utc_time \<Rightarrow> db_id \<Rightarrow> db \<Rightarrow> db" where
  "cancel_orders now uid d =
     (let open_of = (\<lambda>_ r. o_user r = uid \<and> open_order r);
          ns = map (\<lambda>(k, r). o_did r) (filter (\<lambda>(k, r). open_of k r) (orders d))
      in fold (set_did_status DidAvailable) ns (d\<lparr>orders := tbl_upd_where open_of (cancel_row now) (orders d)\<rparr>))"

definition remove_tree :: "string \<Rightarrow> (string \<rightharpoonup> string) \<Rightarrow> (string \<rightharpoonup> string)" where
  "remove_tree dir fs = (\<lambda>p. if p = dir \<or> prefix (dir @ ''/'') p then None else fs p)"

datatype delete_reply = DelConfirm | DelBegin | DelCancel | DelRelease | DelRefused | DelNotFound | DelCommit | DelDone nat

definition user_delete :: "office_faults \<Rightarrow> utc_time \<Rightarrow> db_id \<Rightarrow> string \<Rightarrow> kyc_store \<Rightarrow> delete_reply \<times> kyc_store" where
  "user_delete flt now uid confirm s =
     (let d = ky_db s in
      if trim_space confirm \<noteq> itoa uid then (DelConfirm, s)
      else if flt StmBegin then (DelBegin, s)
      else if flt StmUpdate then (DelCancel, s)
      else let d1 = cancel_orders now uid d;
               n = affected (\<lambda>_ r. o_user r = uid \<and> open_order r) (orders d) in
        if flt StmRelease \<and> 0 < n then (DelRelease, s)
        else if flt StmDelete \<or> user_has_orders uid d1 then (DelRefused, s)
        else if tbl_get (users d1) uid = None then (DelNotFound, s)
        else if flt StmCommit then (DelCommit, s)
        else (DelDone n, s\<lparr>ky_db := delete_user_rows uid d1,
                           ky_files := remove_tree (kyc_root @ ''/'' @ itoa uid) (ky_files s)\<rparr>))"

subsection \<open>Numbers\<close>

text \<open>An error of the count is dropped and leaves it at 0.\<close>

definition did_orders :: "db_id \<Rightarrow> db \<Rightarrow> nat" where
  "did_orders did d =
     affected (\<lambda>_ r. o_did r = did \<and> o_status r \<in> {OrdActive, OrdKycPending, OrdQuarantined}) (orders d)"

datatype retire_reply = RetHasOrder | RetFailed | RetDone

definition did_retire :: "office_faults \<Rightarrow> db_id \<Rightarrow> db \<Rightarrow> retire_reply \<times> db" where
  "did_retire flt did d =
     (if \<not> flt StmCount \<and> 0 < did_orders did d then (RetHasOrder, d)
      else if flt StmUpdate then (RetFailed, d)
      else (RetDone, set_did_status DidRetired did d))"

record reserve_form =
  rf_kind :: string
  rf_target :: string
  rf_audio :: string
  rf_group :: string
  rf_note :: string

datatype reserve_error =
    RsvNoKind | RsvPickClip | RsvNoClip | RsvClipFailed | RsvPickGroup | RsvNoGroup | RsvGroupFailed
  | RsvEmptyGroup | RsvNoTarget | RsvFailed | RsvTaken

text \<open>The target, the clip and the group of a reservation.\<close>

definition reserve_route ::
  "office_faults \<Rightarrow> reserve_form \<Rightarrow> string \<Rightarrow> db \<Rightarrow> reserve_error + string \<times> db_id option \<times> db_id option" where
  "reserve_route flt f rk d =
     (if rk = ''audio'' then
        (let af = atoi64 (rf_audio f) in
         if af \<le> 0 then Inl RsvPickClip
         else if flt StmAudio then Inl RsvClipFailed
         else case tbl_get (audio_files d) af of
           None \<Rightarrow> Inl RsvNoClip
         | Some a \<Rightarrow> Inr (''didstorage/'' @ f_filename a, Some af, None))
      else if rk = ''audio_group'' then
        (let ag = atoi64 (rf_group f) in
         if ag \<le> 0 then Inl RsvPickGroup
         else if flt StmGroup then Inl RsvGroupFailed
         else if tbl_get (audio_groups d) ag = None then Inl RsvNoGroup
         else if group_size ag d = 0 then Inl RsvEmptyGroup
         else Inr ([], None, Some ag))
      else let rt = normalize_route_target rk (rf_target f) in
        if rt = [] then Inl RsvNoTarget else Inr (rt, None, None))"

definition reserved_row ::
  "route_kind \<Rightarrow> string \<Rightarrow> db_id option \<Rightarrow> db_id option \<Rightarrow> string \<Rightarrow> db_id \<Rightarrow> unix_time \<Rightarrow> did_row \<Rightarrow> did_row" where
  "reserved_row k rt af ag note admin now n =
     n\<lparr>d_status := DidReserved, d_res_kind := Some k, d_res_target := (if rt = [] then None else Some rt),
       d_res_note := Some note, d_res_at := Some now, d_res_by := Some admin, d_res_file := af, d_res_group := ag\<rparr>"

text \<open>
  \<open>didReserve\<close>: the messages left for the next page, an error and whether success is reported:
  the success message is deferred once the route is valid and runs on every later return.
\<close>

definition did_reserve ::
  "office_faults \<Rightarrow> unix_time \<Rightarrow> db_id \<Rightarrow> db_id \<Rightarrow> reserve_form \<Rightarrow> db \<Rightarrow> (reserve_error option \<times> bool) \<times> db" where
  "did_reserve flt now admin did f d =
     (let rk = trim_space (rf_kind f); note = trim_space (rf_note f) in
      if rk = [] then ((Some RsvNoKind, False), d)
      else case reserve_route flt f rk d of
        Inl e \<Rightarrow> ((Some e, False), d)
      | Inr (rt, af, ag) \<Rightarrow>
          (case (if flt StmUpdate then None else route_kind_of rk) of
             None \<Rightarrow> ((Some RsvFailed, True), d)
           | Some k \<Rightarrow>
               let free = (\<lambda>j n. j = did \<and> d_status n = DidAvailable) in
               if affected free (dids d) = 0 then ((Some RsvTaken, True), d)
               else ((None, True), d\<lparr>dids := tbl_upd_where free (reserved_row k rt af ag note admin now) (dids d)\<rparr>)))"

definition released_row :: "did_row \<Rightarrow> did_row" where
  "released_row n =
     n\<lparr>d_status := DidAvailable, d_res_kind := None, d_res_target := None, d_res_note := None, d_res_at := None,
       d_res_by := None, d_res_file := None, d_res_group := None\<rparr>"

definition history_row :: "unix_time \<Rightarrow> db_id \<Rightarrow> db_id \<Rightarrow> did_row \<Rightarrow> resv_row" where
  "history_row now admin did n =
     \<lparr>rv_did = did, rv_kind = d_res_kind n, rv_target = d_res_target n, rv_note = d_res_note n,
      rv_at = (case d_res_at n of Some t \<Rightarrow> t | None \<Rightarrow> now), rv_by = d_res_by n, rv_released_by = Some admin\<rparr>"

datatype release_reply = RelBegin | RelNotReserved | RelArchive | RelFailed | RelCommit | RelDone

definition did_release :: "office_faults \<Rightarrow> unix_time \<Rightarrow> db_id \<Rightarrow> db_id \<Rightarrow> db \<Rightarrow> release_reply \<times> db" where
  "did_release flt now admin did d =
     (if flt StmBegin then (RelBegin, d)
      else if flt StmLoad then (RelFailed, d)
      else case tbl_get (dids d) did of
        None \<Rightarrow> (RelNotReserved, d)
      | Some n \<Rightarrow>
          if d_status n \<noteq> DidReserved then (RelNotReserved, d)
          else if flt StmHistory then (RelArchive, d)
          else if flt StmUpdate then (RelFailed, d)
          else if flt StmCommit then (RelCommit, d)
          else (RelDone, d\<lparr>dids := tbl_upd did released_row (dids d),
                           res_history := res_history d @ [history_row now admin did n]\<rparr>))"

end
