(* ===== verification/Did_Parsers.thy ===== *)
theory Did_Parsers
  imports Go_Strings
begin

text \<open>
  \<open>internal/didsimport/parsers.go\<close>: the three input modes of the bulk import. The rows that
  \<open>csv.Reader.ReadAll\<close> returned are an argument of \<open>parse_csv\<close> (\<open>None\<close>: its error); a
  warning is kept as its row, kind and quoted cell instead of its English text. The range
  loop counts in \<open>int64\<close>, so its increment wraps.
\<close>

record entry =
  e_e164 :: string
  e_country :: string
  e_type :: string
  e_supplier :: int
  e_cap :: int

datatype parse_warning =
    WarnLine nat string
  | WarnCsvNumber nat string
  | WarnCsvType nat string
  | WarnCsvSupplier nat string

datatype parse_error =
    ErrStartRequired | ErrBadStart | ErrBadEnd | ErrTooMany | ErrNoEntries | ErrCsvParse | ErrCsvEmpty
  | ErrCsvHeader | ErrCsvNoRows

record parse_result =
  p_entries :: "entry list"
  p_warnings :: "parse_warning list"

definition max_rows :: int where "max_rows = 10000"

definition plain_entry :: "string \<Rightarrow> entry" where
  "plain_entry n = \<lparr>e_e164 = n, e_country = [], e_type = [], e_supplier = 0, e_cap = 0\<rparr>"

definition only_digits :: "string \<Rightarrow> string" where
  "only_digits s = filter is_digit s"

definition looks_like_e164 :: "string \<Rightarrow> bool" where
  "looks_like_e164 s0 =
     (let s = only_digits (trim_prefix (trim_space s0) ''+'') in 6 \<le> length s \<and> length s \<le> 15)"

definition normalize_e164 :: "string \<Rightarrow> string" where
  "normalize_e164 s =
     (let digits = only_digits (trim_prefix (trim_space s) ''+'')
      in if looks_like_e164 digits then digits else [])"

subsection \<open>A numeric range\<close>

text \<open>\<open>for n := start; n <= end; n++\<close>; a run that never leaves the loop has no result.\<close>

partial_function (option) range_loop :: "int \<Rightarrow> int \<Rightarrow> entry list \<Rightarrow> entry list option" where
  "range_loop n end' out =
     (if n \<le> end' then range_loop (wrap64 (n + 1)) end' (out @ [plain_entry (itoa n)]) else Some out)"

text \<open>The checks before the loop: the range to import, or an error.\<close>

definition range_bounds :: "string \<Rightarrow> string \<Rightarrow> parse_error + int \<times> int" where
  "range_bounds start_str end_str =
     (let s = only_digits start_str; e = only_digits end_str in
      if s = [] then Inl ErrStartRequired
      else case parse_int64 s of
        None \<Rightarrow> Inl ErrBadStart
      | Some start \<Rightarrow>
          if start \<le> 0 then Inl ErrBadStart
          else (case (if e = [] then Some start else parse_int64 e) of
              None \<Rightarrow> Inl ErrBadEnd
            | Some end' \<Rightarrow>
                if end' < start then Inl ErrBadEnd
                else if max_rows < wrap64 (wrap64 (end' - start) + 1) then Inl ErrTooMany
                else Inr (start, end')))"

text \<open>The whole function; \<open>None\<close> is a call that does not return.\<close>

definition parse_range :: "string \<Rightarrow> string \<Rightarrow> (parse_error + parse_result) option" where
  "parse_range start_str end_str =
     (case range_bounds start_str end_str of
        Inl e \<Rightarrow> Some (Inl e)
      | Inr (start, end') \<Rightarrow>
          map_option (\<lambda>es. Inr \<lparr>p_entries = es, p_warnings = []\<rparr>) (range_loop start end' []))"

subsection \<open>Free text\<close>

definition is_token_sep :: "char \<Rightarrow> bool" where
  "is_token_sep c \<longleftrightarrow> c \<in> {CHR '','', CHR '';'', CHR '' '', CHR 0x09}"

fun bulk_tokens :: "nat \<Rightarrow> string \<Rightarrow> string list \<Rightarrow> parse_result \<Rightarrow> parse_result" where
  "bulk_tokens ln raw [] out = out"
| "bulk_tokens ln raw (t # ts) out =
     (let n = normalize_e164 t in
      bulk_tokens ln raw ts
        (if n = [] then out\<lparr>p_warnings := p_warnings out @ [WarnLine (ln + 1) raw]\<rparr>
         else out\<lparr>p_entries := p_entries out @ [plain_entry n]\<rparr>))"

definition bulk_line :: "nat \<Rightarrow> string \<Rightarrow> parse_result \<Rightarrow> parse_result" where
  "bulk_line ln raw out =
     (let line = trim_space raw in
      if line = [] \<or> has_prefix line ''#'' then out
      else bulk_tokens ln raw (fields_func is_token_sep line) out)"

fun bulk_lines :: "nat \<Rightarrow> string list \<Rightarrow> parse_result \<Rightarrow> parse_result" where
  "bulk_lines ln [] out = out"
| "bulk_lines ln (raw # raws) out = bulk_lines (ln + 1) raws (bulk_line ln raw out)"

definition empty_result :: parse_result where
  "empty_result = \<lparr>p_entries = [], p_warnings = []\<rparr>"

definition parse_bulk :: "string \<Rightarrow> parse_error + parse_result" where
  "parse_bulk text0 =
     (let out = bulk_lines 0 (split_byte (CHR 0x0A) text0) empty_result in
      if max_rows < int (length (p_entries out)) then Inl ErrTooMany
      else if p_entries out = [] \<and> p_warnings out = [] then Inl ErrNoEntries
      else Inr out)"

subsection \<open>CSV rows\<close>

definition csv_comment :: "string list \<Rightarrow> bool" where
  "csv_comment row \<longleftrightarrow> row = [] \<or> has_prefix (trim_space (hd row)) ''#''"

text \<open>The column a header cell names.\<close>

definition header_key :: "string \<Rightarrow> string option" where
  "header_key name =
     (let key = to_lower (trim_space name) in
      if key \<in> {''e164'', ''number'', ''did'', ''phone'', ''msisdn''} then Some ''e164''
      else if key \<in> {''country'', ''country_iso'', ''iso'', ''cc''} then Some ''country''
      else if key \<in> {''did_type'', ''type'', ''kind''} then Some ''did_type''
      else if key \<in> {''supplier_id'', ''supplier''} then Some ''supplier_id''
      else if key \<in> {''channel_cap'', ''supplier_channel_cap'', ''channels'', ''cap''} then Some ''channel_cap''
      else None)"

fun header_columns :: "nat \<Rightarrow> string list \<Rightarrow> (string \<rightharpoonup> nat) \<Rightarrow> (string \<rightharpoonup> nat)" where
  "header_columns i [] m = m"
| "header_columns i (name # names) m =
     header_columns (i + 1) names (case header_key name of None \<Rightarrow> m | Some k \<Rightarrow> m(k \<mapsto> i))"

definition positional_columns :: "string \<rightharpoonup> nat" where
  "positional_columns = [''e164'' \<mapsto> 0, ''country'' \<mapsto> 1, ''did_type'' \<mapsto> 2, ''supplier_id'' \<mapsto> 3, ''channel_cap'' \<mapsto> 4]"

definition cell :: "(string \<rightharpoonup> nat) \<Rightarrow> string list \<Rightarrow> string \<Rightarrow> string" where
  "cell cols row key =
     (case cols key of None \<Rightarrow> [] | Some i \<Rightarrow> if length row \<le> i then [] else trim_space (row ! i))"

definition csv_type :: "string \<Rightarrow> string option" where
  "csv_type v =
     (if v \<in> {''toll_free'', ''toll-free''} then Some ''tollfree''
      else if v \<in> {''mobile'', ''national'', ''local'', ''tollfree''} then Some v else None)"

text \<open>One data row with a plausible number: the entry and its warnings. \<open>r\<close> is the index of the row.\<close>

definition csv_entry :: "nat \<Rightarrow> (string \<Rightarrow> string) \<Rightarrow> string \<Rightarrow> entry \<times> parse_warning list" where
  "csv_entry r get e164 =
     (let e0 = plain_entry e164;
          cc = to_upper (get ''country'');
          e1 = (if cc \<noteq> [] \<and> length cc = 2 then e0\<lparr>e_country := cc\<rparr> else e0);
          ty = to_lower (get ''did_type'');
          (e2, w2) = (if ty = [] then (e1, [])
                      else case csv_type ty of Some t \<Rightarrow> (e1\<lparr>e_type := t\<rparr>, []) | None \<Rightarrow> (e1, [WarnCsvType (r + 1) ty]));
          sv = get ''supplier_id'';
          (e3, w3) = (if sv = [] then (e2, [])
                      else case parse_int64 sv of
                        Some n \<Rightarrow> if 0 < n then (e2\<lparr>e_supplier := n\<rparr>, []) else (e2, [WarnCsvSupplier (r + 1) sv])
                      | None \<Rightarrow> (e2, [WarnCsvSupplier (r + 1) sv]));
          cv = get ''channel_cap'';
          e4 = (if cv = [] then e3
                else case parse_int64 cv of
                  Some n \<Rightarrow> e3\<lparr>e_cap := (if n < 1 then -1 else n)\<rparr>
                | None \<Rightarrow> e3)
      in (e4, w2 @ w3))"

fun csv_rows :: "(string \<rightharpoonup> nat) \<Rightarrow> nat \<Rightarrow> string list list \<Rightarrow> parse_result \<Rightarrow> parse_error + parse_result" where
  "csv_rows cols r [] out = Inr out"
| "csv_rows cols r (row # rows) out =
     (if row = [] then csv_rows cols (r + 1) rows out
      else let get = cell cols row; e164 = normalize_e164 (get ''e164'') in
        if e164 = [] then
          csv_rows cols (r + 1) rows
            (if get ''e164'' = [] then out
             else out\<lparr>p_warnings := p_warnings out @ [WarnCsvNumber (r + 1) (get ''e164'')]\<rparr>)
        else let (e, ws) = csv_entry r get e164;
                 out' = out\<lparr>p_entries := p_entries out @ [e], p_warnings := p_warnings out @ ws\<rparr>
             in if max_rows < int (length (p_entries out')) then Inl ErrTooMany
                else csv_rows cols (r + 1) rows out')"

definition parse_csv :: "string list list option \<Rightarrow> parse_error + parse_result" where
  "parse_csv read =
     (case read of
        None \<Rightarrow> Inl ErrCsvParse
      | Some rows \<Rightarrow>
          let clean = filter (\<lambda>row. \<not> csv_comment row) rows in
          if clean = [] then Inl ErrCsvEmpty
          else let header = \<not> looks_like_e164 (hd (hd clean));
                   cols = (if header then header_columns 0 (hd clean) Map.empty else positional_columns);
                   start = (if header then 1 else 0)
               in if header \<and> cols ''e164'' = None then Inl ErrCsvHeader
                  else case csv_rows cols start (drop start clean) empty_result of
                    Inl e \<Rightarrow> Inl e
                  | Inr out \<Rightarrow> if p_entries out = [] then Inl ErrCsvNoRows else Inr out)"

subsection \<open>The range\<close>

lemma range_loop_ok:
  assumes "- (2 ^ 63) \<le> n" "end' < 2 ^ 63 - 1" "n \<le> end' + 1"
  shows "range_loop n end' out = Some (out @ map (\<lambda>i. plain_entry (itoa i)) [n..end'])"
  using assms
proof (induction "nat (end' + 1 - n)" arbitrary: n out)
  case 0
  then show ?case by (subst range_loop.simps) simp
next
  case (Suc k)
  show ?case
  proof (cases "n \<le> end'")
    case True
    have "wrap64 (n + 1) = n + 1" using Suc.prems True by (intro wrap64_id) auto
    moreover have "range_loop (n + 1) end' (out @ [plain_entry (itoa n)]) =
        Some ((out @ [plain_entry (itoa n)]) @ map (\<lambda>i. plain_entry (itoa i)) [n + 1..end'])"
      using Suc True by (intro Suc.hyps) auto
    moreover have "[n..end'] = n # [n + 1..end']" using True by (simp add: upto_rec1)
    ultimately show ?thesis using True by (subst range_loop.simps) simp
  next
    case False
    then show ?thesis by (subst range_loop.simps) simp
  qed
qed

text \<open>With the largest \<open>int64\<close> as its end the loop condition is always true.\<close>

lemma range_loop_no_result:
  assumes "range_loop n end' out = Some r"
  shows "end' = 2 ^ 63 - 1 \<longrightarrow> n < 2 ^ 63 \<longrightarrow> False"
  using assms
proof (induction n end' out r rule: range_loop.raw_induct [rotated, consumes 1, case_names 1])
  case (1 rl n end' out r)
  show ?case
  proof (intro impI)
    assume e: "end' = 2 ^ 63 - 1" and n: "n < 2 ^ 63"
    then have "n \<le> end'" by simp
    with 1(2) have "rl (wrap64 (n + 1)) end' (out @ [plain_entry (itoa n)]) = Some r" by simp
    from 1(1) [OF this] have "\<not> (end' = 2 ^ 63 - 1 \<and> wrap64 (n + 1) < 2 ^ 63)" by blast
    with e wrap64_range [of "n + 1"] show False by blast
  qed
qed

lemma range_loop_diverges: "n < 2 ^ 63 \<Longrightarrow> range_loop n (2 ^ 63 - 1) out = None"
  using range_loop_no_result [of n "2 ^ 63 - 1" out] by (cases "range_loop n (2 ^ 63 - 1) out") simp_all

lemma range_bounds_ok:
  assumes "range_bounds s e = Inr (a, b)"
  shows "0 < a" "a \<le> b" "b < 2 ^ 63" "b - a < 10000"
proof -
  have bnd: "parse_int64 x = Some v \<Longrightarrow> - (2 ^ 63) \<le> v \<and> v < 2 ^ 63" for x v
    unfolding parse_int64_def Let_def by (auto split: if_splits)
  have ab: "0 < a" "a \<le> b" "b < 2 ^ 63" "\<not> max_rows < wrap64 (wrap64 (b - a) + 1)"
    using assms bnd by (auto simp: range_bounds_def Let_def split: if_splits option.splits)
  then show "0 < a" "a \<le> b" "b < 2 ^ 63" by simp_all
  have "wrap64 (b - a) = b - a" "wrap64 (b - a + 1) = b - a + 1"
    using ab by (auto intro!: wrap64_id)
  with ab(4) show "b - a < 10000" by (simp add: max_rows_def)
qed

text \<open>
  C14: a range import lists exactly the numbers of the range in order, at most 10000 of them,
  and rejects bad input; it fails to return only for a range that ends at the largest
  \<open>int64\<close>, where the loop counter wraps.
\<close>

theorem parse_range_spec:
  assumes "range_bounds s e = Inr (a, b)"
  shows "0 < a \<and> a \<le> b \<and> b - a + 1 \<le> 10000 \<and>
    (parse_range s e = None \<longleftrightarrow> b = 9223372036854775807) \<and>
    (b \<noteq> 9223372036854775807 \<longrightarrow>
       parse_range s e = Some (Inr \<lparr>p_entries = map (\<lambda>i. plain_entry (itoa i)) [a..b], p_warnings = []\<rparr>))"
proof -
  note b = range_bounds_ok [OF assms]
  have "parse_range s e = None" if "b = 9223372036854775807"
    using that b range_loop_diverges [of a "[]"] assms by (simp add: parse_range_def)
  moreover have "parse_range s e = Some (Inr \<lparr>p_entries = map (\<lambda>i. plain_entry (itoa i)) [a..b], p_warnings = []\<rparr>)"
    if "b \<noteq> 9223372036854775807"
    using that b range_loop_ok [of a b "[]"] assms by (simp add: parse_range_def)
  ultimately show ?thesis using b by (cases "b = 9223372036854775807") simp_all
qed

theorem parse_range_spec_witness:
  "parse_range ''9223372036854775807'' [] = None \<and>
   parse_range ''442038968001'' ''442038968002'' =
     Some (Inr \<lparr>p_entries = [plain_entry ''442038968001'', plain_entry ''442038968002''], p_warnings = []\<rparr>)"
proof
  have "range_bounds ''9223372036854775807'' [] = Inr (9223372036854775807, 9223372036854775807)" by code_simp
  from parse_range_spec [OF this] show "parse_range ''9223372036854775807'' [] = None" by simp
  have "range_bounds ''442038968001'' ''442038968002'' = Inr (442038968001, 442038968002)" by code_simp
  moreover have "map (\<lambda>i. plain_entry (itoa i)) [442038968001..442038968002] =
     [plain_entry ''442038968001'', plain_entry ''442038968002'']" by code_simp
  ultimately show "parse_range ''442038968001'' ''442038968002'' =
     Some (Inr \<lparr>p_entries = [plain_entry ''442038968001'', plain_entry ''442038968002''], p_warnings = []\<rparr>)"
    using parse_range_spec [of "''442038968001''" "''442038968002''" 442038968001 442038968002] by simp
qed

subsection \<open>What the parsers let through\<close>

lemma is_digit_not_space:
  assumes "list_all is_digit s" "w \<in> set space_seqs"
  shows "\<not> prefix w s" "\<not> prefix (rev w) (rev s)"
proof -
  have d: "\<forall>w \<in> set space_seqs. \<exists>c \<in> set w. \<not> is_digit c" by code_simp
  then obtain c where c: "c \<in> set w" "\<not> is_digit c" using assms by blast
  show "\<not> prefix w s" using c assms by (auto simp: prefix_def list_all_iff)
  have "prefix (rev w) (rev s) \<Longrightarrow> c \<in> set s"
    using c(1) by (metis set_mono_prefix set_rev subsetD)
  then show "\<not> prefix (rev w) (rev s)" using c assms by (auto simp: list_all_iff)
qed

lemma trim_space_digits: "list_all is_digit s \<Longrightarrow> trim_space s = s"
  by (simp add: trim_space_def trim_left_space_def trim_right_space_def strip_any_id is_digit_not_space)
    (subst strip_any_id; auto dest: is_digit_not_space(2))

lemma only_digits_digits [simp]: "list_all is_digit (only_digits s)"
  by (simp add: only_digits_def list_all_iff)

lemma only_digits_id: "list_all is_digit s \<Longrightarrow> only_digits s = s"
  by (simp add: only_digits_def list_all_iff)

definition e164_ok :: "string \<Rightarrow> bool" where
  "e164_ok n \<longleftrightarrow> list_all is_digit n \<and> 6 \<le> length n \<and> length n \<le> 15"

lemma looks_like_digits: "list_all is_digit ds \<Longrightarrow> looks_like_e164 ds \<longleftrightarrow> 6 \<le> length ds \<and> length ds \<le> 15"
proof -
  assume d: "list_all is_digit ds"
  then have "\<not> prefix ''+'' ds" by (cases ds) (auto)
  with d show ?thesis
    by (simp add: looks_like_e164_def trim_space_digits trim_prefix_def only_digits_id)
qed

lemma normalize_e164_ok: "normalize_e164 s \<noteq> [] \<Longrightarrow> e164_ok (normalize_e164 s)"
  by (auto simp: normalize_e164_def Let_def looks_like_digits e164_ok_def split: if_splits)

lemma normalize_e164_id: "e164_ok n \<Longrightarrow> normalize_e164 n = n"
proof -
  assume d: "e164_ok n"
  then have "\<not> prefix ''+'' n" by (cases n) (auto simp: e164_ok_def)
  with d show ?thesis
    by (simp add: normalize_e164_def looks_like_digits e164_ok_def trim_space_digits trim_prefix_def only_digits_id)
qed

text \<open>A well-formed import row.\<close>

definition entry_ok :: "entry \<Rightarrow> bool" where
  "entry_ok e \<longleftrightarrow> e164_ok (e_e164 e) \<and> length (e_country e) \<in> {0, 2} \<and>
     e_type e \<in> {[], ''mobile'', ''national'', ''local'', ''tollfree''} \<and> 0 \<le> e_supplier e \<and> -1 \<le> e_cap e"

lemma plain_entry_ok: "e164_ok n \<Longrightarrow> entry_ok (plain_entry n)"
  by (simp add: entry_ok_def plain_entry_def)

lemma bulk_tokens_ok:
  "list_all entry_ok (p_entries out) \<Longrightarrow> list_all entry_ok (p_entries (bulk_tokens ln raw ts out))"
  by (induction ts arbitrary: out) (auto simp: Let_def plain_entry_ok normalize_e164_ok)

lemma bulk_lines_ok:
  "list_all entry_ok (p_entries out) \<Longrightarrow> list_all entry_ok (p_entries (bulk_lines ln raws out))"
  by (induction raws arbitrary: ln out) (auto simp: bulk_line_def Let_def bulk_tokens_ok)

lemma csv_type_ok: "csv_type v = Some t \<Longrightarrow> t \<in> {''mobile'', ''national'', ''local'', ''tollfree''}"
  by (auto simp: csv_type_def split: if_splits)

lemma csv_country_ok: "entry_ok e \<Longrightarrow> entry_ok (if cc \<noteq> [] \<and> length cc = 2 then e\<lparr>e_country := cc\<rparr> else e)"
  by (simp add: entry_ok_def)

lemma csv_type_field_ok:
  assumes "(if ty = [] then (e, []) else case csv_type ty of Some t \<Rightarrow> (e\<lparr>e_type := t\<rparr>, []) | None \<Rightarrow> (e, [w])) = (e', ws)"
    and "entry_ok e"
  shows "entry_ok e'"
proof (cases "csv_type ty")
  case None
  with assms show ?thesis by (simp split: if_splits)
next
  case (Some t)
  with assms csv_type_ok [OF Some] show ?thesis by (auto simp: entry_ok_def split: if_splits)
qed

lemma csv_supplier_field_ok:
  "(if sv = [] then (e, []) else case parse_int64 sv of
      Some n \<Rightarrow> if 0 < n then (e\<lparr>e_supplier := n\<rparr>, []) else (e, [w]) | None \<Rightarrow> (e, [w])) = (e', ws)
   \<Longrightarrow> entry_ok e \<Longrightarrow> entry_ok e'"
  by (auto simp: entry_ok_def split: if_splits option.splits)

lemma csv_cap_field_ok:
  "entry_ok e \<Longrightarrow> entry_ok (if cv = [] then e else case parse_int64 cv of
      Some n \<Rightarrow> e\<lparr>e_cap := (if n < 1 then -1 else n)\<rparr> | None \<Rightarrow> e)"
  by (simp add: entry_ok_def split: option.splits)

lemma csv_entry_ok:
  assumes "e164_ok n" and "csv_entry r get n = (e, ws)"
  shows "entry_ok e"
  using assms(2) unfolding csv_entry_def Let_def
  by (auto simp only: split_def prod.inject dest!: arg_cong [of _ _ fst] simp: fst_conv)
    (intro csv_cap_field_ok csv_supplier_field_ok [OF surjective_pairing]
      csv_type_field_ok [OF surjective_pairing] csv_country_ok plain_entry_ok assms(1))

lemma csv_rows_ok:
  "csv_rows cols r rows out = Inr res \<Longrightarrow> list_all entry_ok (p_entries out) \<Longrightarrow>
   int (length (p_entries out)) \<le> max_rows \<Longrightarrow>
   list_all entry_ok (p_entries res) \<and> int (length (p_entries res)) \<le> max_rows"
proof (induction cols r rows out rule: csv_rows.induct)
  case (2 cols r row rows out)
  show ?case
  proof (cases "row = [] \<or> normalize_e164 (cell cols row ''e164'') = []")
    case True
    with 2 show ?thesis by (auto simp: Let_def split: if_splits)
  next
    case False
    obtain e ws where e: "csv_entry r (cell cols row) (normalize_e164 (cell cols row ''e164'')) = (e, ws)"
      by fastforce
    then have "entry_ok e" using False by (intro csv_entry_ok [OF normalize_e164_ok]) auto
    with 2(3) [OF _ refl refl _ e [symmetric]] 2(4-) False e show ?thesis
      by (auto simp: Let_def split: if_splits)
  qed
qed simp

text \<open>
  Whatever text or CSV rows the admin pastes, every row that a parser passes on has a
  number of 6 to 15 digits, a country of two bytes or none, a type of the table or none, a
  non-negative supplier and a cap of at least -1, and there are at most 10000 of them.
\<close>

theorem parsed_entries_ok:
  assumes "parse_bulk txt = Inr out \<or> parse_csv read = Inr out"
  shows "list_all entry_ok (p_entries out) \<and> length (p_entries out) \<le> 10000"
  using assms
proof
  assume "parse_bulk txt = Inr out"
  then show ?thesis
    using bulk_lines_ok [of empty_result 0 "split_byte (CHR 0x0A) txt"]
    by (auto simp: parse_bulk_def Let_def empty_result_def max_rows_def split: if_splits)
next
  assume "parse_csv read = Inr out"
  then obtain cols start rows where "csv_rows cols start rows empty_result = Inr out"
    by (auto simp: parse_csv_def Let_def split: option.splits if_splits sum.splits)
  from csv_rows_ok [OF this] show ?thesis by (simp add: empty_result_def max_rows_def)
qed

theorem parsed_entries_ok_witness:
  "(case parse_csv (Some [[''number'', ''type'', ''cap''], [''+44 2038968001'', ''Toll-Free'', ''0'']]) of
     Inr out \<Rightarrow> list_all entry_ok (p_entries out) \<and> map e_cap (p_entries out) = [-1] | Inl _ \<Rightarrow> False)"
proof -
  have r: "parse_csv (Some [[''number'', ''type'', ''cap''], [''+44 2038968001'', ''Toll-Free'', ''0'']]) =
    Inr \<lparr>p_entries = [\<lparr>e_e164 = ''442038968001'', e_country = [], e_type = ''tollfree'', e_supplier = 0, e_cap = -1\<rparr>],
         p_warnings = []\<rparr>" by code_simp
  with parsed_entries_ok [OF disjI2 [OF r]] show ?thesis by simp
qed

text \<open>A pasted number with spaces is cut at the spaces before it is normalised.\<close>

lemma bulk_splits_spaced_numbers:
  "normalize_e164 ''+44 20 3896 8001'' = ''442038968001'' \<and>
   parse_bulk ''+44 20 3896 8001'' = Inr \<lparr>p_entries = [], p_warnings = replicate 4 (WarnLine 1 ''+44 20 3896 8001'')\<rparr>"
  by code_simp

end
