(* ===== verification/Did_Prefixes.thy ===== *)
theory Did_Prefixes
  imports Go_Strings "HOL-Library.List_Lexorder" "HOL-Library.Char_ord"
begin

text \<open>
  \<open>internal/didsimport/prefixes.go\<close>: the table of dial prefixes and \<open>MatchCountry\<close>, which
  picks the country of a number.
\<close>

definition raw_prefixes :: "(string \<times> string) list" where
  "raw_prefixes = [
     (''1242'', ''BS''), (''1246'', ''BB''), (''1264'', ''AI''), (''1268'', ''AG''), (''1284'', ''VG''), (''1340'', ''VI''),
     (''1345'', ''KY''), (''1441'', ''BM''), (''1473'', ''GD''), (''1649'', ''TC''), (''1664'', ''MS''), (''1670'', ''MP''),
     (''1671'', ''GU''), (''1684'', ''AS''), (''1721'', ''SX''), (''1758'', ''LC''), (''1767'', ''DM''), (''1784'', ''VC''),
     (''1787'', ''PR''), (''1809'', ''DO''), (''1829'', ''DO''), (''1849'', ''DO''), (''1868'', ''TT''), (''1869'', ''KN''),
     (''1876'', ''JM''), (''1939'', ''PR''), (''1'', ''US''), (''30'', ''GR''), (''31'', ''NL''), (''32'', ''BE''),
     (''33'', ''FR''), (''34'', ''ES''), (''36'', ''HU''), (''39'', ''IT''), (''350'', ''GI''), (''351'', ''PT''),
     (''352'', ''LU''), (''353'', ''IE''), (''354'', ''IS''), (''355'', ''AL''), (''356'', ''MT''), (''357'', ''CY''),
     (''358'', ''FI''), (''359'', ''BG''), (''370'', ''LT''), (''371'', ''LV''), (''372'', ''EE''), (''373'', ''MD''),
     (''374'', ''AM''), (''375'', ''BY''), (''376'', ''AD''), (''377'', ''MC''), (''378'', ''SM''), (''379'', ''VA''),
     (''380'', ''UA''), (''381'', ''RS''), (''382'', ''ME''), (''383'', ''XK''), (''385'', ''HR''), (''386'', ''SI''),
     (''387'', ''BA''), (''389'', ''MK''), (''40'', ''RO''), (''41'', ''CH''), (''43'', ''AT''), (''44'', ''GB''),
     (''45'', ''DK''), (''46'', ''SE''), (''47'', ''NO''), (''48'', ''PL''), (''49'', ''DE''), (''420'', ''CZ''),
     (''421'', ''SK''), (''423'', ''LI''), (''20'', ''EG''), (''211'', ''SS''), (''212'', ''MA''), (''213'', ''DZ''),
     (''216'', ''TN''), (''218'', ''LY''), (''220'', ''GM''), (''221'', ''SN''), (''222'', ''MR''), (''223'', ''ML''),
     (''224'', ''GN''), (''225'', ''CI''), (''226'', ''BF''), (''227'', ''NE''), (''228'', ''TG''), (''229'', ''BJ''),
     (''230'', ''MU''), (''231'', ''LR''), (''232'', ''SL''), (''233'', ''GH''), (''234'', ''NG''), (''235'', ''TD''),
     (''236'', ''CF''), (''237'', ''CM''), (''238'', ''CV''), (''239'', ''ST''), (''240'', ''GQ''), (''241'', ''GA''),
     (''242'', ''CG''), (''243'', ''CD''), (''244'', ''AO''), (''245'', ''GW''), (''246'', ''IO''), (''248'', ''SC''),
     (''249'', ''SD''), (''250'', ''RW''), (''251'', ''ET''), (''252'', ''SO''), (''253'', ''DJ''), (''254'', ''KE''),
     (''255'', ''TZ''), (''256'', ''UG''), (''257'', ''BI''), (''258'', ''MZ''), (''260'', ''ZM''), (''261'', ''MG''),
     (''262'', ''RE''), (''263'', ''ZW''), (''264'', ''NA''), (''265'', ''MW''), (''266'', ''LS''), (''267'', ''BW''),
     (''268'', ''SZ''), (''269'', ''KM''), (''27'', ''ZA''), (''290'', ''SH''), (''291'', ''ER''), (''297'', ''AW''),
     (''298'', ''FO''), (''299'', ''GL''), (''51'', ''PE''), (''52'', ''MX''), (''53'', ''CU''), (''54'', ''AR''),
     (''55'', ''BR''), (''56'', ''CL''), (''57'', ''CO''), (''58'', ''VE''), (''500'', ''FK''), (''501'', ''BZ''),
     (''502'', ''GT''), (''503'', ''SV''), (''504'', ''HN''), (''505'', ''NI''), (''506'', ''CR''), (''507'', ''PA''),
     (''508'', ''PM''), (''509'', ''HT''), (''590'', ''GP''), (''591'', ''BO''), (''592'', ''GY''), (''593'', ''EC''),
     (''594'', ''GF''), (''595'', ''PY''), (''596'', ''MQ''), (''597'', ''SR''), (''598'', ''UY''), (''599'', ''CW''),
     (''60'', ''MY''), (''61'', ''AU''), (''62'', ''ID''), (''63'', ''PH''), (''64'', ''NZ''), (''65'', ''SG''),
     (''66'', ''TH''), (''670'', ''TL''), (''672'', ''AQ''), (''673'', ''BN''), (''674'', ''NR''), (''675'', ''PG''),
     (''676'', ''TO''), (''677'', ''SB''), (''678'', ''VU''), (''679'', ''FJ''), (''680'', ''PW''), (''681'', ''WF''),
     (''682'', ''CK''), (''683'', ''NU''), (''685'', ''WS''), (''686'', ''KI''), (''687'', ''NC''), (''688'', ''TV''),
     (''689'', ''PF''), (''690'', ''TK''), (''691'', ''FM''), (''692'', ''MH''), (''7840'', ''AB''), (''7940'', ''AB''),
     (''7'', ''RU''), (''81'', ''JP''), (''82'', ''KR''), (''84'', ''VN''), (''86'', ''CN''), (''850'', ''KP''),
     (''852'', ''HK''), (''853'', ''MO''), (''855'', ''KH''), (''856'', ''LA''), (''880'', ''BD''), (''886'', ''TW''),
     (''90'', ''TR''), (''91'', ''IN''), (''92'', ''PK''), (''93'', ''AF''), (''94'', ''LK''), (''95'', ''MM''),
     (''98'', ''IR''), (''960'', ''MV''), (''961'', ''LB''), (''962'', ''JO''), (''963'', ''SY''), (''964'', ''IQ''),
     (''965'', ''KW''), (''966'', ''SA''), (''967'', ''YE''), (''968'', ''OM''), (''970'', ''PS''), (''971'', ''AE''),
     (''972'', ''IL''), (''973'', ''BH''), (''974'', ''QA''), (''975'', ''BT''), (''976'', ''MN''), (''977'', ''NP''),
     (''992'', ''TJ''), (''993'', ''TM''), (''994'', ''AZ''), (''995'', ''GE''), (''996'', ''KG''), (''998'', ''UZ''),
     (''800'', ''INT''), (''808'', ''INT''), (''870'', ''INT''), (''878'', ''INT''), (''881'', ''INT''), (''882'', ''INT''),
     (''883'', ''INT''), (''888'', ''INT''), (''979'', ''INT'')]"

text \<open>\<open>init\<close>: longest prefix first, alphabetical among equals.\<close>

definition match_order :: "(string \<times> string) list" where
  "match_order = sort_key (\<lambda>p. - int (length (fst p))) (sort_key fst raw_prefixes)"

definition match_country :: "string \<Rightarrow> string option" where
  "match_country e164 =
     (let n = trim_prefix e164 ''+'' in
      map_option snd (List.find (\<lambda>p. has_prefix n (fst p)) match_order))"

lemma set_match_order [simp]: "set match_order = set raw_prefixes"
  by (simp add: match_order_def)

lemma raw_prefixes_distinct: "distinct (map fst raw_prefixes)"
proof -
  have "distinct (map (\<lambda>p. foldl (\<lambda>a c. a * 10 + int (byte_val c - 48)) 0 (fst p)) raw_prefixes)"
    unfolding raw_prefixes_def by (simp add: byte_val_def)
  then show ?thesis by (auto simp: distinct_map inj_on_def)
qed

lemma find_sorted_least:
  fixes f :: "'a \<Rightarrow> 'b :: linorder"
  assumes "List.find P xs = Some x" "sorted (map f xs)" "y \<in> set xs" "P y"
  shows "f x \<le> f y"
  using assms by (induction xs) (auto split: if_splits dest: find_Some_iff [THEN iffD1])

lemma find_in: "List.find P xs = Some x \<Longrightarrow> x \<in> set xs \<and> P x"
  by (induction xs) (auto split: if_splits)

lemma prefix_same_length: "prefix p n \<Longrightarrow> prefix q n \<Longrightarrow> length p = length q \<Longrightarrow> p = q"
  by (metis prefix_length_prefix prefix_order.dual_order.antisym le_refl)

text \<open>
  A number is filed under its most specific dial prefix: the answer is the country of
  the longest entry of the table that the number starts with, and there is no answer exactly
  when no entry is a prefix of it.
\<close>

theorem match_country_longest:
  "(match_country e164 = Some c \<longleftrightarrow>
      (\<exists>q. (q, c) \<in> set raw_prefixes \<and> prefix q (trim_prefix e164 ''+'') \<and>
        (\<forall>p \<in> set raw_prefixes. prefix (fst p) (trim_prefix e164 ''+'') \<longrightarrow> length (fst p) \<le> length q))) \<and>
   (match_country e164 = None \<longleftrightarrow> \<not> (\<exists>p \<in> set raw_prefixes. prefix (fst p) (trim_prefix e164 ''+'')))"
proof -
  let ?n = "trim_prefix e164 ''+''"
  let ?P = "\<lambda>p. has_prefix ?n (fst p)"
  have sorted: "sorted (map (\<lambda>p. - int (length (fst p))) match_order)"
    unfolding match_order_def by (rule sorted_sort_key)
  have none: "match_country e164 = None \<longleftrightarrow> \<not> (\<exists>p \<in> set raw_prefixes. ?P p)"
    unfolding match_country_def Let_def by (simp add: find_None_iff Bex_def)
  have longest: "length (fst p) \<le> length (fst x)"
    if "List.find ?P match_order = Some x" "p \<in> set raw_prefixes" "?P p" for x p
    using find_sorted_least [OF that(1) sorted] that(2,3) by simp
  have uniq: "x = y" if "x \<in> set raw_prefixes" "y \<in> set raw_prefixes" "?P x" "?P y"
    "length (fst x) = length (fst y)" for x y
    using prefix_same_length [OF that(3,4,5)] raw_prefixes_distinct that(1,2)
    by (meson distinct_map inj_onD)
  have "match_country e164 = Some c \<longleftrightarrow> (\<exists>q. (q, c) \<in> set raw_prefixes \<and> prefix q ?n \<and>
      (\<forall>p \<in> set raw_prefixes. prefix (fst p) ?n \<longrightarrow> length (fst p) \<le> length q))"
  proof
    assume "match_country e164 = Some c"
    then obtain x where x: "List.find ?P match_order = Some x" "snd x = c"
      by (auto simp: match_country_def Let_def)
    with find_in [OF x(1)] longest [OF x(1)] show "\<exists>q. (q, c) \<in> set raw_prefixes \<and> prefix q ?n \<and>
        (\<forall>p \<in> set raw_prefixes. prefix (fst p) ?n \<longrightarrow> length (fst p) \<le> length q)"
      by (intro exI [of _ "fst x"]) auto
  next
    assume "\<exists>q. (q, c) \<in> set raw_prefixes \<and> prefix q ?n \<and>
        (\<forall>p \<in> set raw_prefixes. prefix (fst p) ?n \<longrightarrow> length (fst p) \<le> length q)"
    then obtain q where q: "(q, c) \<in> set raw_prefixes" "prefix q ?n"
      "\<And>p. p \<in> set raw_prefixes \<Longrightarrow> prefix (fst p) ?n \<Longrightarrow> length (fst p) \<le> length q" by blast
    then obtain x where x: "List.find ?P match_order = Some x"
      using none by (cases "List.find ?P match_order") (auto simp: match_country_def Let_def)
    have "length (fst x) = length q"
      using longest [OF x q(1)] q(2,3) find_in [OF x] by (intro antisym) auto
    then have "x = (q, c)" using uniq [of x "(q, c)"] q find_in [OF x] by auto
    with x show "match_country e164 = Some c" by (simp add: match_country_def Let_def)
  qed
  with none show ?thesis by blast
qed

theorem match_country_longest_witness: "match_country ''+12425551234'' = Some ''BS''"
proof -
  have e: "list_all (\<lambda>p. prefix (fst p) ''12425551234'' \<longrightarrow> length (fst p) \<le> 4) raw_prefixes"
    "(''1242'', ''BS'') \<in> set raw_prefixes" "trim_prefix ''+12425551234'' ''+'' = ''12425551234''"
    by (code_simp, simp add: raw_prefixes_def, simp add: trim_prefix_def)
  have "\<exists>q. (q, ''BS'') \<in> set raw_prefixes \<and> prefix q (trim_prefix ''+12425551234'' ''+'') \<and>
      (\<forall>p \<in> set raw_prefixes. prefix (fst p) (trim_prefix ''+12425551234'' ''+'') \<longrightarrow> length (fst p) \<le> length q)"
    unfolding e(3) using e(1,2) by (intro exI [of _ "''1242''"]) (simp add: list_all_iff eval_nat_numeral)
  then show ?thesis using match_country_longest [of "''+12425551234''" "''BS''"] by blast
qed

end
