(* ===== verification/Did_Import.thy ===== *)
theory Did_Import
  imports Did_Parsers Did_Prefixes Schema
begin

text \<open>
  \<open>internal/didsimport/worker.go\<close>, \<open>job.go\<close> and the handlers of \<open>web/dids_import.go\<close>: the
  import job, its event stream, the worker that inserts the rows, and the registry of jobs
  with its reaper. What the run cannot decide is in \<open>import_env\<close>: which case a \<open>select\<close>
  takes at row \<open>i\<close>, the error of the \<open>i\<close>-th INSERT, which emitted event the one-second
  timeout drops and the clock. \<open>jb_emits\<close> counts the \<open>emit\<close> calls to index that oracle.
  The worker body has no panic, so the recovering branch of its deferred function is not
  reached.
\<close>

datatype job_status = StatusPending | StatusRunning | StatusDone | StatusErrored

definition job_status_text :: "job_status \<Rightarrow> string" where
  "job_status_text s =
     (case s of StatusPending \<Rightarrow> ''pending'' | StatusRunning \<Rightarrow> ''running'' | StatusDone \<Rightarrow> ''done''
      | StatusErrored \<Rightarrow> ''errored'')"

datatype event_type = EventInit | EventRow | EventProgress | EventDone

datatype row_status = RowAdded | RowSkipped | RowError

record event =
  ev_type :: event_type
  ev_at :: int
  ev_e164 :: string
  ev_row :: "row_status option"
  ev_reason :: string
  ev_country :: string
  ev_did_type :: string
  ev_total :: int
  ev_added :: int
  ev_skipped :: int
  ev_errors :: int
  ev_processed :: int
  ev_duration :: int
  ev_message :: string

definition blank_event :: "event_type \<Rightarrow> event" where
  "blank_event t = \<lparr>ev_type = t, ev_at = 0, ev_e164 = [], ev_row = None, ev_reason = [], ev_country = [],
     ev_did_type = [], ev_total = 0, ev_added = 0, ev_skipped = 0, ev_errors = 0, ev_processed = 0,
     ev_duration = 0, ev_message = []\<rparr>"

record import_defaults =
  df_country :: string
  df_type :: string
  df_cap :: int

record job =
  jb_id :: string
  jb_supplier :: int
  jb_source :: string
  jb_defaults :: import_defaults
  jb_created :: int
  jb_total :: int
  jb_added :: int
  jb_skipped :: int
  jb_errors :: int
  jb_processed :: int
  jb_status :: job_status
  jb_finish :: "int option"
  jb_final_err :: string
  jb_events :: "event list"
  jb_closed :: bool
  jb_emits :: nat

text \<open>What the \<open>select\<close> at the head of a row chose, and the errors of pgx.\<close>

datatype select_choice = SelDone string | SelTick | SelDefault

datatype db_error = PgError string string string | OtherError string

record import_env =
  ie_select :: "nat \<Rightarrow> select_choice"
  ie_fault :: "nat \<Rightarrow> db_error option"
  ie_drop :: "nat \<Rightarrow> bool"
  ie_millis :: "nat \<Rightarrow> int"
  ie_start :: int
  ie_end :: int

subsection \<open>The job\<close>

definition set_status :: "job_status \<Rightarrow> string \<Rightarrow> int \<Rightarrow> job \<Rightarrow> job" where
  "set_status st err now j =
     (let j1 = j\<lparr>jb_status := st\<rparr>;
          j2 = (if st = StatusDone \<or> st = StatusErrored then j1\<lparr>jb_finish := Some now\<rparr> else j1)
      in if err \<noteq> [] then j2\<lparr>jb_final_err := err\<rparr> else j2)"

definition emit :: "import_env \<Rightarrow> event \<Rightarrow> job \<Rightarrow> job" where
  "emit env ev j =
     (let k = jb_emits j;
          ev' = (if ev_at ev = 0 then ev\<lparr>ev_at := ie_millis env k\<rparr> else ev);
          j' = j\<lparr>jb_emits := k + 1\<rparr>
      in if ie_drop env k then j' else j'\<lparr>jb_events := jb_events j @ [ev']\<rparr>)"

definition counters_of :: "job \<Rightarrow> event \<Rightarrow> event" where
  "counters_of j ev = ev\<lparr>ev_total := jb_total j, ev_added := jb_added j, ev_skipped := jb_skipped j,
     ev_errors := jb_errors j, ev_processed := jb_processed j\<rparr>"

definition emit_progress :: "import_env \<Rightarrow> job \<Rightarrow> job" where
  "emit_progress env j = emit env (counters_of j (blank_event EventProgress)) j"

definition emit_done :: "import_env \<Rightarrow> string \<Rightarrow> job \<Rightarrow> job" where
  "emit_done env msg j =
     emit env ((counters_of j (blank_event EventDone))\<lparr>ev_duration := (ie_end env - ie_start env) div 10 ^ 6, ev_message := msg\<rparr>) j"

subsection \<open>One row\<close>

definition em_dash :: string where "em_dash = [CHR 0xE2, CHR 0x80, CHR 0x94]"

definition ellipsis :: string where "ellipsis = [CHR 0xE2, CHR 0x80, CHR 0xA6]"

definition db_error_text :: "db_error \<Rightarrow> string" where
  "db_error_text e = (case e of PgError _ _ t \<Rightarrow> t | OtherError t \<Rightarrow> t)"

definition short_error :: "string \<Rightarrow> string" where
  "short_error s0 =
     (let s = (case str_index s0 '' ('' of Some i \<Rightarrow> if 0 < i then take i s0 else s0 | None \<Rightarrow> s0)
      in if 120 < length s then take 120 s @ ellipsis else s)"

definition classify_db_error :: "db_error \<Rightarrow> string" where
  "classify_db_error err =
     (case err of
        PgError code constraint txt \<Rightarrow>
          if code = ''23503'' then
            (if str_contains constraint ''country'' then ''country not in our countries table''
             else if str_contains constraint ''supplier'' then ''supplier_id not found''
             else ''FK violation: '' @ constraint)
          else if code = ''23505'' then ''duplicate (race)''
          else if code = ''23514'' then ''check constraint: '' @ constraint
          else short_error txt
      | OtherError txt \<Rightarrow> short_error txt)"

text \<open>The values a row is inserted with: its own, else the form's, else what the prefix tells.\<close>

definition row_country :: "job \<Rightarrow> entry \<Rightarrow> string" where
  "row_country j e =
     (let c = (if e_country e = [] then df_country (jb_defaults j) else e_country e)
      in if c = [] then (case match_country (e_e164 e) of Some cc \<Rightarrow> cc | None \<Rightarrow> []) else c)"

definition row_type :: "job \<Rightarrow> entry \<Rightarrow> string" where
  "row_type j e = (if e_type e = [] then df_type (jb_defaults j) else e_type e)"

definition row_supplier :: "job \<Rightarrow> entry \<Rightarrow> int" where
  "row_supplier j e = (if e_supplier e = 0 then jb_supplier j else e_supplier e)"

definition row_cap :: "job \<Rightarrow> entry \<Rightarrow> int" where
  "row_cap j e = (if e_cap e = 0 then (if df_cap (jb_defaults j) = 0 then -1 else df_cap (jb_defaults j)) else e_cap e)"

definition did_numbers :: "db \<Rightarrow> string list" where
  "did_numbers d = map (\<lambda>(k, r). d_e164 r) (dids d)"

text \<open>\<open>INSERT INTO dids .. ON CONFLICT (e164) DO NOTHING\<close>: the rows affected.\<close>

definition insert_did :: "string \<Rightarrow> int \<Rightarrow> string \<Rightarrow> string \<Rightarrow> int \<Rightarrow> db \<Rightarrow> nat \<times> db" where
  "insert_did n sid country ty cap d =
     (if n \<in> set (did_numbers d) then (0, d)
      else (1, d\<lparr>dids := tbl_insert \<lparr>d_e164 = n, d_supplier = sid, d_country = country, d_type = ty, d_cap = cap,
              d_status = DidAvailable, d_res_kind = None, d_res_target = None, d_res_group = None, d_res_file = None,
              d_res_note = None, d_res_at = None, d_res_by = None\<rparr> (dids d)\<rparr>))"

definition row_event :: "string \<Rightarrow> row_status \<Rightarrow> string \<Rightarrow> string \<Rightarrow> string \<Rightarrow> event" where
  "row_event n st reason country ty =
     (blank_event EventRow)\<lparr>ev_e164 := n, ev_row := Some st, ev_reason := reason, ev_country := country, ev_did_type := ty\<rparr>"

definition reject_row :: "import_env \<Rightarrow> entry \<Rightarrow> string \<Rightarrow> job \<Rightarrow> job" where
  "reject_row env e reason j =
     emit env (row_event (e_e164 e) RowError reason [] []) (j\<lparr>jb_errors := jb_errors j + 1, jb_processed := jb_processed j + 1\<rparr>)"

definition import_row :: "import_env \<Rightarrow> nat \<Rightarrow> entry \<Rightarrow> job \<times> db \<Rightarrow> job \<times> db" where
  "import_row env i e = (\<lambda>(j, d).
     (let country = row_country j e; ty = row_type j e; sid = row_supplier j e; cap = row_cap j e in
      if country = [] then
        (reject_row env e (''country: no prefix match '' @ em_dash @ '' set Default country on the form'') j, d)
      else if ty = [] then (reject_row env e ''did_type missing'' j, d)
      else if sid = 0 then (reject_row env e ''supplier_id missing'' j, d)
      else let (j', d') =
             (case ie_fault env i of
                Some err \<Rightarrow>
                  (emit env (row_event (e_e164 e) RowError (classify_db_error err) country ty) (j\<lparr>jb_errors := jb_errors j + 1\<rparr>), d)
              | None \<Rightarrow>
                  (case insert_did (e_e164 e) sid country ty cap d of
                     (n, d1) \<Rightarrow>
                       if n = 0 then
                         (emit env (row_event (e_e164 e) RowSkipped ''already exists'' country ty) (j\<lparr>jb_skipped := jb_skipped j + 1\<rparr>), d1)
                       else (emit env (row_event (e_e164 e) RowAdded [] country ty) (j\<lparr>jb_added := jb_added j + 1\<rparr>), d1)))
           in (j'\<lparr>jb_processed := jb_processed j' + 1\<rparr>, d')))"

subsection \<open>The worker\<close>

text \<open>The rows in order; the flag tells that the context was cancelled.\<close>

fun import_rows :: "import_env \<Rightarrow> nat \<Rightarrow> entry list \<Rightarrow> job \<times> db \<Rightarrow> string option \<times> job \<times> db" where
  "import_rows env i [] s = (None, s)"
| "import_rows env i (e # es) (j, d) =
     (case ie_select env i of
        SelDone msg \<Rightarrow> (Some msg, j, d)
      | SelTick \<Rightarrow> import_rows env (i + 1) es (import_row env i e (emit_progress env j, d))
      | SelDefault \<Rightarrow> import_rows env (i + 1) es (import_row env i e (j, d)))"

definition start_job :: "import_env \<Rightarrow> entry list \<Rightarrow> job \<Rightarrow> job" where
  "start_job env es j =
     emit env ((blank_event EventInit)\<lparr>ev_total := int (length es)\<rparr>)
       (set_status StatusRunning [] (ie_start env) (j\<lparr>jb_total := int (length es)\<rparr>))"

definition replay_warning :: "import_env \<Rightarrow> string \<Rightarrow> job \<Rightarrow> job" where
  "replay_warning env w j = emit env (row_event [] RowError w [] []) (j\<lparr>jb_errors := jb_errors j + 1\<rparr>)"

definition run_import :: "import_env \<Rightarrow> job \<Rightarrow> entry list \<Rightarrow> string list \<Rightarrow> db \<Rightarrow> job \<times> db" where
  "run_import env j es warnings d =
     (let j1 = fold (replay_warning env) warnings (start_job env es j);
          (stop, j2, d2) = import_rows env 0 es (j1, d);
          j3 = (case stop of
                  Some msg \<Rightarrow> emit_done env (''import cancelled: '' @ msg) (set_status StatusErrored msg (ie_end env) j2)
                | None \<Rightarrow> emit_done env [] (emit_progress env (set_status StatusDone [] (ie_end env) j2)))
      in (j3\<lparr>jb_closed := True\<rparr>, d2))"

subsection \<open>The registry\<close>

type_synonym registry = "string \<rightharpoonup> job"

definition retain_after_end :: int where "retain_after_end = 10 * 60 * 10 ^ 9"

definition hex_digit :: "nat \<Rightarrow> char" where
  "hex_digit n = ''0123456789abcdef'' ! n"

text \<open>\<open>hex.EncodeToString\<close> of the six random bytes.\<close>

definition new_id :: "nat list \<Rightarrow> string" where
  "new_id bs = concat (map (\<lambda>b. [hex_digit (b div 16), hex_digit (b mod 16)]) bs)"

definition new_job :: "string \<Rightarrow> int \<Rightarrow> string \<Rightarrow> import_defaults \<Rightarrow> int \<Rightarrow> job" where
  "new_job ident sid source df now =
     \<lparr>jb_id = ident, jb_supplier = sid, jb_source = source, jb_defaults = df, jb_created = now,
      jb_total = 0, jb_added = 0, jb_skipped = 0, jb_errors = 0, jb_processed = 0,
      jb_status = StatusPending, jb_finish = None, jb_final_err = [], jb_events = [], jb_closed = False, jb_emits = 0\<rparr>"

definition reg_new :: "nat list \<Rightarrow> int \<Rightarrow> string \<Rightarrow> import_defaults \<Rightarrow> int \<Rightarrow> registry \<Rightarrow> job \<times> registry" where
  "reg_new bs sid source df now r =
     (let j = new_job (new_id bs) sid source df now in (j, r(jb_id j \<mapsto> j)))"

definition reg_get :: "registry \<Rightarrow> string \<Rightarrow> job option" where
  "reg_get r ident = r ident"

text \<open>Times are nanoseconds.\<close>

definition collectable :: "int \<Rightarrow> job \<Rightarrow> bool" where
  "collectable now j \<longleftrightarrow>
     (jb_status j = StatusDone \<or> jb_status j = StatusErrored) \<and>
     (case jb_finish j of None \<Rightarrow> False | Some t \<Rightarrow> retain_after_end < now - t)"

definition reap_once :: "int \<Rightarrow> registry \<Rightarrow> registry" where
  "reap_once now r = (\<lambda>k. case r k of None \<Rightarrow> None | Some j \<Rightarrow> if collectable now j then None else Some j)"

subsection \<open>The admin's handlers\<close>

text \<open>\<open>web/dids_import.go\<close>: the form of \<open>didImportStart\<close>; \<open>if_csv\<close> is \<open>None\<close> without an upload.\<close>

record import_form =
  if_mode :: string
  if_supplier :: string
  if_country :: string
  if_type :: string
  if_cap :: string
  if_start :: string
  if_end :: string
  if_bulk :: string
  if_csv :: "string list list option option"

datatype import_reply =
    ImportUnavailable | ImportBadForm | ImportNoSupplier | ImportNoFile | ImportBadMode
  | ImportBadInput parse_error | ImportNothing
  | ImportStarted string nat nat import_defaults

definition import_code :: "import_reply \<Rightarrow> int" where
  "import_code r = (case r of ImportUnavailable \<Rightarrow> 503 | ImportStarted _ _ _ _ \<Rightarrow> 200 | _ \<Rightarrow> 400)"

definition parse_channel_cap :: "string \<Rightarrow> int" where
  "parse_channel_cap v0 =
     (let v = trim_space v0 in
      if v = [] then -1
      else case parse_int64 v of None \<Rightarrow> -1 | Some n \<Rightarrow> if n < 0 then -1 else n)"

definition input_of :: "parse_error + parse_result \<Rightarrow> import_reply + parse_result" where
  "input_of r = (case r of Inl e \<Rightarrow> Inl (ImportBadInput e) | Inr p \<Rightarrow> Inr p)"

text \<open>\<open>None\<close>: the parser does not return.\<close>

definition parse_mode :: "import_form \<Rightarrow> (import_reply + parse_result) option" where
  "parse_mode f =
     (if if_mode f = ''range'' then map_option input_of (parse_range (if_start f) (if_end f))
      else if if_mode f = ''bulk'' then Some (input_of (parse_bulk (if_bulk f)))
      else if if_mode f = ''csv'' then
        (case if_csv f of None \<Rightarrow> Some (Inl ImportNoFile) | Some rd \<Rightarrow> Some (input_of (parse_csv rd)))
      else Some (Inl ImportBadMode))"

text \<open>
  The reply, the registry and the work handed to the goroutine. \<open>reg\<close> is \<open>None\<close> for a handler
  without a registry, \<open>form\<close> is \<open>None\<close> when the multipart form does not parse.
\<close>

definition import_start ::
  "nat list \<Rightarrow> int \<Rightarrow> registry option \<Rightarrow> import_form option \<Rightarrow>
   (import_reply \<times> registry option \<times> (job \<times> parse_result) option) option" where
  "import_start bs now reg form =
     (case (reg, form) of
        (None, _) \<Rightarrow> Some (ImportUnavailable, reg, None)
      | (Some r, None) \<Rightarrow> Some (ImportBadForm, reg, None)
      | (Some r, Some f) \<Rightarrow>
          (let sid = atoi64 (if_supplier f) in
           if sid \<le> 0 then Some (ImportNoSupplier, reg, None)
           else let df = \<lparr>df_country = to_upper (trim_space (if_country f)), df_type = trim_space (if_type f),
                          df_cap = parse_channel_cap (if_cap f)\<rparr> in
             case parse_mode f of
               None \<Rightarrow> None
             | Some (Inl e) \<Rightarrow> Some (e, reg, None)
             | Some (Inr p) \<Rightarrow>
                 if p_entries p = [] then Some (ImportNothing, reg, None)
                 else let (j, r') = reg_new bs sid (if_mode f) df now r in
                   Some (ImportStarted (jb_id j) (length (p_entries p)) (length (p_warnings p)) df, Some r', Some (j, p))))"

definition import_status :: "registry \<Rightarrow> string \<Rightarrow> (string \<times> job_status \<times> int list \<times> int \<times> string) option" where
  "import_status r ident =
     map_option (\<lambda>j. (jb_id j, jb_status j, [jb_total j, jb_added j, jb_skipped j, jb_errors j, jb_processed j],
       jb_supplier j, jb_source j)) (reg_get r ident)"

subsection \<open>Counters\<close>

lemma emit_sel [simp]:
  "jb_total (emit env ev j) = jb_total j" "jb_added (emit env ev j) = jb_added j"
  "jb_skipped (emit env ev j) = jb_skipped j" "jb_errors (emit env ev j) = jb_errors j"
  "jb_processed (emit env ev j) = jb_processed j" "jb_status (emit env ev j) = jb_status j"
  "jb_finish (emit env ev j) = jb_finish j" "jb_id (emit env ev j) = jb_id j"
  "jb_supplier (emit env ev j) = jb_supplier j" "jb_defaults (emit env ev j) = jb_defaults j"
  by (simp_all add: emit_def Let_def)

lemma set_status_sel [simp]:
  "jb_total (set_status st err now j) = jb_total j" "jb_added (set_status st err now j) = jb_added j"
  "jb_skipped (set_status st err now j) = jb_skipped j" "jb_errors (set_status st err now j) = jb_errors j"
  "jb_processed (set_status st err now j) = jb_processed j" "jb_status (set_status st err now j) = st"
  "jb_finish (set_status st err now j) = (if st = StatusDone \<or> st = StatusErrored then Some now else jb_finish j)"
  by (simp_all add: set_status_def Let_def)

lemmas job_emits = emit_progress_def emit_done_def reject_row_def replay_warning_def

definition count_gap :: "job \<Rightarrow> int" where
  "count_gap j = jb_added j + jb_skipped j + jb_errors j - jb_processed j"

lemma import_row_counts:
  assumes "import_row env i e (j, d) = (j', d')"
  shows "count_gap j' = count_gap j" "jb_processed j' = jb_processed j + 1" "jb_total j' = jb_total j"
    "jb_errors j \<le> jb_errors j'" "int (length (dids d')) = int (length (dids d)) + (jb_added j' - jb_added j)"
  using assms
  by (auto simp: import_row_def count_gap_def job_emits insert_did_def tbl_insert_def Let_def
      split: option.splits if_splits prod.splits)

lemma import_rows_counts:
  "import_rows env i es (j, d) = (stop, j', d') \<Longrightarrow>
   count_gap j' = count_gap j \<and> jb_total j' = jb_total j \<and> jb_errors j \<le> jb_errors j' \<and>
   jb_processed j \<le> jb_processed j' \<and> jb_processed j' \<le> jb_processed j + int (length es) \<and>
   (stop = None \<longrightarrow> jb_processed j' = jb_processed j + int (length es)) \<and>
   int (length (dids d')) = int (length (dids d)) + (jb_added j' - jb_added j)"
proof (induction env i es "(j, d)" arbitrary: j d rule: import_rows.induct)
  case (2 env i e es j d)
  show ?case
  proof (cases "ie_select env i")
    case SelDone
    with 2(3) show ?thesis by auto
  next
    case SelTick
    obtain k b where kb: "import_row env i e (emit_progress env j, d) = (k, b)" by fastforce
    from import_row_counts [OF kb] 2(1) [OF SelTick kb] 2(3) SelTick kb show ?thesis
      by (auto simp: job_emits count_gap_def)
  next
    case SelDefault
    obtain k b where kb: "import_row env i e (j, d) = (k, b)" by fastforce
    from import_row_counts [OF kb] 2(2) [OF SelDefault kb] 2(3) SelDefault kb show ?thesis by auto
  qed
qed auto

lemma start_job_sel [simp]:
  "count_gap (start_job env es j) = count_gap j" "jb_total (start_job env es j) = int (length es)"
  "jb_added (start_job env es j) = jb_added j" "jb_processed (start_job env es j) = jb_processed j"
  "jb_errors (start_job env es j) = jb_errors j"
  by (simp_all add: start_job_def count_gap_def)

lemma replay_warnings_sel [simp]:
  "count_gap (fold (replay_warning env) ws j) = count_gap j + int (length ws)"
  "jb_total (fold (replay_warning env) ws j) = jb_total j"
  "jb_added (fold (replay_warning env) ws j) = jb_added j"
  "jb_processed (fold (replay_warning env) ws j) = jb_processed j"
  "jb_errors (fold (replay_warning env) ws j) = jb_errors j + int (length ws)"
  by (induction ws arbitrary: j) (simp_all add: job_emits count_gap_def)

lemma run_import_cases:
  assumes "run_import env j es ws d = (j', d')"
  obtains stop k where
    "import_rows env 0 es (fold (replay_warning env) ws (start_job env es j), d) = (stop, k, d')"
    "jb_added j' = jb_added k" "jb_processed j' = jb_processed k" "jb_total j' = jb_total k"
    "jb_errors j' = jb_errors k" "count_gap j' = count_gap k" "jb_closed j'" "jb_finish j' = Some (ie_end env)"
    "jb_status j' = (if stop = None then StatusDone else StatusErrored)"
  using assms
  by (auto simp: run_import_def job_emits count_gap_def Let_def split: prod.splits option.splits)

text \<open>
  C11: an import accounts for everything: whatever rows fail, whichever events are dropped and
  whenever it is cancelled, added + skipped + errors is the processed rows plus the replayed
  warnings, the inventory grew by exactly the added rows, and a run that ends as done has
  processed every row.
\<close>

theorem import_accounts:
  assumes "run_import env (new_job ident sid source df now) es ws d = (j, d')"
  shows "jb_added j + jb_skipped j + jb_errors j = jb_processed j + int (length ws) \<and>
    jb_processed j \<le> jb_total j \<and> jb_total j = int (length es) \<and>
    int (length (dids d')) = int (length (dids d)) + jb_added j \<and>
    (jb_status j = StatusDone \<and> jb_processed j = jb_total j \<or> jb_status j = StatusErrored)"
proof -
  obtain stop k where k: "import_rows env 0 es
      (fold (replay_warning env) ws (start_job env es (new_job ident sid source df now)), d) = (stop, k, d')"
    and e: "jb_added j = jb_added k" "jb_processed j = jb_processed k" "jb_total j = jb_total k"
      "count_gap j = count_gap k" "jb_status j = (if stop = None then StatusDone else StatusErrored)"
    using run_import_cases [OF assms] by metis
  have z: "count_gap (new_job ident sid source df now) = 0" "jb_added (new_job ident sid source df now) = 0"
    "jb_processed (new_job ident sid source df now) = 0"
    by (simp_all add: new_job_def count_gap_def)
  note c = import_rows_counts [OF k]
  have "count_gap j = int (length ws)" using c e z by simp
  then have "jb_added j + jb_skipped j + jb_errors j = jb_processed j + int (length ws)"
    by (simp add: count_gap_def)
  moreover have "jb_status j = StatusDone \<and> jb_processed j = jb_total j \<or> jb_status j = StatusErrored"
    using c e z by (cases stop) simp_all
  ultimately show ?thesis using c e z by simp
qed

subsection \<open>The inventory\<close>

definition inventory_grows :: "string set \<Rightarrow> db \<Rightarrow> db \<Rightarrow> bool" where
  "inventory_grows ns d d' \<longleftrightarrow>
     (\<exists>new. dids d' = dids d @ new \<and> (\<forall>(i, r) \<in> set new. d_status r = DidAvailable \<and> d_e164 r \<in> ns)) \<and>
     (distinct (did_numbers d) \<longrightarrow> distinct (did_numbers d'))"

lemma inventory_grows_refl [simp]: "inventory_grows ns d d"
  by (simp add: inventory_grows_def)

lemma inventory_grows_trans:
  assumes "inventory_grows ms d b" "inventory_grows ns b d'" "ms \<subseteq> ns"
  shows "inventory_grows ns d d'"
proof -
  obtain x y where "dids b = dids d @ x" "\<forall>(i, r) \<in> set x. d_status r = DidAvailable \<and> d_e164 r \<in> ms"
    "dids d' = dids b @ y" "\<forall>(i, r) \<in> set y. d_status r = DidAvailable \<and> d_e164 r \<in> ns"
    using assms unfolding inventory_grows_def by blast
  then have "dids d' = dids d @ (x @ y) \<and> (\<forall>(i, r) \<in> set (x @ y). d_status r = DidAvailable \<and> d_e164 r \<in> ns)"
    using assms(3) by fastforce
  with assms(1,2) show ?thesis unfolding inventory_grows_def by blast
qed

lemma inventory_grows_mono: "inventory_grows ms d b \<Longrightarrow> ms \<subseteq> ns \<Longrightarrow> inventory_grows ns d b"
  using inventory_grows_trans inventory_grows_refl by blast

lemma inventory_grows_keeps: "inventory_grows ns d d' \<Longrightarrow> set (did_numbers d) \<subseteq> set (did_numbers d')"
  by (auto simp: inventory_grows_def did_numbers_def)

lemma insert_did_grows:
  assumes "insert_did n sid c t cap d = (k, d')"
  shows "inventory_grows {n} d d' \<and> n \<in> set (did_numbers d') \<and> (n \<in> set (did_numbers d) \<longrightarrow> d' = d)"
  using assms
  by (auto simp: inventory_grows_def insert_did_def did_numbers_def tbl_insert_def split: if_splits)

lemma import_row_grows:
  assumes "import_row env i e (j, d) = (j', d')"
  shows "inventory_grows {e_e164 e} d d' \<and> (jb_errors j' = jb_errors j \<longrightarrow> e_e164 e \<in> set (did_numbers d')) \<and>
    (e_e164 e \<in> set (did_numbers d) \<longrightarrow> d' = d)"
proof -
  consider "d' = d" "jb_errors j' \<noteq> jb_errors j" | k c t where
    "insert_did (e_e164 e) (row_supplier j e) c t (row_cap j e) d = (k, d')"
    using assms by (auto simp: import_row_def job_emits Let_def split: option.splits if_splits prod.splits)
  then show ?thesis by cases (auto dest: insert_did_grows)
qed

lemma import_rows_grows:
  "import_rows env i es (j, d) = (stop, j', d') \<Longrightarrow>
   inventory_grows (e_e164 ` set es) d d' \<and>
   (stop = None \<and> jb_errors j' = jb_errors j \<longrightarrow> e_e164 ` set es \<subseteq> set (did_numbers d')) \<and>
   (e_e164 ` set es \<subseteq> set (did_numbers d) \<longrightarrow> d' = d)"
proof (induction env i es "(j, d)" arbitrary: j d rule: import_rows.induct)
  case (2 env i e es j d)
  have step: "inventory_grows (e_e164 ` set (e # es)) d d' \<and>
      (stop = None \<and> jb_errors j' = jb_errors j0 \<longrightarrow> e_e164 ` set (e # es) \<subseteq> set (did_numbers d')) \<and>
      (e_e164 ` set (e # es) \<subseteq> set (did_numbers d) \<longrightarrow> d' = d)"
    if kb: "import_row env i e (j0, d) = (k, b)" and rest: "import_rows env (i + 1) es (k, b) = (stop, j', d')"
      and ih: "inventory_grows (e_e164 ` set es) b d' \<and>
        (stop = None \<and> jb_errors j' = jb_errors k \<longrightarrow> e_e164 ` set es \<subseteq> set (did_numbers d')) \<and>
        (e_e164 ` set es \<subseteq> set (did_numbers b) \<longrightarrow> d' = b)" for j0 k b
  proof -
    have "inventory_grows (e_e164 ` set (e # es)) d b" "inventory_grows (e_e164 ` set (e # es)) b d'"
      using inventory_grows_mono [OF conjunct1 [OF import_row_grows [OF kb]]]
        inventory_grows_mono [OF conjunct1 [OF ih], of "e_e164 ` set (e # es)"] by auto
    then have "inventory_grows (e_e164 ` set (e # es)) d d'" by (rule inventory_grows_trans) simp
    moreover have "set (did_numbers b) \<subseteq> set (did_numbers d')" using ih inventory_grows_keeps by blast
    moreover have "jb_errors j0 \<le> jb_errors k" "jb_errors k \<le> jb_errors j'"
      using import_row_counts(4) [OF kb] import_rows_counts [OF rest] by simp_all
    ultimately show ?thesis using import_row_grows [OF kb] ih by auto
  qed
  show ?case
  proof (cases "ie_select env i")
    case SelDone
    with 2(3) show ?thesis by auto
  next
    case SelTick
    obtain k b where kb: "import_row env i e (emit_progress env j, d) = (k, b)" by fastforce
    then have rest: "import_rows env (i + 1) es (k, b) = (stop, j', d')" using 2(3) SelTick by simp
    from step [OF kb rest 2(1) [OF SelTick kb rest]] show ?thesis by (simp add: job_emits)
  next
    case SelDefault
    obtain k b where kb: "import_row env i e (j, d) = (k, b)" by fastforce
    then have rest: "import_rows env (i + 1) es (k, b) = (stop, j', d')" using 2(3) SelDefault by simp
    from step [OF kb rest 2(2) [OF SelDefault kb rest]] show ?thesis .
  qed
qed simp

text \<open>
  An import only ever appends: every earlier row stays as it was, the new rows are
  available numbers of the input, no number appears twice; and after a run without an error
  any later import of the same rows, under any defaults and faults, leaves the inventory
  unchanged.
\<close>

theorem import_inventory:
  assumes "distinct (did_numbers d)"
    and "run_import env (new_job ident sid source df now) es ws d = (j, d1)"
    and "jb_errors j = 0" and "jb_status j = StatusDone"
  shows "(\<exists>new. dids d1 = dids d @ new \<and>
      (\<forall>(i, r) \<in> set new. d_status r = DidAvailable \<and> d_e164 r \<in> e_e164 ` set es)) \<and>
    distinct (did_numbers d1) \<and> snd (run_import env' j' es ws' d1) = d1"
proof -
  let ?j0 = "fold (replay_warning env) ws (start_job env es (new_job ident sid source df now))"
  obtain stop k where k: "import_rows env 0 es (?j0, d) = (stop, k, d1)"
    and e: "jb_errors j = jb_errors k" "jb_status j = (if stop = None then StatusDone else StatusErrored)"
    using run_import_cases [OF assms(2)] by metis
  have "jb_errors ?j0 = int (length ws)" by (simp add: new_job_def)
  moreover have "jb_errors ?j0 \<le> jb_errors k" using import_rows_counts [OF k] by simp
  ultimately have "stop = None" "jb_errors k = jb_errors ?j0" using e assms(3,4) by (auto split: if_splits)
  with import_rows_grows [OF k] have g: "inventory_grows (e_e164 ` set es) d d1"
    "e_e164 ` set es \<subseteq> set (did_numbers d1)" by simp_all
  obtain j2 d2 where r: "run_import env' j' es ws' d1 = (j2, d2)" by fastforce
  obtain stop' k' where "import_rows env' 0 es (fold (replay_warning env') ws' (start_job env' es j'), d1) = (stop', k', d2)"
    using run_import_cases [OF r] by metis
  from import_rows_grows [OF this] g(2) have "d2 = d1" by simp
  with r g(1) assms(1) show ?thesis by (auto simp: inventory_grows_def)
qed

definition quiet_env :: import_env where
  "quiet_env = \<lparr>ie_select = (\<lambda>i. SelDefault), ie_fault = (\<lambda>i. None), ie_drop = (\<lambda>i. False), ie_millis = (\<lambda>i. 7),
     ie_start = 0, ie_end = 5000000\<rparr>"

definition sample_defaults :: import_defaults where
  "sample_defaults = \<lparr>df_country = ''GB'', df_type = ''local'', df_cap = 0\<rparr>"

definition sample_job :: job where
  "sample_job = new_job ''ab'' 3 ''bulk'' sample_defaults 0"

definition sample_rows :: "entry list" where
  "sample_rows = [plain_entry ''442038968001'', plain_entry ''442038968002'', plain_entry ''442038968001'']"

definition sample_import :: "job \<times> db" where
  "sample_import = run_import quiet_env sample_job sample_rows [] empty_db"

lemma sample_import_eval:
  "jb_added (fst sample_import) = 2 \<and> jb_skipped (fst sample_import) = 1 \<and> jb_errors (fst sample_import) = 0 \<and>
   jb_status (fst sample_import) = StatusDone \<and> length (jb_events (fst sample_import)) = 6 \<and>
   did_numbers (snd sample_import) = [''442038968001'', ''442038968002'']"
  by code_simp

lemma sample_import_run:
  "run_import quiet_env (new_job ''ab'' 3 ''bulk'' sample_defaults 0) sample_rows [] empty_db = (fst sample_import, snd sample_import)"
  by (simp add: sample_import_def sample_job_def)

theorem import_accounts_witness: "jb_processed (fst sample_import) = 3"
  using import_accounts [OF sample_import_run] sample_import_eval by simp

theorem import_inventory_witness:
  "snd (run_import quiet_env (new_job ''cd'' 3 ''bulk'' sample_defaults 9) sample_rows [] (snd sample_import)) = snd sample_import"
proof -
  have "distinct (did_numbers empty_db)" by (simp add: did_numbers_def empty_db_def)
  from import_inventory [OF this sample_import_run] sample_import_eval show ?thesis by blast
qed

subsection \<open>The life of a job\<close>

text \<open>
  A finished import stays available for the status poll for ten minutes after it ended
  and is then reaped, whatever else the registry holds; a job that has not finished is never
  reaped.
\<close>

theorem finished_import_retained:
  assumes "run_import env j0 es ws d = (j, d')"
  shows "reg_get (reap_once now (r(k \<mapsto> j))) k = (if now - ie_end env \<le> 600000000000 then Some j else None) \<and>
    reg_get (reap_once now (r(k \<mapsto> new_job ident sid source df t))) k = Some (new_job ident sid source df t)"
proof -
  have "jb_finish j = Some (ie_end env)" "jb_status j \<in> {StatusDone, StatusErrored}"
    using run_import_cases [OF assms] by (metis insertCI)+
  then show ?thesis
    by (auto simp: reg_get_def reap_once_def collectable_def retain_after_end_def new_job_def)
qed

theorem finished_import_retained_witness:
  "reg_get (reap_once 700000000000 (Map.empty(''ab'' \<mapsto> fst sample_import))) ''ab'' = None"
  using finished_import_retained [OF sample_import_run, of 700000000000 Map.empty "''ab''"]
  by (simp add: quiet_env_def)

lemma parse_mode_None:
  "parse_mode f = None \<longleftrightarrow>
     if_mode f = ''range'' \<and> (\<exists>a. range_bounds (if_start f) (if_end f) = Inr (a, 9223372036854775807))"
proof -
  have "parse_range s e = None \<longleftrightarrow> (\<exists>a. range_bounds s e = Inr (a, 9223372036854775807))" for s e
  proof (cases "range_bounds s e")
    case (Inr ab)
    then obtain a b where ab: "range_bounds s e = Inr (a, b)" by (cases ab) simp
    have "range_loop a b [] = None \<longleftrightarrow> b = 9223372036854775807"
      using range_loop_ok [of a b "[]"] range_loop_diverges [of a "[]"] range_bounds_ok [OF ab]
      by (cases "b = 9223372036854775807") auto
    with ab show ?thesis by (simp add: parse_range_def)
  qed (simp add: parse_range_def)
  then show ?thesis by (auto simp: parse_mode_def split: option.splits)
qed

lemma parse_mode_diverges:
  "if_mode f = ''range'' \<Longrightarrow> range_bounds (if_start f) (if_end f) = Inr (a, 9223372036854775807) \<Longrightarrow> parse_mode f = None"
  using parse_mode_None by blast

lemma parse_mode_code: "parse_mode f = Some (Inl e) \<Longrightarrow> import_code e = 400"
proof -
  have "input_of p = Inl e \<Longrightarrow> import_code e = 400" for p e
    by (cases p) (auto simp: input_of_def import_code_def)
  then show "parse_mode f = Some (Inl e) \<Longrightarrow> import_code e = 400"
    by (auto simp: parse_mode_def import_code_def split: if_splits option.splits)
qed

text \<open>
  C24: an admin's import request is answered unless it asks for a range that ends at the
  largest \<open>int64\<close>; a job is registered exactly with a reply 200, and it has rows, a
  supplier and the pending state.
\<close>

theorem import_start_total:
  "(import_start bs now reg form = None \<longleftrightarrow>
     (\<exists>f a. reg \<noteq> None \<and> form = Some f \<and> 0 < atoi64 (if_supplier f) \<and> if_mode f = ''range'' \<and>
        range_bounds (if_start f) (if_end f) = Inr (a, 9223372036854775807))) \<and>
   (\<forall>rep reg' work. import_start bs now reg form = Some (rep, reg', work) \<longrightarrow>
     (import_code rep = 200 \<longleftrightarrow> work \<noteq> None) \<and> (work = None \<longrightarrow> reg' = reg) \<and>
     (\<forall>j p. work = Some (j, p) \<longrightarrow> p_entries p \<noteq> [] \<and> 0 < jb_supplier j \<and> jb_status j = StatusPending \<and>
        reg' = map_option (\<lambda>r. r(jb_id j \<mapsto> j)) reg))"
proof (intro conjI allI)
  show "import_start bs now reg form = None \<longleftrightarrow>
     (\<exists>f a. reg \<noteq> None \<and> form = Some f \<and> 0 < atoi64 (if_supplier f) \<and> if_mode f = ''range'' \<and>
        range_bounds (if_start f) (if_end f) = Inr (a, 9223372036854775807))"
    by (auto simp: import_start_def Let_def parse_mode_None parse_mode_diverges reg_new_def split: option.splits sum.splits if_splits)
next
  show "import_start bs now reg form = Some (rep, reg', work) \<longrightarrow>
     (import_code rep = 200 \<longleftrightarrow> work \<noteq> None) \<and> (work = None \<longrightarrow> reg' = reg) \<and>
     (\<forall>j p. work = Some (j, p) \<longrightarrow> p_entries p \<noteq> [] \<and> 0 < jb_supplier j \<and> jb_status j = StatusPending \<and>
        reg' = map_option (\<lambda>r. r(jb_id j \<mapsto> j)) reg)" for rep reg' work
    by (cases reg; cases form)
      (auto simp: import_start_def Let_def reg_new_def new_job_def import_code_def [of "ImportStarted _ _ _ _"]
        import_code_def [of ImportUnavailable] import_code_def [of ImportBadForm] import_code_def [of ImportNothing]
        import_code_def [of ImportNoSupplier] dest: parse_mode_code split: option.splits sum.splits if_splits)
qed

definition sample_form :: import_form where
  "sample_form = \<lparr>if_mode = ''range'', if_supplier = ''1'', if_country = [], if_type = [], if_cap = [],
     if_start = ''9223372036854775807'', if_end = [], if_bulk = [], if_csv = None\<rparr>"

theorem import_start_total_witness:
  "import_start [0] 0 (Some Map.empty) (Some sample_form) = None \<and>
   (case import_start [0] 0 (Some Map.empty) (Some (sample_form\<lparr>if_mode := ''bulk'', if_bulk := ''442038968001''\<rparr>)) of
      Some (rep, reg', work) \<Rightarrow> import_code rep = 200 \<and> work \<noteq> None | None \<Rightarrow> False)"
proof
  have "range_bounds (if_start sample_form) (if_end sample_form) = Inr (9223372036854775807, 9223372036854775807)"
    "atoi64 (if_supplier sample_form) = 1" "if_mode sample_form = ''range''"
    by code_simp+
  then show "import_start [0] 0 (Some Map.empty) (Some sample_form) = None"
    using import_start_total [of "[0]" 0 "Some Map.empty" "Some sample_form"] by auto
next
  let ?r = "import_start [0] 0 (Some Map.empty) (Some (sample_form\<lparr>if_mode := ''bulk'', if_bulk := ''442038968001''\<rparr>))"
  have "(case ?r of Some (rep, reg', work) \<Rightarrow> import_code rep = 200 | None \<Rightarrow> False)" by code_simp
  then obtain rep reg' work where r: "?r = Some (rep, reg', work)" "import_code rep = 200"
    by (cases ?r) auto
  from import_start_total [of "[0]" 0 "Some Map.empty" "Some (sample_form\<lparr>if_mode := ''bulk'', if_bulk := ''442038968001''\<rparr>)"] r show "case ?r of Some (rep, reg', work) \<Rightarrow> import_code rep = 200 \<and> work \<noteq> None | None \<Rightarrow> False"
    by simp
qed

end
