(* ===== verification/Rates.thy ===== *)
theory Rates
  imports Orders Did_Import
begin

text \<open>
  The rate cards of a supplier in \<open>web/crud.go\<close> (rateCardCreate, rateCardCreateBulk,
  rateCardUpdate, rateCardExpire) with the constraints of the table, and the import of a range
  of numbers by the old form (didImportSubmit). \<open>valid_from\<close> and \<open>valid_to\<close> count
  microseconds.
\<close>

subsection \<open>Amounts and cycles\<close>

text \<open>A rate in cents as the parser gives it; the words for infinities and NaN are numbers to it.\<close>

datatype go_float = Finite rat | Infinite bool | NotANumber

definition float_word_value :: "string \<Rightarrow> go_float" where
  "float_word_value s = (if map lower_byte s = ''nan'' then NotANumber else Infinite (prefix ''-'' s))"

definition rate_field :: "string \<Rightarrow> go_float" where
  "rate_field s =
     (let t = trim_prefix (trim_space s) ''$'' in
      if float_word t then float_word_value t else Finite (fl64 (parsed_or_zero t * 100)))"

fun negative_rate :: "go_float \<Rightarrow> bool" where
  "negative_rate (Finite x) \<longleftrightarrow> x < 0"
| "negative_rate (Infinite neg) \<longleftrightarrow> neg"
| "negative_rate NotANumber \<longleftrightarrow> False"

definition cycle_or_60 :: "int \<Rightarrow> int" where
  "cycle_or_60 n = (if n = 0 then 60 else n)"

definition allowed_cycle :: "int \<Rightarrow> bool" where
  "allowed_cycle n \<longleftrightarrow> n \<in> {1, 6, 15, 30, 60}"

text \<open>
  The database beyond the modelled tables: the clock, whether the supplier and the country
  exist, and the value a NUMERIC(10,4) column keeps of a float64 (or an error).
\<close>

record rate_env =
  re_now :: unix_time
  re_supplier :: "db_id \<Rightarrow> bool"
  re_country :: "string \<Rightarrow> bool"
  re_numeric :: "go_float \<Rightarrow> rat option"

text \<open>The columns an INSERT or UPDATE writes.\<close>

record rate_values =
  rv_nrc :: int
  rv_mrc :: int
  rv_channel :: int
  rv_per_minute :: go_float
  rv_bill_min :: int
  rv_bill_inc :: int
  rv_sup_per_minute :: go_float
  rv_sup_nrc :: int
  rv_sup_mrc :: int
  rv_sup_bill_min :: int
  rv_sup_bill_inc :: int

definition is_int4 :: "int \<Rightarrow> bool" where
  "is_int4 n \<longleftrightarrow> - int4_max - 1 \<le> n \<and> n \<le> int4_max"

text \<open>The CHECK constraints of the table.\<close>

definition price_ok :: "int \<Rightarrow> bool" where
  "price_ok n \<longleftrightarrow> 0 \<le> n \<and> n \<le> int4_max"

definition rate_checks :: "rate_row \<Rightarrow> bool" where
  "rate_checks r \<longleftrightarrow>
     price_ok (r_nrc r) \<and> price_ok (r_mrc r) \<and> price_ok (r_channel_monthly r) \<and> 0 \<le> r_per_minute r \<and>
     0 < r_bill_min r \<and> r_bill_min r \<le> 600 \<and> 0 < r_bill_inc r \<and> r_bill_inc r \<le> 600 \<and>
     is_int4 (r_sup_nrc r) \<and> is_int4 (r_sup_mrc r) \<and> allowed_cycle (r_sup_bill_min r) \<and> allowed_cycle (r_sup_bill_inc r)"

definition did_types :: "string list" where
  "did_types = [''mobile'', ''national'', ''local'', ''tollfree'']"

text \<open>The row with its values; \<open>None\<close> when a NUMERIC column refuses one.\<close>

definition set_values :: "rate_env \<Rightarrow> rate_values \<Rightarrow> rate_row \<Rightarrow> rate_row option" where
  "set_values env v r =
     (case (re_numeric env (rv_per_minute v), re_numeric env (rv_sup_per_minute v)) of
        (Some pm, Some spm) \<Rightarrow>
          Some (r\<lparr>r_nrc := rv_nrc v, r_mrc := rv_mrc v, r_channel_monthly := rv_channel v, r_per_minute := pm,
                  r_bill_min := rv_bill_min v, r_bill_inc := rv_bill_inc v, r_sup_per_minute := spm,
                  r_sup_nrc := rv_sup_nrc v, r_sup_mrc := rv_sup_mrc v,
                  r_sup_bill_min := rv_sup_bill_min v, r_sup_bill_inc := rv_sup_bill_inc v\<rparr>)
      | _ \<Rightarrow> None)"

text \<open>The unique indexes: one active card per slot, and no two cards of a slot from one instant.\<close>

definition rate_slot :: "rate_row \<Rightarrow> db_id \<times> string \<times> string" where
  "rate_slot r = (r_supplier r, r_country r, r_type r)"

definition active_slots :: "rate_row table \<Rightarrow> (db_id \<times> string \<times> string) list" where
  "active_slots t = map (\<lambda>(k, r). rate_slot r) (filter (\<lambda>(k, r). r_valid_to r = None) t)"

definition slots_unique :: "rate_row table \<Rightarrow> bool" where
  "slots_unique t \<longleftrightarrow>
     distinct (active_slots t) \<and> distinct (map (\<lambda>(k, r). (rate_slot r, r_valid_from r)) t)"

definition insert_rate :: "bool \<Rightarrow> rate_env \<Rightarrow> db_id \<Rightarrow> string \<Rightarrow> string \<Rightarrow> rate_values \<Rightarrow> db \<Rightarrow> db option" where
  "insert_rate fails env sid country did_type v d =
     (let blank = \<lparr>r_supplier = sid, r_country = country, r_type = did_type, r_valid_from = re_now env, r_valid_to = None,
            r_nrc = 0, r_mrc = 0, r_channel_monthly = 0, r_per_minute = 0, r_bill_min = 60, r_bill_inc = 60,
            r_sup_per_minute = 0, r_sup_bill_min = 60, r_sup_nrc = 0, r_sup_mrc = 0, r_sup_bill_inc = 60\<rparr>
      in case set_values env v blank of
           None \<Rightarrow> None
         | Some r \<Rightarrow>
             if fails \<or> \<not> re_supplier env sid \<or> \<not> re_country env country \<or> did_type \<notin> set did_types \<or>
                \<not> rate_checks r \<or> \<not> slots_unique (tbl_insert r (rate_cards d))
             then None else Some (d\<lparr>rate_cards := tbl_insert r (rate_cards d)\<rparr>))"

subsection \<open>One card\<close>

record rate_form =
  rtf_country :: string
  rtf_type :: string
  rtf_nrc :: string
  rtf_mrc :: string
  rtf_channel :: string
  rtf_per_minute :: string
  rtf_bill_min :: string
  rtf_bill_inc :: string
  rtf_sup_per_minute :: string
  rtf_sup_nrc :: string
  rtf_sup_mrc :: string
  rtf_sup_bill_min :: string
  rtf_sup_bill_inc :: string

definition form_values :: "rate_form \<Rightarrow> rate_values" where
  "form_values f =
     \<lparr>rv_nrc = dollars_to_cents (rtf_nrc f), rv_mrc = dollars_to_cents (rtf_mrc f),
      rv_channel = dollars_to_cents (rtf_channel f), rv_per_minute = rate_field (rtf_per_minute f),
      rv_bill_min = cycle_or_60 (atoi64 (rtf_bill_min f)), rv_bill_inc = cycle_or_60 (atoi64 (rtf_bill_inc f)),
      rv_sup_per_minute = rate_field (rtf_sup_per_minute f), rv_sup_nrc = dollars_to_cents (rtf_sup_nrc f),
      rv_sup_mrc = dollars_to_cents (rtf_sup_mrc f), rv_sup_bill_min = cycle_or_60 (atoi64 (rtf_sup_bill_min f)),
      rv_sup_bill_inc = cycle_or_60 (atoi64 (rtf_sup_bill_inc f))\<rparr>"

datatype rate_reply =
    RateBadForm | RateNoCard | RateReadOnly | RateSupplierCycle | RateCycle | RateNegative | RateNoSlot | RateDuplicate
  | RateFailed | RateSaved

definition active_in_slot :: "db_id \<Rightarrow> string \<Rightarrow> string \<Rightarrow> db \<Rightarrow> nat" where
  "active_in_slot sid country did_type d =
     affected (\<lambda>_ r. r_supplier r = sid \<and> r_country r = country \<and> r_type r = did_type \<and> r_valid_to r = None) (rate_cards d)"

text \<open>The fault flags are those of the duplicate count, whose error is dropped, and of the INSERT.\<close>

definition rate_card_create :: "bool \<Rightarrow> bool \<Rightarrow> rate_env \<Rightarrow> db_id \<Rightarrow> rate_form \<Rightarrow> db \<Rightarrow> rate_reply \<times> db" where
  "rate_card_create count_fails fails env sid f d =
     (let country = to_upper (trim_space (rtf_country f)); did = trim_space (rtf_type f); v = form_values f in
      if \<not> allowed_cycle (rv_bill_min v) \<or> \<not> allowed_cycle (rv_bill_inc v) then (RateCycle, d)
      else if country = [] \<or> did = [] then (RateNoSlot, d)
      else if \<not> count_fails \<and> 0 < active_in_slot sid country did d then (RateDuplicate, d)
      else case insert_rate fails env sid country did v d of
        None \<Rightarrow> (RateFailed, d)
      | Some e \<Rightarrow> (RateSaved, e))"

definition rate_card_update :: "bool \<Rightarrow> bool \<Rightarrow> rate_env \<Rightarrow> db_id \<Rightarrow> rate_form option \<Rightarrow> db \<Rightarrow> rate_reply \<times> db" where
  "rate_card_update load_fails fails env rid form d =
     (case form of
        None \<Rightarrow> (RateBadForm, d)
      | Some f \<Rightarrow>
          (case (if load_fails then None else tbl_get (rate_cards d) rid) of
             None \<Rightarrow> (RateNoCard, d)
           | Some r \<Rightarrow>
               let v = form_values f in
               if r_valid_to r \<noteq> None then (RateReadOnly, d)
               else if \<not> allowed_cycle (rv_sup_bill_min v) \<or> \<not> allowed_cycle (rv_sup_bill_inc v) then (RateSupplierCycle, d)
               else if \<not> allowed_cycle (rv_bill_min v) \<or> \<not> allowed_cycle (rv_bill_inc v) then (RateCycle, d)
               else if negative_rate (rv_per_minute v) \<or> rv_nrc v < 0 \<or> rv_mrc v < 0 \<or> rv_channel v < 0 \<or>
                       negative_rate (rv_sup_per_minute v) \<or> rv_sup_nrc v < 0 \<or> rv_sup_mrc v < 0 then (RateNegative, d)
               else case set_values env v r of
                 None \<Rightarrow> (RateFailed, d)
               | Some q \<Rightarrow>
                   if fails \<or> \<not> rate_checks q then (RateFailed, d)
                   else (RateSaved, d\<lparr>rate_cards := tbl_upd rid (\<lambda>_. q) (rate_cards d)\<rparr>)))"

text \<open>No error is looked at: success is always reported, for a card that expired before too.\<close>

definition rate_card_expire :: "bool \<Rightarrow> unix_time \<Rightarrow> db_id \<Rightarrow> db \<Rightarrow> db" where
  "rate_card_expire fails now rid d =
     (if fails then d else d\<lparr>rate_cards := tbl_upd rid (\<lambda>r. r\<lparr>r_valid_to := Some now\<rparr>) (rate_cards d)\<rparr>)"

subsection \<open>Many cards\<close>

text \<open>
  A decoded row. Four fields of the Go struct carry the key \<open>nrc\<close>, so the decoder drops the key
  and the field the handler reads stays 0, whatever the row says.
\<close>

record bulk_row =
  bk_country :: string
  bk_type :: string
  bk_nrc :: rat
  bk_mrc :: rat
  bk_channel :: rat
  bk_per_minute :: rat
  bk_bill_min :: int
  bk_bill_inc :: int
  bk_sup_per_minute :: rat
  bk_sup_nrc :: rat
  bk_sup_mrc :: rat
  bk_sup_bill_min :: int
  bk_sup_bill_inc :: int

definition decoded_nrc :: "bulk_row \<Rightarrow> rat" where
  "decoded_nrc row = 0"

definition dollars_trunc :: "rat \<Rightarrow> int" where
  "dollars_trunc x = float_to_int64 (fl64 (x * 100))"

definition bulk_values :: "bulk_row \<Rightarrow> rate_values" where
  "bulk_values row =
     \<lparr>rv_nrc = dollars_trunc (decoded_nrc row), rv_mrc = dollars_trunc (bk_mrc row),
      rv_channel = dollars_trunc (bk_channel row), rv_per_minute = Finite (fl64 (bk_per_minute row * 100)),
      rv_bill_min = cycle_or_60 (bk_bill_min row), rv_bill_inc = cycle_or_60 (bk_bill_inc row),
      rv_sup_per_minute = Finite (fl64 (bk_sup_per_minute row * 100)), rv_sup_nrc = dollars_trunc (bk_sup_nrc row),
      rv_sup_mrc = dollars_trunc (bk_sup_mrc row), rv_sup_bill_min = cycle_or_60 (bk_sup_bill_min row),
      rv_sup_bill_inc = cycle_or_60 (bk_sup_bill_inc row)\<rparr>"

datatype bulk_reply = BulkBadJson | BulkBegin | BulkNoSlot nat | BulkRow nat | BulkCommit | BulkCreated nat

fun bulk_rows :: "(nat \<Rightarrow> bool) \<Rightarrow> rate_env \<Rightarrow> db_id \<Rightarrow> nat \<Rightarrow> bulk_row list \<Rightarrow> db \<Rightarrow> bulk_reply + db" where
  "bulk_rows flt env sid i [] d = Inr d"
| "bulk_rows flt env sid i (row # rows) d =
     (let country = to_upper (trim_space (bk_country row)); did = trim_space (bk_type row) in
      if country = [] \<or> did = [] then Inl (BulkNoSlot i)
      else case insert_rate (flt i) env sid country did (bulk_values row) d of
        None \<Rightarrow> Inl (BulkRow i)
      | Some e \<Rightarrow> bulk_rows flt env sid (Suc i) rows e)"

definition bulk_code :: "bulk_reply \<Rightarrow> int" where
  "bulk_code r = (case r of BulkCreated _ \<Rightarrow> 201 | BulkBegin \<Rightarrow> 500 | BulkCommit \<Rightarrow> 500 | _ \<Rightarrow> 400)"

definition rate_card_create_bulk ::
  "bool \<Rightarrow> bool \<Rightarrow> (nat \<Rightarrow> bool) \<Rightarrow> rate_env \<Rightarrow> db_id \<Rightarrow> bulk_row list option \<Rightarrow> db \<Rightarrow> bulk_reply \<times> db" where
  "rate_card_create_bulk begin_fails commit_fails flt env sid body d =
     (case body of
        None \<Rightarrow> (BulkBadJson, d)
      | Some rows \<Rightarrow>
          if begin_fails then (BulkBegin, d)
          else (case bulk_rows flt env sid 0 rows d of
                  Inl e \<Rightarrow> (e, d)
                | Inr e \<Rightarrow> if commit_fails then (BulkCommit, d) else (BulkCreated (length rows), e)))"

subsection \<open>A range of numbers\<close>

record submit_form =
  sb_supplier :: string
  sb_country :: string
  sb_type :: string
  sb_start :: string
  sb_end :: string
  sb_cap :: string

datatype submit_reply = SubBadRange | SubTooMany | SubBegin | SubFailed | SubCommit | SubDone nat

text \<open>
  \<open>for n := start; n <= end; n++\<close> with the \<open>int64\<close> of Go: a loop up to the largest \<open>int64\<close>
  returns only when an INSERT fails. \<open>bad n\<close> is an INSERT of the number \<open>n\<close> that fails.
\<close>

partial_function (option) submit_loop ::
  "(int \<Rightarrow> bool) \<Rightarrow> db_id \<Rightarrow> string \<Rightarrow> string \<Rightarrow> int \<Rightarrow> int \<Rightarrow> int \<Rightarrow> nat \<Rightarrow> db \<Rightarrow> (nat \<times> db) option option" where
  "submit_loop bad sid country ty cap n end' k d =
     (if n \<le> end' then
        (if bad n then Some None
         else submit_loop bad sid country ty cap (wrap64 (n + 1)) end' (Suc k) (snd (insert_did (itoa n) sid country ty cap d)))
      else Some (Some (k, d)))"

definition submit_bounds :: "submit_form \<Rightarrow> submit_reply + int \<times> int" where
  "submit_bounds f =
     (let s = trim_space (sb_start f); e = trim_space (sb_end f); start = atoi64 s;
          end' = (if e \<noteq> [] then atoi64 e else start) in
      if start \<le> 0 \<or> end' < start then Inl SubBadRange
      else if 10000 < wrap64 (end' - start) then Inl SubTooMany
      else Inr (start, end'))"

definition did_import_submit ::
  "bool \<Rightarrow> bool \<Rightarrow> (int \<Rightarrow> bool) \<Rightarrow> submit_form \<Rightarrow> db \<Rightarrow> (submit_reply \<times> db) option" where
  "did_import_submit begin_fails commit_fails bad f d =
     (case submit_bounds f of
        Inl r \<Rightarrow> Some (r, d)
      | Inr (start, end') \<Rightarrow>
          if begin_fails then Some (SubBegin, d)
          else (case submit_loop bad (atoi64 (sb_supplier f)) (to_upper (sb_country f)) (sb_type f)
                       (cap_field (sb_cap f)) start end' 0 d of
                  None \<Rightarrow> None
                | Some None \<Rightarrow> Some (SubFailed, d)
                | Some (Some (k, e)) \<Rightarrow> Some (if commit_fails then (SubCommit, d) else (SubDone k, e))))"

subsection \<open>The constraints hold in every state\<close>

definition cards_ok :: "db \<Rightarrow> bool" where
  "cards_ok d \<longleftrightarrow> slots_unique (rate_cards d) \<and> distinct (tbl_ids (rate_cards d)) \<and>
     (\<forall>(k, r) \<in> set (rate_cards d). rate_checks r)"

lemma insert_rate_Some:
  assumes "insert_rate fails env sid country did_type v d = Some e"
  obtains r where "e = d\<lparr>rate_cards := tbl_insert r (rate_cards d)\<rparr>" "rate_checks r" "slots_unique (tbl_insert r (rate_cards d))"
    "r_supplier r = sid" "r_country r = country" "r_type r = did_type" "r_valid_to r = None" "r_nrc r = rv_nrc v"
    "r_valid_from r = re_now env"
  using assms by (auto simp: insert_rate_def set_values_def Let_def split: option.splits if_splits)

lemma set_tbl_insert: "set (tbl_insert r t) = insert (next_id t, r) (set t)"
  by (simp add: tbl_insert_def)

lemma insert_rate_ok: "insert_rate fails env sid country did_type v d = Some e \<Longrightarrow> cards_ok d \<Longrightarrow> cards_ok e"
  by (elim insert_rate_Some) (auto simp: cards_ok_def set_tbl_insert)

lemma rate_card_create_ok:
  "rate_card_create cf fails env sid f d = (rep, e) \<Longrightarrow> cards_ok d \<Longrightarrow> cards_ok e"
  by (auto simp: rate_card_create_def Let_def split: if_splits option.splits intro: insert_rate_ok)

lemma bulk_rows_ok: "bulk_rows flt env sid i rows d = Inr e \<Longrightarrow> cards_ok d \<Longrightarrow> cards_ok e"
  by (induction rows arbitrary: i d) (auto simp: Let_def split: if_splits option.splits intro: insert_rate_ok)

lemma rate_card_create_bulk_ok:
  "rate_card_create_bulk bf cf flt env sid body d = (rep, e) \<Longrightarrow> cards_ok d \<Longrightarrow> cards_ok e"
  by (auto simp: rate_card_create_bulk_def split: if_splits option.splits sum.splits intro: bulk_rows_ok)

lemma tbl_upd_in: "(k, r) \<in> set (tbl_upd j f t) \<Longrightarrow> (k, r) \<in> set t \<or> k = j \<and> (\<exists>q. (j, q) \<in> set t \<and> r = f q)"
  unfolding tbl_upd_def tbl_upd_where_def by (force split: if_splits)

text \<open>An update that keeps the slot and the validity, or ends it, keeps the indexes.\<close>

lemma slots_unique_upd:
  assumes "slots_unique t" "\<And>r. (k, r) \<in> set t \<Longrightarrow> rate_slot (f r) = rate_slot r \<and> r_valid_from (f r) = r_valid_from r \<and>
     (r_valid_to (f r) = None \<longrightarrow> r_valid_to r = None)"
  shows "slots_unique (tbl_upd k f t)"
proof -
  have s: "subseq (active_slots (tbl_upd k f t)) (active_slots t) \<and>
      map (\<lambda>(k, r). (rate_slot r, r_valid_from r)) (tbl_upd k f t) = map (\<lambda>(k, r). (rate_slot r, r_valid_from r)) t"
    using assms(2)
  proof (induction t)
    case (Cons x t)
    obtain j r where x: "x = (j, r)" by (cases x)
    have "subseq (active_slots (tbl_upd k f t)) (active_slots t) \<and>
      map (\<lambda>(k, r). (rate_slot r, r_valid_from r)) (tbl_upd k f t) = map (\<lambda>(k, r). (rate_slot r, r_valid_from r)) t"
      by (rule Cons.IH) (use Cons.prems in auto)
    with Cons.prems [of r] show ?case
      by (cases "j = k") (auto simp: x tbl_upd_def tbl_upd_where_def active_slots_def)
  qed (simp add: tbl_upd_def tbl_upd_where_def active_slots_def)
  have "distinct ys \<Longrightarrow> subseq xs ys \<Longrightarrow> distinct xs" for xs ys :: "(db_id \<times> string \<times> string) list"
    by (metis distinct_nthsI subseq_conv_nths)
  with s assms(1) show ?thesis by (auto simp: slots_unique_def)
qed

lemma rate_card_update_ok:
  assumes "rate_card_update lf fails env rid form d = (rep, e)" "cards_ok d"
  shows "cards_ok e"
proof -
  have "e = d \<or> (\<exists>r q v. tbl_get (rate_cards d) rid = Some r \<and> r_valid_to r = None \<and> set_values env v r = Some q \<and>
      rate_checks q \<and> e = d\<lparr>rate_cards := tbl_upd rid (\<lambda>_. q) (rate_cards d)\<rparr>)"
    using assms(1) by (auto simp: rate_card_update_def Let_def split: if_splits option.splits)
  then show ?thesis
  proof (elim disjE exE conjE)
    fix r q v
    assume a: "tbl_get (rate_cards d) rid = Some r" "r_valid_to r = None" "set_values env v r = Some q" "rate_checks q"
      and e: "e = d\<lparr>rate_cards := tbl_upd rid (\<lambda>_. q) (rate_cards d)\<rparr>"
    have q: "rate_slot q = rate_slot r" "r_valid_from q = r_valid_from r" "r_valid_to q = r_valid_to r"
      using a(3) by (auto simp: set_values_def rate_slot_def split: option.splits)
    have "slots_unique (tbl_upd rid (\<lambda>_. q) (rate_cards d))"
      by (rule slots_unique_upd)
        (use assms(2) q a(2) unique_id [OF _ _ a(1)] in \<open>auto simp: cards_ok_def\<close>)
    with assms(2) a(4) show ?thesis by (auto simp: cards_ok_def e dest!: tbl_upd_in)
  qed (simp add: assms(2))
qed

lemma rate_card_expire_ok:
  assumes "cards_ok d"
  shows "cards_ok (rate_card_expire fails now rid d)"
proof -
  have "slots_unique (tbl_upd rid (\<lambda>r. r\<lparr>r_valid_to := Some now\<rparr>) (rate_cards d))"
    by (rule slots_unique_upd) (use assms in \<open>auto simp: cards_ok_def rate_slot_def\<close>)
  moreover have "rate_checks (r\<lparr>r_valid_to := Some now\<rparr>) = rate_checks r" for r by (simp add: rate_checks_def)
  ultimately show ?thesis using assms by (auto simp: rate_card_expire_def cards_ok_def dest!: tbl_upd_in)
qed

end
