(* ===== verification/Billing.thy ===== *)
theory Billing
  imports Schema
begin

text \<open>
  \<open>internal/billing/billing.go\<close>: the anniversary billing run. \<open>process_one\<close> is the
  transaction of one order, \<open>run_billing\<close> the loop over the orders that are due. A
  statement that fails is given by the argument \<open>fault\<close>, so that every error return is a
  branch; the deferred rollback gives the database back unchanged. The transaction is
  serialisable, so one call is one atomic step on the database.
\<close>

datatype bill_stmt =
  StBegin | StLoad | StUpdBalance | StLedgerMrc | StLedgerChan | StUpdOrder | StAudit | StCommit
  | StSuspend | StAuditSuspend | StCommitSuspend

record bill_env =
  be_dbnow :: utc_time
  be_fault :: "bill_stmt \<Rightarrow> bool"

subsection \<open>The channel ladder\<close>

definition fee :: "int \<Rightarrow> int \<Rightarrow> int \<Rightarrow> int" where
  "fee mrc chan_monthly target =
     (let extra = target - 2; extra = (if extra < 0 then 0 else extra)
      in mrc + extra * chan_monthly)"

text \<open>The loop \<open>for target >= 0\<close>: the first channel count, going down, whose fee fits.\<close>

function ladder :: "cents \<Rightarrow> int \<Rightarrow> int \<Rightarrow> int \<Rightarrow> int option" where
  "ladder bal mrc chan_monthly target =
     (if target < 0 then None
      else if fee mrc chan_monthly target \<le> bal then Some target
      else ladder bal mrc chan_monthly (target - 1))"
  by pat_completeness auto
termination
  by (relation "measure (\<lambda>(_, _, _, t). nat (t + 1))") auto

declare ladder.simps [simp del]

subsection \<open>One order\<close>

text \<open>The two ledger rows of a charge, in the order they are written.\<close>

definition bill_ledger :: "db_id \<Rightarrow> db_id \<Rightarrow> cents \<Rightarrow> cents \<Rightarrow> cents \<Rightarrow> ledger_row list" where
  "bill_ledger uid oid mrc_part chan_part new_balance =
     (if 0 < mrc_part
      then [\<lparr>l_user = uid, l_delta = - mrc_part, l_kind = LedgerMRC, l_ref_table = ''orders'',
             l_ref_id = Some oid, l_after = new_balance + chan_part\<rparr>] else []) @
     (if 0 < chan_part
      then [\<lparr>l_user = uid, l_delta = - chan_part, l_kind = LedgerChannelFee,
             l_ref_table = ''orders'', l_ref_id = Some oid, l_after = new_balance\<rparr>] else [])"

definition bill_notes :: "int \<Rightarrow> int \<Rightarrow> string" where
  "bill_notes channel_count target =
     (if target < channel_count
      then ''downgraded from '' @ itoa channel_count @ '' to '' @ itoa target @
           '' (insufficient balance)''
      else ''ok at '' @ itoa target @ '' channels'')"

text \<open>The branch of the loop body where the balance covers the fee.\<close>

definition charge_order ::
  "bill_env \<Rightarrow> utc_time \<Rightarrow> db_id \<Rightarrow> order_row \<Rightarrow> user_row \<Rightarrow> rate_row \<Rightarrow> int \<Rightarrow> db
     \<Rightarrow> (bill_stmt + bill_outcome) \<times> db" where
  "charge_order env now oid ord usr rc target d =
     (let f = fee (r_mrc rc) (r_channel_monthly rc) target;
          new_balance = u_balance usr - f;
          mrc_part = r_mrc rc;
          chan_part = f - r_mrc rc;
          downgraded = target < o_channels ord;
          next = next_anniversary now (o_anniversary ord);
          outcome = (if downgraded then BillDowngraded else BillCharged);
          d1 = d\<lparr>users := tbl_upd (o_user ord) (\<lambda>u. u\<lparr>u_balance := new_balance\<rparr>) (users d)\<rparr>;
          d2 = d1\<lparr>ledger := ledger d1 @ bill_ledger (o_user ord) oid mrc_part chan_part new_balance\<rparr>;
          d3 = d2\<lparr>orders := tbl_upd oid (\<lambda>r. r\<lparr>o_channels := target, o_next_billing := next\<rparr>) (orders d2)\<rparr>;
          d4 = d3\<lparr>billing_runs := billing_runs d3 @
                  [\<lparr>br_order = oid, br_channels = target, br_mrc = mrc_part,
                    br_channel_fee = chan_part, br_outcome = outcome,
                    br_notes = bill_notes (o_channels ord) target\<rparr>]\<rparr>
      in if be_fault env StUpdBalance then (Inl StUpdBalance, d)
         else if 0 < mrc_part \<and> be_fault env StLedgerMrc then (Inl StLedgerMrc, d)
         else if 0 < chan_part \<and> be_fault env StLedgerChan then (Inl StLedgerChan, d)
         else if be_fault env StUpdOrder then (Inl StUpdOrder, d)
         else if be_fault env StAudit then (Inl StAudit, d)
         else if be_fault env StCommit then (Inl StCommit, d)
         else (Inr outcome, d4))"

text \<open>After the loop: not even the MRC fits.\<close>

definition suspend_order ::
  "bill_env \<Rightarrow> db_id \<Rightarrow> rate_row \<Rightarrow> db \<Rightarrow> (bill_stmt + bill_outcome) \<times> db" where
  "suspend_order env oid rc d =
     (let d1 = d\<lparr>orders := tbl_upd oid
                  (\<lambda>r. r\<lparr>o_status := OrdSuspended, o_ended := Some (be_dbnow env)\<rparr>) (orders d)\<rparr>;
          d2 = d1\<lparr>billing_runs := billing_runs d1 @
                  [\<lparr>br_order = oid, br_channels = 0, br_mrc = 0, br_channel_fee = 0,
                    br_outcome = BillCancelled,
                    br_notes = ''insufficient balance for MRC '' @ itoa (r_mrc rc) @ '' cents''\<rparr>]\<rparr>
      in if be_fault env StSuspend then (Inl StSuspend, d)
         else if be_fault env StAuditSuspend then (Inl StAuditSuspend, d)
         else if be_fault env StCommitSuspend then (Inl StCommitSuspend, d)
         else (Inr BillCancelled, d2))"

text \<open>
  The locked load joins order, user and rate card; \<open>None\<close> is \<open>pgx.ErrNoRows\<close> (the status
  changed underneath, or a join partner is missing).
\<close>

definition load_due :: "db_id \<Rightarrow> db \<Rightarrow> (order_row \<times> user_row \<times> rate_row) option" where
  "load_due oid d =
     (case tbl_get (orders d) oid of None \<Rightarrow> None
      | Some ord \<Rightarrow>
          if o_status ord \<noteq> OrdActive then None
          else (case tbl_get (users d) (o_user ord) of None \<Rightarrow> None
            | Some usr \<Rightarrow> (case tbl_get (rate_cards d) (o_rate_card ord) of None \<Rightarrow> None
              | Some rc \<Rightarrow> Some (ord, usr, rc))))"

definition process_one :: "bill_env \<Rightarrow> utc_time \<Rightarrow> db_id \<Rightarrow> db \<Rightarrow> (bill_stmt + bill_outcome) \<times> db" where
  "process_one env now oid d =
     (if be_fault env StBegin then (Inl StBegin, d)
      else if be_fault env StLoad then (Inl StLoad, d)
      else case load_due oid d of
        None \<Rightarrow> (Inr BillNone, d)
      | Some (ord, usr, rc) \<Rightarrow>
          (case ladder (u_balance usr) (r_mrc rc) (r_channel_monthly rc) (o_channels ord) of
             Some target \<Rightarrow> charge_order env now oid ord usr rc target d
           | None \<Rightarrow> suspend_order env oid rc d))"

subsection \<open>The run\<close>

record bill_result =
  res_processed :: nat
  res_charged :: nat
  res_downgrade :: nat
  res_suspended :: nat
  res_errors :: nat

definition zero_result :: bill_result where
  "zero_result = \<lparr>res_processed = 0, res_charged = 0, res_downgrade = 0, res_suspended = 0,
     res_errors = 0\<rparr>"

text \<open>\<open>SELECT id .. WHERE status = 'active' AND next_billing_at <= now ORDER BY next_billing_at\<close>.\<close>

definition due :: "utc_time \<Rightarrow> order_row \<Rightarrow> bool" where
  "due now r \<longleftrightarrow> o_status r = OrdActive \<and> o_next_billing r \<le> now"

definition due_ids :: "utc_time \<Rightarrow> db \<Rightarrow> db_id list" where
  "due_ids now d =
     map fst (sort_key (\<lambda>(_, r). o_next_billing r) (filter (\<lambda>(_, r). due now r) (orders d)))"

definition count_outcome :: "bill_stmt + bill_outcome \<Rightarrow> bill_result \<Rightarrow> bill_result" where
  "count_outcome out res =
     (let res = res\<lparr>res_processed := res_processed res + 1\<rparr> in
      case out of
        Inl _ \<Rightarrow> res\<lparr>res_errors := res_errors res + 1\<rparr>
      | Inr BillCharged \<Rightarrow> res\<lparr>res_charged := res_charged res + 1\<rparr>
      | Inr BillDowngraded \<Rightarrow> res\<lparr>res_downgrade := res_downgrade res + 1\<rparr>
      | Inr BillCancelled \<Rightarrow> res\<lparr>res_suspended := res_suspended res + 1\<rparr>
      | Inr BillNone \<Rightarrow> res)"

fun bill_loop :: "(db_id \<Rightarrow> bill_env) \<Rightarrow> utc_time \<Rightarrow> db_id list \<Rightarrow> bill_result \<times> db \<Rightarrow> bill_result \<times> db" where
  "bill_loop env now [] s = s"
| "bill_loop env now (oid # oids) (res, d) =
     (let (out, d') = process_one (env oid) now oid d in bill_loop env now oids (count_outcome out res, d'))"

text \<open>\<open>None\<close> is the error return of the selection; the argument \<open>env\<close> gives each order its faults.\<close>

definition run_billing :: "bool \<Rightarrow> utc_time \<Rightarrow> (db_id \<Rightarrow> bill_env) \<Rightarrow> db \<Rightarrow> bill_result option \<times> db" where
  "run_billing select_fails now env d =
     (if select_fails then (None, d)
      else let (res, d') = bill_loop env now (due_ids now d) (zero_result, d) in (Some res, d'))"


subsection \<open>The ladder finds the largest affordable channel count\<close>

lemma fee_mono: "0 \<le> c \<Longrightarrow> s \<le> t \<Longrightarrow> fee m c s \<le> fee m c t"
  by (auto simp: fee_def Let_def mult_right_mono mult_nonneg_nonneg)

lemma fee_ge_mrc: "0 \<le> c \<Longrightarrow> m \<le> fee m c t"
  by (auto simp: fee_def Let_def)

lemma fee_base: "t \<le> 2 \<Longrightarrow> fee m c t = m"
  by (auto simp: fee_def Let_def)

lemma ladder_Some:
  "ladder bal m c n = Some t \<Longrightarrow>
     0 \<le> t \<and> t \<le> n \<and> fee m c t \<le> bal \<and> (\<forall>s. t < s \<and> s \<le> n \<longrightarrow> bal < fee m c s)"
proof (induction bal m c n rule: ladder.induct)
  case (1 bal m c n)
  show ?case
  proof (cases "n < 0 \<or> fee m c n \<le> bal")
    case True
    with "1.prems" show ?thesis by (auto simp: ladder.simps [of bal m c n] split: if_splits)
  next
    case False
    with "1.prems" have "ladder bal m c (n - 1) = Some t" by (simp add: ladder.simps [of bal m c n])
    with "1.IH" False have ih: "0 \<le> t" "t \<le> n - 1" "fee m c t \<le> bal"
      "\<And>s. t < s \<Longrightarrow> s \<le> n - 1 \<Longrightarrow> bal < fee m c s" by auto
    have "bal < fee m c s" if "t < s" "s \<le> n" for s
      using that ih(4) [of s] False by (cases "s = n") auto
    with ih show ?thesis by auto
  qed
qed

lemma ladder_None: "ladder bal m c n = None \<Longrightarrow> 0 \<le> t \<Longrightarrow> t \<le> n \<Longrightarrow> bal < fee m c t"
proof (induction bal m c n rule: ladder.induct)
  case (1 bal m c n)
  then show ?case
    by (cases "t = n") (auto simp: ladder.simps [of bal m c n] split: if_splits)
qed

lemma ladder_None_iff:
  assumes "0 \<le> n" "0 \<le> c"
  shows "ladder bal m c n = None \<longleftrightarrow> bal < m"
proof
  assume "ladder bal m c n = None"
  from ladder_None [OF this, of 0] assms show "bal < m" by (simp add: fee_base)
next
  assume "bal < m"
  then show "ladder bal m c n = None"
    using ladder_Some [of bal m c n] fee_ge_mrc [OF assms(2), of m] by (meson linorder_not_le not_Some_eq order_trans)
qed

text \<open>
  The channel ladder returns the largest channel count up to the current one whose fee
  the balance covers; it never goes below the two channels the MRC includes, and it gives up
  exactly when the balance does not cover the MRC.
\<close>

theorem ladder_spec:
  assumes "0 \<le> n" "0 \<le> c"
  shows "case ladder bal m c n of
           None \<Rightarrow> bal < m
         | Some t \<Rightarrow> min 2 n \<le> t \<and> t \<le> n \<and> fee m c t \<le> bal \<and>
             (\<forall>s. t < s \<and> s \<le> n \<longrightarrow> bal < fee m c s)"
proof (cases "ladder bal m c n")
  case None
  then have "bal < m" using ladder_None_iff [OF assms] by blast
  with None show ?thesis by simp
next
  case (Some t)
  note sp = ladder_Some [OF Some]
  have "min 2 n \<le> t"
  proof (rule ccontr)
    assume "\<not> min 2 n \<le> t"
    then have "t < min 2 n" "min 2 n \<le> n" by linarith+
    then have "bal < fee m c (min 2 n)" using sp by blast
    then show False using sp fee_ge_mrc [OF assms(2), of m t] by (simp add: fee_base)
  qed
  with sp Some show ?thesis by simp
qed

theorem ladder_spec_witness: "ladder 700 500 100 6 = Some 4 \<and> fee 500 100 4 \<le> 700"
proof -
  have "ladder 700 500 100 6 = Some 4" by code_simp
  then show ?thesis using ladder_spec [of 6 100 700 500] by simp
qed

subsection \<open>What one transaction does\<close>

lemmas bill_defs = process_one_def charge_order_def suspend_order_def Let_def

lemma load_due_Some:
  "load_due oid d = Some (ord, usr, rc) \<longleftrightarrow>
     tbl_get (orders d) oid = Some ord \<and> o_status ord = OrdActive \<and>
     tbl_get (users d) (o_user ord) = Some usr \<and> tbl_get (rate_cards d) (o_rate_card ord) = Some rc"
  by (auto simp: load_due_def split: option.splits if_splits)

text \<open>\<open>CHECK\<close> constraints of the schema on the rate card and on the channel count.\<close>

definition rates_ok :: "db \<Rightarrow> bool" where
  "rates_ok d \<longleftrightarrow> (\<forall>k rc. tbl_get (rate_cards d) k = Some rc \<longrightarrow>
     0 \<le> r_mrc rc \<and> 0 \<le> r_channel_monthly rc)"

lemma bill_ledger_sum:
  "0 \<le> m \<Longrightarrow> 0 \<le> c \<Longrightarrow>
   sum_list (map l_delta (filter (\<lambda>l. l_user l = u) (bill_ledger uid oid m c nb))) =
     (if u = uid then - (m + c) else 0)"
  by (auto simp: bill_ledger_def)

lemma charge_order_cases:
  "charge_order env now oid ord usr rc t d = (out, d') \<Longrightarrow> (\<exists>st. out = Inl st \<and> d' = d) \<or>
     (out = Inr (if t < o_channels ord then BillDowngraded else BillCharged) \<and>
      users d' = tbl_upd (o_user ord)
        (\<lambda>u. u\<lparr>u_balance := u_balance usr - fee (r_mrc rc) (r_channel_monthly rc) t\<rparr>) (users d) \<and>
      ledger d' = ledger d @ bill_ledger (o_user ord) oid (r_mrc rc)
        (fee (r_mrc rc) (r_channel_monthly rc) t - r_mrc rc)
        (u_balance usr - fee (r_mrc rc) (r_channel_monthly rc) t) \<and>
      orders d' = tbl_upd oid
        (\<lambda>r. r\<lparr>o_channels := t, o_next_billing := next_anniversary now (o_anniversary ord)\<rparr>) (orders d) \<and>
      rate_cards d' = rate_cards d)"
  by (auto simp: charge_order_def Let_def split: if_splits)

lemma suspend_order_cases:
  "suspend_order env oid rc d = (out, d') \<Longrightarrow> (\<exists>st. out = Inl st \<and> d' = d) \<or>
     (out = Inr BillCancelled \<and> users d' = users d \<and> ledger d' = ledger d \<and>
      orders d' = tbl_upd oid (\<lambda>r. r\<lparr>o_status := OrdSuspended, o_ended := Some (be_dbnow env)\<rparr>) (orders d) \<and>
      rate_cards d' = rate_cards d)"
  by (auto simp: suspend_order_def Let_def split: if_splits)

lemma charge_order_conserves:
  assumes "charge_order env now oid ord usr rc t d = (out, d')"
    and "tbl_get (users d) (o_user ord) = Some usr"
    and "0 \<le> r_mrc rc" "0 \<le> r_channel_monthly rc"
  shows "conserves d d'"
  using charge_order_cases [OF assms(1)]
proof
  assume "\<exists>st. out = Inl st \<and> d' = d"
  then show ?thesis by auto
next
  let ?f = "fee (r_mrc rc) (r_channel_monthly rc) t"
  assume d': "out = Inr (if t < o_channels ord then BillDowngraded else BillCharged) \<and>
      users d' = tbl_upd (o_user ord) (\<lambda>u. u\<lparr>u_balance := u_balance usr - ?f\<rparr>) (users d) \<and>
      ledger d' = ledger d @ bill_ledger (o_user ord) oid (r_mrc rc) (?f - r_mrc rc) (u_balance usr - ?f) \<and>
      orders d' = tbl_upd oid
        (\<lambda>r. r\<lparr>o_channels := t, o_next_billing := next_anniversary now (o_anniversary ord)\<rparr>) (orders d) \<and>
      rate_cards d' = rate_cards d"
  have "0 \<le> ?f - r_mrc rc" using fee_ge_mrc [OF assms(4), of "r_mrc rc" t] by simp
  then have "posted d' u = posted d u + (if u = o_user ord then - ?f else 0)" for u
    using d' bill_ledger_sum [OF assms(3), of "?f - r_mrc rc"] by (simp add: posted_def)
  then show ?thesis
    using d' assms(2) by (auto simp: conserves_def balance_def option.map_comp comp_def)
qed

lemma process_one_money:
  assumes "rates_ok d" "process_one env now oid d = (out, d')"
  shows "conserves d d' \<and> (\<forall>st. out = Inl st \<longrightarrow> d' = d)"
proof (cases "load_due oid d")
  case None
  with assms(2) show ?thesis by (auto simp: process_one_def split: if_splits)
next
  case (Some x)
  obtain ord usr rc where x: "x = (ord, usr, rc)" by (cases x)
  with Some assms(1) have row: "tbl_get (users d) (o_user ord) = Some usr"
    and rc: "0 \<le> r_mrc rc" "0 \<le> r_channel_monthly rc" by (auto simp: load_due_Some rates_ok_def)
  consider "d' = d"
    | t where "charge_order env now oid ord usr rc t d = (out, d')"
    | "suspend_order env oid rc d = (out, d')"
    using assms(2) Some x by (auto simp: process_one_def split: if_splits option.splits)
  then show ?thesis
  proof cases
    case 2
    from charge_order_conserves [OF this row rc] charge_order_cases [OF this] show ?thesis by auto
  next
    case 3
    from suspend_order_cases [OF this] show ?thesis by (auto intro: conserves_frame)
  qed auto
qed

text \<open>
  The billing transaction of one order conserves money: every balance moves by exactly
  the ledger entries posted for that user, on every branch, and a failing statement leaves
  the whole database as it was.
\<close>

theorem process_one_conserves:
  assumes "rates_ok d" "process_one env now oid d = (out, d')"
  shows "conserves d d' \<and> (\<forall>st. out = Inl st \<longrightarrow> d' = d)"
  by (rule process_one_money [OF assms])

text \<open>
  A charge is exact: after a charged or downgraded outcome the order runs on the largest
  affordable channel count, its user paid exactly the fee of that count and is not overdrawn
  by it, the MRC and channel entries follow each other in the ledger and end in the new
  balance, and the order is next due on its following anniversary.
\<close>

theorem process_one_charge_exact:
  assumes "process_one env now oid d = (Inr out, d')" "out \<in> {BillCharged, BillDowngraded}"
  shows "\<exists>ord usr rc t. load_due oid d = Some (ord, usr, rc) \<and>
    ladder (u_balance usr) (r_mrc rc) (r_channel_monthly rc) (o_channels ord) = Some t \<and>
    (out = BillDowngraded \<longleftrightarrow> t < o_channels ord) \<and>
    balance d' (o_user ord) = Some (u_balance usr - fee (r_mrc rc) (r_channel_monthly rc) t) \<and>
    0 \<le> u_balance usr - fee (r_mrc rc) (r_channel_monthly rc) t \<and>
    (\<forall>u. u \<noteq> o_user ord \<longrightarrow> balance d' u = balance d u) \<and>
    ledger d' = ledger d @ bill_ledger (o_user ord) oid (r_mrc rc)
      (fee (r_mrc rc) (r_channel_monthly rc) t - r_mrc rc)
      (u_balance usr - fee (r_mrc rc) (r_channel_monthly rc) t) \<and>
    tbl_get (orders d') oid = Some (ord\<lparr>o_channels := t,
      o_next_billing := next_anniversary now (o_anniversary ord)\<rparr>)"
proof -
  obtain ord usr rc where ld: "load_due oid d = Some (ord, usr, rc)"
    using assms by (auto simp: process_one_def split: if_splits option.splits)
  obtain t where t: "ladder (u_balance usr) (r_mrc rc) (r_channel_monthly rc) (o_channels ord) = Some t"
    and c: "charge_order env now oid ord usr rc t d = (Inr out, d')"
    using assms ld suspend_order_cases [of env oid rc d "Inr out" d']
    by (auto simp: process_one_def split: if_splits option.splits)
  have "tbl_get (users d) (o_user ord) = Some usr" "tbl_get (orders d) oid = Some ord"
    using ld by (auto simp: load_due_Some)
  then show ?thesis
    using charge_order_cases [OF c] ld t ladder_Some [OF t]
    by (intro exI [of _ ord] exI [of _ usr] exI [of _ rc] exI [of _ t]) (auto simp: balance_def)
qed


subsection \<open>A small ledger for the witnesses\<close>

text \<open>
  One user with 700 cents and one with 100, one rate card (MRC 500, 100 per extra channel),
  an order of six channels and one of two, both due on the first of March.
\<close>

definition sample_order :: "db_id \<Rightarrow> int \<Rightarrow> order_row" where
  "sample_order uid n =
     \<lparr>o_did = 1, o_user = uid, o_pop = None, o_channels = n, o_kind = RouteIP,
      o_target = ''10.0.0.1'', o_rate_card = 1, o_status = OrdActive, o_anniversary = 1,
      o_next_billing = UTC 2026 3 1 0, o_ended = None, o_kyc = None, o_group = None,
      o_pre_kind = None, o_pre_target = None\<rparr>"

definition sample_db :: db where
  "sample_db = empty_db\<lparr>
     users := [(1, plain_user 700 (-1) ''active''),
               (2, plain_user 100 (-1) ''active'')],
     rate_cards := [(1, plain_rate 0 500 100 (3 / 2) 60 60 (1 / 2) 1 1)],
     orders := [(10, sample_order 1 6), (11, sample_order 2 2)]\<rparr>"

definition no_faults :: bill_env where
  "no_faults = \<lparr>be_dbnow = UTC 2026 3 1 1, be_fault = (\<lambda>_. False)\<rparr>"

lemma sample_rates_ok: "rates_ok sample_db"
  by (auto simp: rates_ok_def sample_db_def empty_db_def tbl_get_def split: if_splits)

lemma sample_process_one:
  "fst (process_one no_faults (UTC 2026 3 1 1) 10 sample_db) = Inr BillDowngraded"
  "balance (snd (process_one no_faults (UTC 2026 3 1 1) 10 sample_db)) 1 = Some 0"
  by code_simp+

theorem process_one_conserves_witness:
  "conserves sample_db (snd (process_one no_faults (UTC 2026 3 1 1) 10 sample_db))"
  using process_one_conserves [OF sample_rates_ok prod.collapse [symmetric]] by blast

theorem process_one_charge_exact_witness:
  "\<exists>uid. balance (snd (process_one no_faults (UTC 2026 3 1 1) 10 sample_db)) uid = Some 0 \<and>
         0 \<le> the (balance (snd (process_one no_faults (UTC 2026 3 1 1) 10 sample_db)) 1)"
proof -
  obtain out d' where p: "process_one no_faults (UTC 2026 3 1 1) 10 sample_db = (out, d')"
    by (meson surj_pair)
  with sample_process_one have "out = Inr BillDowngraded" "balance d' 1 = Some 0" by simp_all
  with process_one_charge_exact [of no_faults "UTC 2026 3 1 1" 10 sample_db BillDowngraded d'] p
  show ?thesis by auto
qed

subsection \<open>The run over all due orders\<close>

definition refs_ok :: "db \<Rightarrow> bool" where
  "refs_ok d \<longleftrightarrow> (\<forall>k r. tbl_get (orders d) k = Some r \<longrightarrow>
     tbl_get (users d) (o_user r) \<noteq> None \<and> tbl_get (rate_cards d) (o_rate_card r) \<noteq> None)"

lemma process_one_frame:
  assumes "process_one env now oid d = (out, d')"
  shows "tbl_ids (orders d') = tbl_ids (orders d) \<and> rate_cards d' = rate_cards d \<and>
    tbl_ids (users d') = tbl_ids (users d) \<and>
    (\<forall>k. k \<noteq> oid \<longrightarrow> tbl_get (orders d') k = tbl_get (orders d) k) \<and>
    (\<forall>k r'. tbl_get (orders d') k = Some r' \<longrightarrow> (\<exists>r. tbl_get (orders d) k = Some r \<and>
       o_user r' = o_user r \<and> o_rate_card r' = o_rate_card r))"
  using assms
  by (auto simp: process_one_def split: if_splits option.splits
      dest!: charge_order_cases suspend_order_cases)

lemma process_one_refs_ok: "process_one env now oid d = (out, d') \<Longrightarrow> refs_ok d \<Longrightarrow> refs_ok d'"
  unfolding refs_ok_def tbl_get_None
  by (drule process_one_frame) (metis tbl_get_None)

lemma process_one_rates_ok: "process_one env now oid d = (out, d') \<Longrightarrow> rates_ok d \<Longrightarrow> rates_ok d'"
  by (drule process_one_frame) (simp add: rates_ok_def)

lemma process_one_not_due:
  assumes "process_one env now oid d = (out, d')" "\<And>s. \<not> be_fault env s"
    and "refs_ok d" "valid_time now" "tbl_get (orders d') oid = Some r"
  shows "\<not> due now r"
proof (cases "load_due oid d")
  case None
  with assms(1,2) have "d' = d" by (simp add: process_one_def)
  then have r: "tbl_get (orders d) oid = Some r" using assms(5) by simp
  then obtain usr rc where "tbl_get (users d) (o_user r) = Some usr"
    "tbl_get (rate_cards d) (o_rate_card r) = Some rc"
    using assms(3) unfolding refs_ok_def by blast
  with None r show ?thesis by (auto simp: load_due_def due_def split: if_splits)
next
  case (Some x)
  obtain ord usr rc where x: "x = (ord, usr, rc)" by (cases x)
  have og: "tbl_get (orders d) oid = Some ord" using Some x by (simp add: load_due_Some)
  have nx: "\<not> next_anniversary now day \<le> now" for day
    using next_anniversary_least [OF assms(4)] by (simp add: not_le)
  consider t where "charge_order env now oid ord usr rc t d = (out, d')"
    | "suspend_order env oid rc d = (out, d')"
    using assms(1,2) Some x by (auto simp: process_one_def split: option.splits)
  then show ?thesis
  proof cases
    case 1
    then have "\<exists>oc. out = Inr oc" using assms(2) by (auto simp: charge_order_def Let_def)
    with charge_order_cases [OF 1] og assms(5) nx show ?thesis by (auto simp: due_def)
  next
    case 2
    then have "\<exists>oc. out = Inr oc" using assms(2) by (auto simp: suspend_order_def Let_def)
    with suspend_order_cases [OF 2] og assms(5) show ?thesis by (auto simp: due_def)
  qed
qed

lemma bill_loop_Cons:
  "bill_loop env now (oid # oids) (res, d) =
     bill_loop env now oids (count_outcome (fst (process_one (env oid) now oid d)) res,
       snd (process_one (env oid) now oid d))"
  by (simp add: case_prod_beta Let_def)

lemma bill_loop_due:
  assumes "\<And>k s. \<not> be_fault (env k) s" "valid_time now" "refs_ok d"
    and "bill_loop env now ids (res, d) = (res', d')"
    and "tbl_get (orders d') k = Some r" "due now r"
  shows "k \<notin> set ids \<and> tbl_get (orders d) k = Some r"
  using assms(3-)
proof (induction ids arbitrary: res d)
  case (Cons oid oids)
  obtain out d1 where p: "process_one (env oid) now oid d = (out, d1)" by (meson surj_pair)
  from Cons.IH [of d1 "count_outcome out res"] Cons.prems process_one_refs_ok [OF p] p
  have k: "k \<notin> set oids" "tbl_get (orders d1) k = Some r" by auto
  have "k \<noteq> oid" using process_one_not_due [OF p assms(1) Cons.prems(1) assms(2)] k Cons.prems by auto
  with k process_one_frame [OF p] show ?case by auto
qed simp

lemma bill_loop_ids:
  "bill_loop env now ids (res, d) = (res', d') \<Longrightarrow> tbl_ids (orders d') = tbl_ids (orders d)"
proof (induction ids arbitrary: res d)
  case (Cons oid oids)
  obtain out d1 where p: "process_one (env oid) now oid d = (out, d1)" by (meson surj_pair)
  from Cons.IH [of "count_outcome out res" d1] Cons.prems p process_one_frame [OF p] show ?case by simp
qed simp

lemma due_ids_Nil_iff: "due_ids now d = [] \<longleftrightarrow> (\<forall>(k, r) \<in> set (orders d). \<not> due now r)"
proof -
  have "due_ids now d = [] \<longleftrightarrow> set (filter (\<lambda>(_, r). due now r) (orders d)) = {}"
    unfolding due_ids_def by (metis set_empty set_sort map_is_Nil_conv)
  then show ?thesis by auto
qed

lemma due_ids_in: "(k, r) \<in> set (orders d) \<Longrightarrow> due now r \<Longrightarrow> k \<in> set (due_ids now d)"
  by (force simp: due_ids_def)

text \<open>
  The hourly job is idempotent: after a run in which no statement failed no order is due
  any more at that instant, so running the job again processes nothing and charges nobody.
\<close>

theorem run_billing_idempotent:
  assumes "run_billing False now env d = (res, d')"
    and "\<And>k s. \<not> be_fault (env k) s" "valid_time now" "refs_ok d" "distinct (tbl_ids (orders d))"
  shows "due_ids now d' = [] \<and> run_billing False now env' d' = (Some zero_result, d')"
proof -
  obtain res1 where l: "bill_loop env now (due_ids now d) (zero_result, d) = (res1, d')"
    using assms(1) by (auto simp: run_billing_def Let_def split: prod.splits)
  have dist: "distinct (tbl_ids (orders d'))" using bill_loop_ids [OF l] assms(5) by simp
  have "\<not> due now r" if "(k, r) \<in> set (orders d')" for k r
    using bill_loop_due [OF assms(2-4) l tbl_in_get [OF dist that]]
      due_ids_in [OF tbl_get_in, of d k r now] by blast
  then have "due_ids now d' = []" by (auto simp: due_ids_Nil_iff)
  then show ?thesis by (simp add: run_billing_def)
qed

lemma bill_loop_conserves:
  "rates_ok d \<Longrightarrow> bill_loop env now ids (res, d) = (res', d') \<Longrightarrow> conserves d d'"
proof (induction ids arbitrary: res d)
  case (Cons oid oids)
  obtain out d1 where p: "process_one (env oid) now oid d = (out, d1)" by (meson surj_pair)
  from Cons.IH [of d1 "count_outcome out res"] Cons.prems process_one_rates_ok [OF p] p
  have "conserves d1 d'" by simp
  with process_one_money [OF Cons.prems(1) p] show ?case using conserves_trans by blast
qed simp

lemma process_one_solvent:
  assumes "process_one env now oid d = (out, d')" "balance d u = Some b" "0 \<le> b"
  shows "\<exists>b'. balance d' u = Some b' \<and> 0 \<le> b'"
proof (cases "\<exists>oc. out = Inr oc \<and> oc \<in> {BillCharged, BillDowngraded}")
  case True
  then obtain oc where "out = Inr oc" "oc \<in> {BillCharged, BillDowngraded}" by blast
  with process_one_charge_exact [of env now oid d oc d'] assms show ?thesis by metis
next
  case False
  then have "users d' = users d"
    using assms(1) by (auto simp: process_one_def split: if_splits option.splits
        dest!: charge_order_cases suspend_order_cases)
  with assms show ?thesis by (auto simp: balance_def)
qed

lemma bill_loop_solvent:
  "bill_loop env now ids (res, d) = (res', d') \<Longrightarrow> balance d u = Some b \<Longrightarrow> 0 \<le> b \<Longrightarrow>
     \<exists>b'. balance d' u = Some b' \<and> 0 \<le> b'"
proof (induction ids arbitrary: res d b)
  case (Cons oid oids)
  obtain out d1 where p: "process_one (env oid) now oid d = (out, d1)" by (meson surj_pair)
  obtain b1 where "balance d1 u = Some b1" "0 \<le> b1"
    using process_one_solvent [OF p Cons.prems(2,3)] by blast
  with Cons.IH [of "count_outcome out res" d1 b1] Cons.prems(1) p show ?case by simp
qed simp

lemma count_outcome_sum:
  "res_charged r + res_downgrade r + res_suspended r + res_errors r \<le> res_processed r \<Longrightarrow>
   res_processed (count_outcome out r) = res_processed r + 1 \<and>
   res_charged (count_outcome out r) + res_downgrade (count_outcome out r) +
     res_suspended (count_outcome out r) + res_errors (count_outcome out r)
     \<le> res_processed (count_outcome out r)"
  by (auto simp: count_outcome_def Let_def split: sum.splits bill_outcome.splits)

lemma bill_loop_counts:
  "bill_loop env now ids (res, d) = (res', d') \<Longrightarrow>
   res_charged res + res_downgrade res + res_suspended res + res_errors res \<le> res_processed res \<Longrightarrow>
   res_processed res' = res_processed res + length ids \<and>
   res_charged res' + res_downgrade res' + res_suspended res' + res_errors res' \<le> res_processed res'"
proof (induction ids arbitrary: res d)
  case (Cons oid oids)
  from Cons.prems(1) Cons.IH [OF _ count_outcome_sum [THEN conjunct2]] count_outcome_sum [OF Cons.prems(2)]
  show ?case unfolding bill_loop_Cons using Cons.prems(2) by fastforce
qed simp


lemma sample_run:
  "fst (run_billing False (UTC 2026 3 1 1) (\<lambda>_. no_faults) sample_db) =
     Some \<lparr>res_processed = 2, res_charged = 0, res_downgrade = 1, res_suspended = 1, res_errors = 0\<rparr>"
  by code_simp


theorem run_billing_idempotent_witness:
  "run_billing False (UTC 2026 3 1 1) (\<lambda>_. no_faults)
     (snd (run_billing False (UTC 2026 3 1 1) (\<lambda>_. no_faults) sample_db)) =
   (Some zero_result, snd (run_billing False (UTC 2026 3 1 1) (\<lambda>_. no_faults) sample_db))"
proof -
  have "refs_ok sample_db"
    by (auto simp: refs_ok_def sample_db_def empty_db_def sample_order_def tbl_get_def split: if_splits)
  moreover have "distinct (tbl_ids (orders sample_db))"
    by (simp add: sample_db_def tbl_ids_def empty_db_def)
  ultimately show ?thesis
    using run_billing_idempotent [where env = "\<lambda>_. no_faults", OF prod.collapse [symmetric], of "UTC 2026 3 1 1" sample_db "\<lambda>_. no_faults"]
    by (simp add: no_faults_def)
qed

end
