(* ===== verification/Books_Kept.thy ===== *)
theory Books_Kept
  imports Rates Billing
begin

text \<open>
  The two invariants of the books, and that every form, import and call of the program keeps
  them: the cached balance of every user is the sum of the user's ledger rows, and every
  number held by an open order is assigned and held once.
\<close>

subsection \<open>The two invariants\<close>

definition held_dids :: "db \<Rightarrow> db_id list" where
  "held_dids d = map (\<lambda>(k, r). o_did r) (filter (\<lambda>(k, r). open_order r) (orders d))"

definition did_status_of :: "db \<Rightarrow> db_id \<Rightarrow> did_status option" where
  "did_status_of d n = map_option d_status (tbl_get (dids d) n)"

definition inventory_ok :: "db \<Rightarrow> bool" where
  "inventory_ok d \<longleftrightarrow>
     distinct (tbl_ids (orders d)) \<and> distinct (held_dids d) \<and> (\<forall>n \<in> set (held_dids d). did_status_of d n = Some DidAssigned)"

text \<open>\<open>users.balance_cents\<close> is the cached projection of the append-only ledger.\<close>

definition ledger_ok :: "db \<Rightarrow> bool" where
  "ledger_ok d \<longleftrightarrow> (\<forall>u. posted d u = (case balance d u of None \<Rightarrow> 0 | Some b \<Rightarrow> b))"

definition books_ok :: "db \<Rightarrow> bool" where
  "books_ok d \<longleftrightarrow> inventory_ok d \<and> ledger_ok d \<and> rates_ok d"

lemma inventory_cong:
  assumes "tbl_ids (orders e) = tbl_ids (orders d)" "held_dids e = held_dids d" "did_status_of e = did_status_of d"
  shows "inventory_ok e = inventory_ok d"
  by (simp add: inventory_ok_def assms)

lemma held_dids_cong [simp]: "held_dids (d\<lparr>orders := t\<rparr>) = map (\<lambda>(k, r). o_did r) (filter (\<lambda>(k, r). open_order r) t)"
  by (simp add: held_dids_def)

lemma held_cong: "orders e = orders d \<Longrightarrow> held_dids e = held_dids d"
  by (simp add: held_dids_def)

lemma did_status_cong: "dids e = dids d \<Longrightarrow> did_status_of e = did_status_of d"
  by (simp add: did_status_of_def fun_eq_iff)

text \<open>An update of rows that moves no order between open and closed and to no other number.\<close>

lemma held_upd_where:
  assumes "\<And>k r. (k, r) \<in> set t \<Longrightarrow> P k r \<Longrightarrow> o_did (f r) = o_did r \<and> open_order (f r) = open_order r"
  shows "map (\<lambda>(k, r). o_did r) (filter (\<lambda>(k, r). open_order r) (tbl_upd_where P f t)) =
    map (\<lambda>(k, r). o_did r) (filter (\<lambda>(k, r). open_order r) t)"
  using assms
proof (induction t)
  case (Cons x t)
  obtain a b where x: "x = (a, b)" by (cases x)
  have ih: "map (\<lambda>(k, r). o_did r) (filter (\<lambda>(k, r). open_order r) (tbl_upd_where P f t)) =
    map (\<lambda>(k, r). o_did r) (filter (\<lambda>(k, r). open_order r) t)"
    by (rule Cons.IH) (use Cons.prems in auto)
  have "P a b \<Longrightarrow> o_did (f b) = o_did b \<and> open_order (f b) = open_order b" using Cons.prems [of a b] x by simp
  with ih show ?case by (simp add: tbl_upd_where_def x)
qed (simp add: tbl_upd_where_def)

lemma inventory_frame:
  assumes "inventory_ok d" "orders e = orders d" "dids e = dids d"
  shows "inventory_ok e"
  using assms inventory_cong [of e d] held_cong [of e d] did_status_cong [of e d] by simp

lemma inventory_upd_orders:
  assumes "inventory_ok d" "orders e = tbl_upd_where P f (orders d)" "dids e = dids d"
    and "\<And>k r. (k, r) \<in> set (orders d) \<Longrightarrow> P k r \<Longrightarrow> o_did (f r) = o_did r \<and> open_order (f r) = open_order r"
  shows "inventory_ok e"
proof -
  have "held_dids e = held_dids d" using held_upd_where [of "orders d" P f] assms(2,4) by (simp add: held_dids_def)
  with assms(1-3) inventory_cong [of e d] did_status_cong [of e d] show ?thesis by simp
qed

subsection \<open>Money\<close>

lemma ledger_ok_conserves:
  assumes "ledger_ok d" "conserves d e" "\<And>u. balance d u = None \<Longrightarrow> posted e u = posted d u"
  shows "ledger_ok e"
  unfolding ledger_ok_def
proof
  fix u
  show "posted e u = (case balance e u of None \<Rightarrow> 0 | Some b \<Rightarrow> b)"
    using assms(1,2) assms(3) [of u] unfolding ledger_ok_def conserves_def by (cases "balance d u") auto
qed

lemma ledger_ok_frame: "ledger_ok d \<Longrightarrow> users e = users d \<Longrightarrow> ledger e = ledger d \<Longrightarrow> ledger_ok e"
  by (simp add: ledger_ok_def posted_cong [of e d] balance_cong [of e d])

text \<open>A row posted with the balance moved by it.\<close>

lemma ledger_ok_post:
  assumes "ledger_ok d" "tbl_get (users d) uid = Some u"
    and "users e = tbl_upd uid (\<lambda>u. u\<lparr>u_balance := u_balance u + c\<rparr>) (users d)"
    and "ledger e = ledger d @ [l]" "l_user l = uid" "l_delta l = c"
  shows "ledger_ok e"
proof -
  have "posted e v = posted d v + (if v = uid then c else 0)" for v
    using assms(4-6) by (auto simp: posted_def)
  moreover have "balance e v = (if v = uid then Some (u_balance u + c) else balance d v)" for v
    using assms(2,3) by (auto simp: balance_def)
  ultimately show ?thesis using assms(1,2) by (auto simp: ledger_ok_def balance_def split: if_splits)
qed

lemma ledger_ok_users:
  assumes "ledger_ok d" "ledger e = ledger d" "\<And>u. balance e u = balance d u"
  shows "ledger_ok e"
  using assms posted_cong [of e d] by (simp add: ledger_ok_def)

lemma rates_frame: "rates_ok d \<Longrightarrow> rate_cards e = rate_cards d \<Longrightarrow> rates_ok e"
  by (simp add: rates_ok_def)

subsection \<open>The control plane and the monthly billing\<close>

lemma post_charge_posts:
  assumes "post_charge uid cid c d = Some e"
  shows "tbl_get (users d) uid \<noteq> None \<and> (\<exists>l. ledger e = ledger d @ [l] \<and> l_user l = uid)"
  using assms post_charge_Some(6) [OF assms] by (auto simp: post_charge_def Let_def split: option.splits)

lemma sip_step_db:
  assumes "sip_step (t, s) (t', s')"
  shows "orders (ss_db s') = orders (ss_db s)" "dids (ss_db s') = dids (ss_db s)"
    "rate_cards (ss_db s') = rate_cards (ss_db s)" "conserves (ss_db s) (ss_db s')"
    "balance (ss_db s) u = None \<Longrightarrow> posted (ss_db s') u = posted (ss_db s) u"
proof -
  have "orders (ss_db s') = orders (ss_db s) \<and> dids (ss_db s') = dids (ss_db s) \<and>
    rate_cards (ss_db s') = rate_cards (ss_db s) \<and> conserves (ss_db s) (ss_db s') \<and>
    (balance (ss_db s) u = None \<longrightarrow> posted (ss_db s') u = posted (ss_db s) u)" for u
    using assms
  proof cases
    case (invite env req resp)
    then have "audit_extends (ss_db s) (ss_db s')" using authorize_only_audits_lemma [of s env req] by simp
    note a = audit_extends_sel [OF this]
    show ?thesis using a conserves_frame [OF a(1,2)] posted_cong [OF a(2)] by simp
  next
    case (hangup env body reply)
    have c: "conserves (ss_db s) (ss_db s')" using cdr_money [of s env body] hangup by simp
    from hangup(3) have "orders (ss_db s') = orders (ss_db s) \<and> dids (ss_db s') = dids (ss_db s) \<and>
      rate_cards (ss_db s') = rate_cards (ss_db s) \<and>
      (balance (ss_db s) u = None \<longrightarrow> posted (ss_db s') u = posted (ss_db s) u)"
    proof (cases rule: cdr_handler_db)
      case (body req s1)
      note f = cdr_body_frame [OF body(2)]
      have o: "orders (ss_db s1) = orders (ss_db s)" using f(4) by (simp add: caps_of_def)
      have "balance (ss_db s) u = None \<longrightarrow> posted (ss_db s1) u = posted (ss_db s) u"
        using body(2)
      proof (cases rule: cdr_body_cases)
        case unbooked
        then show ?thesis by simp
      next
        case unbilled
        have "ledger (ss_db s1) = ledger (ss_db s)"
          by (simp add: unbilled(3) fill_unbilled_cdr_def Let_def split: prod.split)
        then show ?thesis by (simp add: posted_def)
      next
        case (billed oid ord did rc st)
        then show ?thesis by (auto simp: posted_def balance_def dest!: post_charge_posts)
      qed
      with o f(5,6) body(3) show ?thesis by simp
    qed simp
    with c show ?thesis by simp
  next
    case (sweep renv ev r d)
    from sweep(4) have "ss_db s' = ss_db s \<or> (\<exists>now ev. ss_db s' = stamp_ended now ev (ss_db s))"
      by (cases rule: reconcile_cases) (use sweep in auto)
    then show ?thesis by (auto simp: stamp_ended_def conserves_frame posted_def)
  next
    case tick
    then show ?thesis by simp
  qed
  then show "orders (ss_db s') = orders (ss_db s)" "dids (ss_db s') = dids (ss_db s)"
    "rate_cards (ss_db s') = rate_cards (ss_db s)" "conserves (ss_db s) (ss_db s')"
    "balance (ss_db s) u = None \<Longrightarrow> posted (ss_db s') u = posted (ss_db s) u" by blast+
qed

lemma charge_order_orders:
  assumes "charge_order env now oid ord usr rc t d = (out, e)"
  shows "dids e = dids d \<and> (orders e = orders d \<or> orders e = tbl_upd oid (\<lambda>r. r\<lparr>o_channels := t, o_next_billing := next_anniversary now (o_anniversary ord)\<rparr>) (orders d))"
    "u \<noteq> o_user ord \<Longrightarrow> posted e u = posted d u"
  using assms by (auto simp: charge_order_def Let_def posted_def bill_ledger_def split: if_splits)

lemma suspend_order_orders:
  assumes "suspend_order env oid rc d = (out, e)"
  shows "dids e = dids d \<and> ledger e = ledger d \<and> (orders e = orders d \<or>
    orders e = tbl_upd oid (\<lambda>r. r\<lparr>o_status := OrdSuspended, o_ended := Some (be_dbnow env)\<rparr>) (orders d))"
  using assms by (auto simp: suspend_order_def Let_def split: if_splits)

lemma process_one_books:
  assumes "process_one env now oid d = (out, e)" "books_ok d"
  shows "books_ok e"
proof (cases "load_due oid d")
  case None
  with assms show ?thesis by (auto simp: process_one_def split: if_splits)
next
  case (Some x)
  obtain ord usr rc where x: "x = (ord, usr, rc)" by (cases x)
  have b: "inventory_ok d" "ledger_ok d" "rates_ok d" using assms(2) by (simp_all add: books_ok_def)
  have l: "tbl_get (orders d) oid = Some ord" "o_status ord = OrdActive" "tbl_get (users d) (o_user ord) = Some usr"
    using Some x by (simp_all add: load_due_Some)
  have act: "o_status r = OrdActive" if "(oid, r) \<in> set (orders d)" for r
    using unique_id [OF _ that l(1)] l(2) b(1) by (simp add: inventory_ok_def)
  consider "e = d" | t where "charge_order env now oid ord usr rc t d = (out, e)" | "suspend_order env oid rc d = (out, e)"
    using assms(1) Some x by (auto simp: process_one_def split: if_splits option.splits)
  then have "inventory_ok e \<and> (\<forall>u. balance d u = None \<longrightarrow> posted e u = posted d u)"
  proof cases
    case 1
    with b(1) show ?thesis by simp
  next
    case (2 t)
    note c = charge_order_orders [OF 2]
    have "inventory_ok e"
      using c(1) inventory_frame [OF b(1)]
      by (auto simp: tbl_upd_def open_order_def intro: inventory_upd_orders [OF b(1)])
    moreover have "balance d u = None \<longrightarrow> posted e u = posted d u" for u
      using c(2) [of u] l(3) by (cases "u = o_user ord") (auto simp: balance_def)
    ultimately show ?thesis by blast
  next
    case 3
    note c = suspend_order_orders [OF 3]
    have "inventory_ok e"
      using c inventory_frame [OF b(1)] act
      by (auto simp: tbl_upd_def open_order_def intro: inventory_upd_orders [OF b(1)])
    with c show ?thesis by (simp add: posted_def)
  qed
  then show ?thesis
    using ledger_ok_conserves [OF b(2) process_one_money [OF b(3) assms(1), THEN conjunct1]]
      process_one_rates_ok [OF assms(1) b(3)] by (simp add: books_ok_def)
qed

subsection \<open>The forms\<close>

lemma set_did_status_sel [simp]:
  "orders (set_did_status st n d) = orders d" "users (set_did_status st n d) = users d"
  "ledger (set_did_status st n d) = ledger d" "rate_cards (set_did_status st n d) = rate_cards d"
  "held_dids (set_did_status st n d) = held_dids d" "kyc_bundles (set_did_status st n d) = kyc_bundles d"
  "sip_accounts (set_did_status st n d) = sip_accounts d"
  by (simp_all add: set_did_status_def held_dids_def)

lemma did_status_of_set [simp]:
  "did_status_of (set_did_status st n d) m = (if m = n then map_option (\<lambda>_. st) (did_status_of d m) else did_status_of d m)"
  by (simp add: did_status_of_def set_did_status_def option.map_comp comp_def)

lemma did_status_of_orders [simp]:
  "did_status_of (d\<lparr>orders := t\<rparr>) = did_status_of d" "did_status_of (d\<lparr>users := us\<rparr>) = did_status_of d"
  "did_status_of (add_ledger l d) = did_status_of d" "did_status_of (log_block b d) = did_status_of d"
  by (simp_all add: did_status_of_def fun_eq_iff log_block_def)

lemma log_block_sel [simp]:
  "orders (log_block b d) = orders d" "users (log_block b d) = users d" "ledger (log_block b d) = ledger d"
  "rate_cards (log_block b d) = rate_cards d" "dids (log_block b d) = dids d"
  by (simp_all add: log_block_def)

text \<open>A number that no open order holds may change its status.\<close>

lemma inventory_free_did:
  assumes "inventory_ok d" "n \<notin> set (held_dids d)"
  shows "inventory_ok (set_did_status st n d)"
  using assms by (auto simp: inventory_ok_def)

lemma available_free: "inventory_ok d \<Longrightarrow> did_status_of d n = Some st \<Longrightarrow> st \<noteq> DidAssigned \<Longrightarrow> n \<notin> set (held_dids d)"
  by (auto simp: inventory_ok_def)

text \<open>Closing an order frees its number.\<close>

lemma inventory_close:
  assumes "inventory_ok d" "tbl_get (orders d) k = Some r" "open_order r" "\<And>x. \<not> open_order (f x)"
  shows "inventory_ok (set_did_status st (o_did r) (d\<lparr>orders := tbl_upd k f (orders d)\<rparr>))"
proof -
  have ids: "distinct (tbl_ids (orders d))" using assms(1) by (simp add: inventory_ok_def)
  obtain xs ys where s: "orders d = xs @ (k, r) # ys" "\<And>f. tbl_upd k f (orders d) = xs @ (k, f r) # ys"
    using tbl_upd_split [OF ids assms(2)] by metis
  let ?e = "d\<lparr>orders := tbl_upd k f (orders d)\<rparr>"
  have h: "held_dids ?e = map (\<lambda>(k, r). o_did r) (filter (\<lambda>(k, r). open_order r) (xs @ ys))" using s(2) assms(4) by simp
  have "distinct (o_did r # held_dids ?e)" "set (held_dids ?e) \<subseteq> set (held_dids d)"
    using assms(1,3) unfolding h by (auto simp: inventory_ok_def held_dids_def s(1))
  moreover have "inventory_ok ?e"
    using assms(1) calculation by (auto simp: inventory_ok_def)
  ultimately show ?thesis by (intro inventory_free_did) simp_all
qed

lemma order_cancel_books:
  assumes "order_cancel flt now oid d = (rep, e)" "books_ok d"
  shows "books_ok e"
proof -
  have b: "inventory_ok d" "ledger_ok d" "rates_ok d" using assms(2) by (simp_all add: books_ok_def)
  have "e = d \<or> (\<exists>r. tbl_get (orders d) oid = Some r \<and> open_order r \<and>
      e = set_did_status DidAvailable (o_did r) (d\<lparr>orders := tbl_upd oid (cancel_row now) (orders d)\<rparr>))"
    using assms(1) by (cases "tbl_get (orders d) oid") (simp_all add: order_cancel_def split: if_splits)
  then consider "e = d" | r where "tbl_get (orders d) oid = Some r" "open_order r"
      "e = set_did_status DidAvailable (o_did r) (d\<lparr>orders := tbl_upd oid (cancel_row now) (orders d)\<rparr>)"
    by blast
  then show ?thesis
  proof cases
    case (2 r)
    have "inventory_ok e"
      unfolding 2(3) by (rule inventory_close [OF b(1) 2(1,2)]) (simp add: cancel_row_def open_order_def)
    moreover have "ledger_ok e" using ledger_ok_frame [OF b(2)] by (simp add: 2(3))
    moreover have "rates_ok e" using rates_frame [OF b(3)] by (simp add: 2(3))
    ultimately show ?thesis by (simp add: books_ok_def)
  qed (simp add: assms(2))
qed

lemma books_frame:
  assumes "books_ok d" "inventory_ok e" "users e = users d" "ledger e = ledger d" "rate_cards e = rate_cards d"
  shows "books_ok e"
  using assms ledger_ok_frame [of d e] rates_frame [of d e] by (simp add: books_ok_def)

lemma order_update_books:
  assumes "order_update flt oid form d = (rep, e)" "books_ok d"
  shows "books_ok e"
proof -
  have i: "inventory_ok d" using assms(2) by (simp add: books_ok_def)
  consider "e = d" | p rt a where "e = d\<lparr>orders := tbl_upd oid (patch_order p rt a) (orders d)\<rparr>"
    using assms(1) by (auto simp: order_update_def save_patch_def Let_def split: if_splits option.splits sum.splits)
  then show ?thesis
  proof cases
    case (2 p rt a)
    have "inventory_ok e"
      by (rule inventory_upd_orders [OF i, where P = "\<lambda>j _. j = oid" and f = "patch_order p rt a"])
        (auto simp: 2 tbl_upd_def patch_order_def open_order_def)
    with assms(2) show ?thesis by (rule books_frame) (simp_all add: 2)
  qed (simp add: assms(2))
qed

text \<open>What a successful creation did.\<close>

lemma order_create_done:
  assumes "order_create flt now f d = (CreateDone st, e)"
  obtains rc rate u row where
    "rate_for_did (atoi64 (of_did f)) d = Some (rc, rate)"
    "tbl_get (users d) (atoi64 (of_user f)) = Some u \<and> r_nrc rate \<le> u_balance u"
    "start_status False (atoi64 (of_user f)) (bundle_field (of_kyc f)) d = Some st"
    "one_active_per_did (orders e)"
    "o_did row = atoi64 (of_did f) \<and> o_user row = atoi64 (of_user f) \<and> o_status row = st \<and> o_rate_card row = rc \<and> o_kyc row = bundle_field (of_kyc f)"
    "e = charge_nrc (atoi64 (of_user f)) (next_id (orders d)) (r_nrc rate) (u_balance u)
           (set_did_status DidAssigned (atoi64 (of_did f)) (d\<lparr>orders := tbl_insert row (orders d)\<rparr>))"
proof -
  let ?uid = "atoi64 (of_user f)" and ?did = "atoi64 (of_did f)"
  obtain rc rate where rate: "rate_for_did ?did d = Some (rc, rate)" "\<not> flt StmRate"
    using assms by (auto simp: order_create_def Let_def split: if_splits option.splits)
  define bal where "bal = (case (if flt StmBalance then None else tbl_get (users d) ?uid) of Some u \<Rightarrow> u_balance u | None \<Rightarrow> 0)"
  obtain st' where st': "start_status (flt StmBundle \<or> flt StmBalance) ?uid (bundle_field (of_kyc f)) d = Some st'" "\<not> bal < r_nrc rate"
    using assms rate by (auto simp: order_create_def Let_def bal_def split: if_splits option.splits)
  obtain oid d1 where ins: "insert_order (flt StmInsert \<or> flt StmBalance) (of_kind f)
      (new_order ?did ?uid (max 0 (atoi64 (of_channels f))) (normalize_route_target (of_kind f) (of_target f)) rc
        (billing_day now (of_day f)) (next_anniversary now (billing_day now (of_day f))) st' (bundle_field (of_kyc f))) d = Some (oid, d1)"
    using assms rate st' by (auto simp: order_create_def Let_def bal_def [symmetric] split: if_splits option.splits)
  have e: "e = charge_nrc ?uid oid (r_nrc rate) bal (set_did_status DidAssigned ?did d1)" "st' = st"
    using assms rate st' ins by (auto simp: order_create_def Let_def bal_def [symmetric] split: if_splits)
  obtain k where k: "route_kind_of (of_kind f) = Some k" using ins by (auto simp: insert_order_def split: option.splits)
  define row where "row = new_order ?did ?uid (max 0 (atoi64 (of_channels f))) (normalize_route_target (of_kind f) (of_target f)) rc
        (billing_day now (of_day f)) (next_anniversary now (billing_day now (of_day f))) st' (bundle_field (of_kyc f)) k"
  have r: "o_did row = ?did \<and> o_user row = ?uid \<and> o_status row = st' \<and> o_rate_card row = rc \<and> o_kyc row = bundle_field (of_kyc f)"
    by (simp add: row_def new_order_def)
  have i: "oid = next_id (orders d)" "d1 = d\<lparr>orders := tbl_insert row (orders d)\<rparr>" "\<not> flt StmBalance"
    "tbl_get (users d) ?uid \<noteq> None" "one_active_per_did (tbl_insert row (orders d))"
    using ins k r by (auto simp: insert_order_def Let_def row_def split: if_splits)
  then obtain u where u: "tbl_get (users d) ?uid = Some u" by blast
  have bal: "bal = u_balance u" using u i(3) by (simp add: bal_def)
  have st: "start_status False ?uid (bundle_field (of_kyc f)) d = Some st'"
    using st'(1) by (auto simp: start_status_def split: option.splits if_splits)
  have ord: "orders e = tbl_insert row (orders d)" using i(2) by (simp add: e(1) charge_nrc_def)
  show thesis
    by (rule that [OF rate(1) _ _ _ _ _, of u row]) (use u st'(2) bal st i ord e r in simp_all)
qed

lemma order_create_failed:
  assumes "order_create flt now f d = (rep, e)" "\<And>st. rep \<noteq> CreateDone st"
  shows "e = d"
  using assms by (auto simp: order_create_def Let_def split: if_splits option.splits prod.splits)

lemma charge_nrc_sel [simp]:
  "orders (charge_nrc uid oid nrc bal d) = orders d" "rate_cards (charge_nrc uid oid nrc bal d) = rate_cards d"
  "dids (charge_nrc uid oid nrc bal d) = dids d" "kyc_bundles (charge_nrc uid oid nrc bal d) = kyc_bundles d"
  by (simp_all add: charge_nrc_def add_ledger_def)

lemma charge_nrc_ledger:
  assumes "ledger_ok d" "tbl_get (users d) uid = Some u"
  shows "ledger_ok (charge_nrc uid oid nrc (u_balance u) d)"
proof (cases "0 < nrc")
  case True
  have "posted (charge_nrc uid oid nrc (u_balance u) d) v = posted d v + (if v = uid then - nrc else 0)" for v
    using True by (simp add: charge_nrc_def posted_cong [of "d\<lparr>users := _\<rparr>" d])
  moreover have "balance (charge_nrc uid oid nrc (u_balance u) d) v = (if v = uid then Some (u_balance u - nrc) else balance d v)" for v
    using True assms(2) by (simp add: charge_nrc_def) (simp add: balance_def)
  ultimately show ?thesis using assms by (auto simp: ledger_ok_def balance_def split: if_splits)
qed (use assms in \<open>simp add: charge_nrc_def\<close>)

lemma start_status_open: "start_status x uid kyc d = Some st \<Longrightarrow> st \<in> {OrdActive, OrdKycPending}"
  by (auto simp: start_status_def split: option.splits if_splits)

text \<open>A sale: the new open order, its number assigned and its price posted.\<close>

lemma sale_books:
  assumes "books_ok d" "did_status_of d (o_did row) = Some DidAvailable" "open_order row" "tbl_get (users d) uid = Some u"
  shows "books_ok (charge_nrc uid oid nrc (u_balance u)
    (set_did_status DidAssigned (o_did row) (d\<lparr>orders := tbl_insert row (orders d)\<rparr>)))" (is "books_ok (charge_nrc _ _ _ _ ?e)")
proof -
  let ?d1 = "d\<lparr>orders := tbl_insert row (orders d)\<rparr>"
  have i: "inventory_ok d" "ledger_ok d" using assms(1) by (simp_all add: books_ok_def)
  have free: "o_did row \<notin> set (held_dids d)" using available_free [OF i(1) assms(2)] by simp
  have "held_dids ?d1 = held_dids d @ [o_did row]" using assms(3) by (simp add: held_dids_def tbl_insert_def)
  then have "inventory_ok ?e" using i(1) free assms(2) by (auto simp: inventory_ok_def)
  then have "inventory_ok (charge_nrc uid oid nrc (u_balance u) ?e)" by (rule inventory_frame) simp_all
  moreover have "ledger_ok ?e" using ledger_ok_frame [OF i(2)] by simp
  then have "ledger_ok (charge_nrc uid oid nrc (u_balance u) ?e)" using charge_nrc_ledger assms(4) by simp
  ultimately show ?thesis using assms(1) rates_frame [of d] by (simp add: books_ok_def)
qed

lemma order_create_books:
  assumes "order_create flt now f d = (rep, e)" "books_ok d" "did_status_of d (atoi64 (of_did f)) = Some DidAvailable"
  shows "books_ok e"
proof (cases "\<exists>st. rep = CreateDone st")
  case True
  then obtain st where "order_create flt now f d = (CreateDone st, e)" using assms(1) by auto
  then show ?thesis
  proof (cases rule: order_create_done)
    case (1 rc rate u row)
    have "open_order row" using start_status_open [OF 1(3)] 1(5) by (auto simp: open_order_def)
    from sale_books [OF assms(2) _ this] 1(2,5,6) assms(3) show ?thesis by auto
  qed
next
  case False
  with order_create_failed [OF assms(1)] assms(2) show ?thesis by auto
qed

lemma swap_rows_inventory:
  assumes "inventory_ok d" "tbl_get (orders d) oid = Some r" "open_order r" "did_status_of d n = Some DidAvailable"
  shows "inventory_ok (swap_rows oid (o_did r) n d)"
proof -
  have ids: "distinct (tbl_ids (orders d))" using assms(1) by (simp add: inventory_ok_def)
  obtain xs ys where s: "orders d = xs @ (oid, r) # ys" "\<And>f. tbl_upd oid f (orders d) = xs @ (oid, f r) # ys"
    using tbl_upd_split [OF ids assms(2)] by metis
  have free: "n \<notin> set (held_dids d)" using available_free [OF assms(1,4)] by simp
  let ?h = "\<lambda>t. map (\<lambda>(k, r). o_did r) (filter (\<lambda>(k, r). open_order r) t)"
  have h: "held_dids d = ?h xs @ [o_did r] @ ?h ys" using assms(3) by (simp add: held_dids_def s(1))
  have h': "held_dids (swap_rows oid (o_did r) n d) = ?h xs @ [n] @ ?h ys"
    using assms(3) by (simp add: swap_rows_def held_dids_def s(2) open_order_def)
  have st: "did_status_of (swap_rows oid (o_did r) n d) m =
      (if m = n then Some DidAssigned else if m = o_did r then map_option (\<lambda>_. DidAvailable) (did_status_of d m) else did_status_of d m)" for m
    using assms(4) by (auto simp: swap_rows_def)
  have ids': "tbl_ids (orders (swap_rows oid (o_did r) n d)) = tbl_ids (orders d)" by (simp add: swap_rows_def)
  show ?thesis
    using assms(1) free unfolding inventory_ok_def ids' h' h st by auto
qed

lemma write_compliance_books: "books_ok d \<Longrightarrow> books_ok (write_compliance_event b u o' a act r ds d)"
proof -
  assume b: "books_ok d"
  then have "inventory_ok (log_block x d)" for x using inventory_frame [of d "log_block x d"] by (simp add: books_ok_def)
  with b books_frame [OF b] show ?thesis by (simp add: write_compliance_event_def)
qed

lemma order_swap_books:
  assumes "order_swap flt admin oid form d = (rep, e)" "books_ok d"
  shows "books_ok e"
proof -
  have "e = d \<or> (\<exists>r n b reason ds. tbl_get (orders d) oid = Some r \<and> open_order r \<and> did_status_of d n = Some DidAvailable \<and>
      e = write_compliance_event b (o_user r) oid admin ''order_did_swap'' reason ds (swap_rows oid (o_did r) n d))"
    using assms(1) by (auto simp: order_swap_def Let_def open_order_def did_status_of_def split: option.splits if_splits prod.splits)
  moreover have "books_ok (swap_rows oid (o_did r) n d)"
    if "tbl_get (orders d) oid = Some r" "open_order r" "did_status_of d n = Some DidAvailable" for r n
    by (rule books_frame [OF assms(2) swap_rows_inventory [OF _ that]])
      (use assms(2) in \<open>simp_all add: swap_rows_def books_ok_def\<close>)
  ultimately show ?thesis using assms(2) write_compliance_books by blast
qed

text \<open>The forms on users and numbers.\<close>

lemma credit_books:
  assumes "books_ok d" "tbl_get (users d) uid = Some u" "l_user l = uid" "l_delta l = c"
  shows "books_ok (add_ledger l (d\<lparr>users := tbl_upd uid (\<lambda>v. v\<lparr>u_balance := u_balance u + c\<rparr>) (users d)\<rparr>))" (is "books_ok ?e")
proof -
  have b: "balance ?e v = (if v = uid then Some (u_balance u + c) else balance d v)" for v
    using assms(2) by simp (simp add: balance_def)
  have p: "posted ?e v = posted d v + (if v = uid then c else 0)" for v
    using assms(3,4) by (simp add: posted_cong [of "d\<lparr>users := _\<rparr>" d])
  have "ledger_ok ?e" using assms(1,2) unfolding books_ok_def ledger_ok_def b p by (auto simp: balance_def)
  moreover have "inventory_ok ?e" using assms(1) inventory_frame [of d ?e] by (simp add: books_ok_def)
  ultimately show ?thesis using assms(1) rates_frame [of d ?e] by (simp add: books_ok_def)
qed

lemma user_topup_books:
  assumes "user_topup flt uid amount d = (rep, e)" "books_ok d"
  shows "books_ok e"
  using assms by (auto simp: user_topup_def Let_def intro!: credit_books split: if_splits option.splits)

text \<open>A statement that rewrites number rows without touching a held one.\<close>

lemma inventory_upd_dids:
  assumes "inventory_ok d" "orders e = orders d" "dids e = tbl_upd_where P f (dids d)"
    and "\<And>n r. tbl_get (dids d) n = Some r \<Longrightarrow> P n r \<Longrightarrow> n \<notin> set (held_dids d)"
  shows "inventory_ok e"
proof -
  have "did_status_of e n = did_status_of d n" if "n \<in> set (held_dids d)" for n
    using assms(3) assms(4) [of n] that by (cases "tbl_get (dids d) n") (auto simp: did_status_of_def)
  with assms(1,2) show ?thesis by (simp add: inventory_ok_def held_cong [OF assms(2)])
qed

lemma did_reserve_books:
  assumes "did_reserve flt now admin n f d = (rep, e)" "books_ok d"
  shows "books_ok e"
proof -
  have i: "inventory_ok d" using assms(2) by (simp add: books_ok_def)
  let ?P = "\<lambda>j r. j = n \<and> d_status r = DidAvailable"
  have "e = d \<or> (\<exists>g. e = d\<lparr>dids := tbl_upd_where ?P g (dids d)\<rparr>)"
    using assms(1) by (auto simp: did_reserve_def Let_def split: if_splits option.splits sum.splits prod.splits)
  then show ?thesis
  proof (elim disjE exE)
    fix g assume e: "e = d\<lparr>dids := tbl_upd_where ?P g (dids d)\<rparr>"
    have "inventory_ok e"
      by (rule inventory_upd_dids [OF i, where P = ?P and f = g])
        (use available_free [OF i] in \<open>auto simp: e did_status_of_def\<close>)
    with assms(2) show ?thesis by (rule books_frame) (simp_all add: e)
  qed (simp add: assms(2))
qed

lemma did_release_books:
  assumes "did_release flt now admin n d = (rep, e)" "books_ok d"
  shows "books_ok e"
proof -
  have i: "inventory_ok d" using assms(2) by (simp add: books_ok_def)
  have "e = d \<or> (\<exists>h. did_status_of d n = Some DidReserved \<and> e = d\<lparr>dids := tbl_upd n released_row (dids d), res_history := h\<rparr>)"
    using assms(1) by (cases "tbl_get (dids d) n") (auto simp: did_release_def did_status_of_def split: if_splits)
  then show ?thesis
  proof (elim disjE exE conjE)
    fix h assume st: "did_status_of d n = Some DidReserved" and e: "e = d\<lparr>dids := tbl_upd n released_row (dids d), res_history := h\<rparr>"
    have "inventory_ok e"
      by (rule inventory_upd_dids [OF i, where P = "\<lambda>j _. j = n" and f = released_row])
        (use available_free [OF i st] in \<open>auto simp: e tbl_upd_def\<close>)
    with assms(2) show ?thesis by (rule books_frame) (simp_all add: e)
  qed (simp add: assms(2))
qed

lemma did_retire_books:
  assumes "did_retire flt n d = (rep, e)" "books_ok d" "n \<notin> set (held_dids d)"
  shows "books_ok e"
proof -
  have "e = d \<or> e = set_did_status DidRetired n d" using assms(1) by (auto simp: did_retire_def split: if_splits)
  moreover have "books_ok (set_did_status DidRetired n d)"
    by (rule books_frame [OF assms(2)]) (use assms(2,3) inventory_free_did in \<open>simp_all add: books_ok_def\<close>)
  ultimately show ?thesis using assms(2) by auto
qed

lemma insert_did_books:
  assumes "insert_did n sid c t cap d = (k, e)" "books_ok d"
  shows "books_ok e"
proof -
  have i: "inventory_ok d" using assms(2) by (simp add: books_ok_def)
  have "e = d \<or> (\<exists>r. e = d\<lparr>dids := tbl_insert r (dids d)\<rparr>)" using assms(1) by (auto simp: insert_did_def split: if_splits)
  then show ?thesis
  proof (elim disjE exE)
    fix r assume e: "e = d\<lparr>dids := tbl_insert r (dids d)\<rparr>"
    have "did_status_of e m = did_status_of d m" if "m \<in> set (held_dids d)" for m
    proof -
      have "m \<in> set (tbl_ids (dids d))"
        using i that tbl_get_None [of "dids d" m] by (auto simp: inventory_ok_def did_status_of_def)
      then show ?thesis using next_id_fresh [of m "dids d"] by (simp add: did_status_of_def e tbl_get_insert)
    qed
    then have "inventory_ok e" using i held_cong [of e d] by (simp add: inventory_ok_def e)
    with assms(2) show ?thesis by (rule books_frame) (simp_all add: e)
  qed (simp add: assms(2))
qed

text \<open>Blocking, KYC approval and the life of a user.\<close>

lemma user_status_books:
  assumes "books_ok d" "inventory_ok e" "ledger e = ledger d" "rate_cards e = rate_cards d"
    and "users e = tbl_upd_where P f (users d)" "\<And>u. u_balance (f u) = u_balance u"
  shows "books_ok e"
proof -
  have "balance e u = balance d u" for u by (cases "tbl_get (users d) u") (simp_all add: balance_def assms(5,6))
  then have "ledger_ok e" using ledger_ok_users [of d e] assms(1,3) by (simp add: books_ok_def)
  with assms(1,2,4) rates_frame [of d e] show ?thesis by (simp add: books_ok_def)
qed

lemma block_tx_books:
  assumes "block_tx flt old new st f row uid d = (rep, e)" "books_ok d"
    and "\<And>r. o_status r = st \<Longrightarrow> o_did (f r) = o_did r \<and> open_order (f r) = open_order r"
  shows "books_ok e"
proof (cases "rep = BlkDone")
  case True
  note e = block_tx_done(1) [OF assms(1) [unfolded True]]
  have "inventory_ok e"
    by (rule inventory_upd_orders [of d e "order_is st uid" f])
      (use assms(2,3) in \<open>auto simp: e books_ok_def order_is_def\<close>)
  with assms(2) show ?thesis
    by (rule user_status_books [where P = "user_is old uid" and f = "\<lambda>u. u\<lparr>u_status := new\<rparr>"]) (simp_all add: e)
next
  case False
  with block_tx_atomic [OF assms(1)] assms(2) show ?thesis by simp
qed

lemma user_block_books:
  assumes "user_block flt uid reason bundle admin d = (rep, e)" "books_ok d"
  shows "books_ok e"
proof -
  have "e = d \<or> (\<exists>row. block_tx flt ''active'' ''inactive'' OrdActive quarantine_order row uid d = (rep, e))"
    using assms(1) by (auto simp: user_block_def Let_def split: if_splits)
  then show ?thesis
    using block_tx_books [of flt "''active''" "''inactive''" OrdActive quarantine_order] assms(2)
    by (auto simp: quarantine_order_def open_order_def)
qed

lemma user_unblock_books:
  assumes "user_unblock flt uid reason admin d = (rep, e)" "books_ok d"
  shows "books_ok e"
  by (rule block_tx_books [OF assms(1) [unfolded user_unblock_def Let_def] assms(2)])
    (simp add: restore_order_def open_order_def)

lemma kyc_approve_books:
  assumes "kyc_approve f0 f1 f2 fc now bid admin d = (rep, e)" "books_ok d"
  shows "books_ok e"
proof -
  have "e = d \<or> (\<exists>bs. e = d\<lparr>kyc_bundles := bs, orders := tbl_upd_where (pending_of bid) (\<lambda>ord. ord\<lparr>o_status := OrdActive\<rparr>) (orders d)\<rparr>)"
    using assms(1) by (auto simp: kyc_approve_def approve_bundle_def Let_def split: if_splits)
  then show ?thesis
  proof (elim disjE exE)
    fix bs assume e: "e = d\<lparr>kyc_bundles := bs, orders := tbl_upd_where (pending_of bid) (\<lambda>ord. ord\<lparr>o_status := OrdActive\<rparr>) (orders d)\<rparr>"
    have "inventory_ok e"
      by (rule inventory_upd_orders [of d e "pending_of bid" "\<lambda>ord. ord\<lparr>o_status := OrdActive\<rparr>"])
        (use assms(2) in \<open>auto simp: e books_ok_def pending_of_def open_order_def\<close>)
    with assms(2) show ?thesis by (rule books_frame) (simp_all add: e)
  qed (simp add: assms(2))
qed

lemma new_user_books:
  assumes "books_ok d" "u_balance u = 0"
  shows "books_ok (d\<lparr>users := tbl_insert u (users d)\<rparr>)" (is "books_ok ?e")
proof -
  have "balance d (next_id (users d)) = None"
    using next_id_notin [of "users d"] by (simp add: balance_def tbl_get_None)
  then have "posted d (next_id (users d)) = 0" using assms(1) by (simp add: books_ok_def ledger_ok_def)
  then have "ledger_ok ?e"
    using assms posted_cong [of ?e d] by (auto simp: books_ok_def ledger_ok_def balance_def tbl_get_insert)
  moreover have "inventory_ok ?e" using assms(1) inventory_frame [of d ?e] by (simp add: books_ok_def)
  ultimately show ?thesis using assms(1) rates_frame [of d ?e] by (simp add: books_ok_def)
qed

lemma user_create_books:
  assumes "user_create fails form d = (rep, e)" "books_ok d"
  shows "books_ok e"
proof -
  have "e = d \<or> (\<exists>u. u_balance u = 0 \<and> e = d\<lparr>users := tbl_insert u (users d)\<rparr>)"
    using assms(1) by (force simp: user_create_def Let_def split: if_splits option.splits)
  then show ?thesis using assms(2) new_user_books by blast
qed

lemma user_update_books:
  assumes "user_update fails uid f d = (rep, e)" "books_ok d"
  shows "books_ok e"
proof -
  have "e = d \<or> e = d\<lparr>users := tbl_upd uid (edited_user f) (users d)\<rparr>"
    using assms(1) by (auto simp: user_update_def Let_def split: if_splits)
  moreover have "books_ok (d\<lparr>users := tbl_upd uid (edited_user f) (users d)\<rparr>)"
    by (rule user_status_books [OF assms(2), where P = "\<lambda>j _. j = uid" and f = "edited_user f"])
      (use assms(2) inventory_frame in \<open>auto simp: tbl_upd_def edited_user_def books_ok_def\<close>)
  ultimately show ?thesis using assms(2) by auto
qed

lemma cancel_orders_none:
  assumes "\<not> user_has_orders uid d"
  shows "cancel_orders now uid d = d"
proof -
  have n: "\<not> (o_user r = uid \<and> open_order r)" if "(k, r) \<in> set (orders d)" for k r
    using assms that by (auto simp: user_has_orders_def list_ex_iff)
  then have f: "filter (\<lambda>(k, r). o_user r = uid \<and> open_order r) (orders d) = []" by (auto simp: filter_empty_conv)
  have "tbl_upd_where (\<lambda>_ r. o_user r = uid \<and> open_order r) (cancel_row now) (orders d) = orders d"
    unfolding tbl_upd_where_def by (rule map_idI) (use n in auto)
  with f show ?thesis by (simp add: cancel_orders_def Let_def)
qed

lemma cancel_orders_users:
  "map (\<lambda>(k, r). (k, o_user r)) (orders (cancel_orders now uid d)) = map (\<lambda>(k, r). (k, o_user r)) (orders d)"
proof -
  have "orders (fold (set_did_status DidAvailable) ns e) = orders e" for ns e
    by (induction ns arbitrary: e) simp_all
  then show ?thesis by (auto simp: cancel_orders_def Let_def tbl_upd_where_def cancel_row_def)
qed

lemma user_has_orders_cancel: "user_has_orders uid (cancel_orders now v d) = user_has_orders uid d"
proof -
  have "user_has_orders uid e \<longleftrightarrow> uid \<in> snd ` set (map (\<lambda>(k, r). (k, o_user r)) (orders e))" for e
    by (force simp: user_has_orders_def list_ex_iff)
  then show ?thesis by (simp only: cancel_orders_users)
qed

lemma delete_user_rows_books:
  assumes "books_ok d"
  shows "books_ok (delete_user_rows uid d)"
proof -
  let ?e = "delete_user_rows uid d"
  have "tbl_get (filter (\<lambda>(k, u). k \<noteq> uid) t) v = (if v = uid then None else tbl_get t v)" for v and t :: "user_row table"
    unfolding tbl_get_def by (induction t) auto
  then have b: "balance ?e v = (if v = uid then None else balance d v)" for v
    by (simp add: balance_def delete_user_rows_def Let_def)
  have p: "posted ?e v = (if v = uid then 0 else posted d v)" for v
  proof -
    have "filter (\<lambda>l. l_user l \<noteq> uid \<and> l_user l = v) (ledger d) = (if v = uid then [] else filter (\<lambda>l. l_user l = v) (ledger d))"
      by (auto simp: filter_empty_conv intro: filter_cong)
    then show ?thesis by (simp add: posted_def delete_user_rows_def Let_def)
  qed
  have "ledger_ok ?e" using assms by (auto simp: books_ok_def ledger_ok_def b p)
  moreover have "inventory_ok ?e"
    by (rule inventory_upd_orders [of d ?e "\<lambda>_ r. case o_kyc r of None \<Rightarrow> False | Some b \<Rightarrow> b \<in> user_bundles uid d" "\<lambda>r. r\<lparr>o_kyc := None\<rparr>"])
      (use assms in \<open>auto simp: books_ok_def delete_user_rows_def Let_def open_order_def\<close>)
  ultimately show ?thesis using assms rates_frame [of d ?e] by (simp add: books_ok_def delete_user_rows_def Let_def)
qed

lemma user_delete_books:
  assumes "user_delete flt now uid confirm s = (rep, t)" "books_ok (ky_db s)"
  shows "books_ok (ky_db t)"
proof -
  have "t = s \<or> \<not> user_has_orders uid (cancel_orders now uid (ky_db s)) \<and>
      ky_db t = delete_user_rows uid (cancel_orders now uid (ky_db s))"
    using assms(1) by (auto simp: user_delete_def Let_def split: if_splits)
  then show ?thesis
    using assms(2) delete_user_rows_books cancel_orders_none by (auto simp: user_has_orders_cancel)
qed

text \<open>Rate cards: every statement passes the CHECK constraints.\<close>

lemma rates_books:
  assumes "books_ok d" "e = d\<lparr>rate_cards := t\<rparr>"
    "\<And>k r. tbl_get t k = Some r \<Longrightarrow> tbl_get (rate_cards d) k = Some r \<or> rate_checks r \<or>
      (\<exists>q x. tbl_get (rate_cards d) k = Some q \<and> r = q\<lparr>r_valid_to := x\<rparr>)"
  shows "books_ok e"
proof -
  have "inventory_ok e" "ledger_ok e"
    using assms(1,2) inventory_frame [of d e] ledger_ok_frame [of d e] by (simp_all add: books_ok_def)
  moreover have "rates_ok e"
    using assms(1,2) assms(3) by (fastforce simp: books_ok_def rates_ok_def rate_checks_def price_ok_def)
  ultimately show ?thesis by (simp add: books_ok_def)
qed

lemma insert_rate_books: "insert_rate fails env sid c ty v d = Some e \<Longrightarrow> books_ok d \<Longrightarrow> books_ok e"
  by (elim insert_rate_Some) (rule rates_books, assumption+, auto simp: tbl_get_insert split: if_splits)

lemma rate_card_create_books:
  "rate_card_create cf fails env sid f d = (rep, e) \<Longrightarrow> books_ok d \<Longrightarrow> books_ok e"
  by (auto simp: rate_card_create_def Let_def split: if_splits option.splits intro: insert_rate_books)

lemma bulk_rows_books: "bulk_rows flt env sid i rows d = Inr e \<Longrightarrow> books_ok d \<Longrightarrow> books_ok e"
  by (induction rows arbitrary: i d) (auto simp: Let_def split: if_splits option.splits intro: insert_rate_books)

lemma rate_card_bulk_books:
  "rate_card_create_bulk bf cf flt env sid body d = (rep, e) \<Longrightarrow> books_ok d \<Longrightarrow> books_ok e"
  by (auto simp: rate_card_create_bulk_def split: if_splits option.splits sum.splits intro: bulk_rows_books)

lemma rate_card_update_books:
  assumes "rate_card_update lf fails env rid form d = (rep, e)" "books_ok d"
  shows "books_ok e"
proof -
  have "e = d \<or> (\<exists>q. rate_checks q \<and> e = d\<lparr>rate_cards := tbl_upd rid (\<lambda>_. q) (rate_cards d)\<rparr>)"
    using assms(1) by (auto simp: rate_card_update_def Let_def split: if_splits option.splits)
  then show ?thesis
  proof (elim disjE exE conjE)
    fix q assume "rate_checks q" "e = d\<lparr>rate_cards := tbl_upd rid (\<lambda>_. q) (rate_cards d)\<rparr>"
    then show ?thesis by (intro rates_books [OF assms(2)]) (auto split: if_splits)
  qed (simp add: assms(2))
qed

lemma rate_card_expire_books:
  assumes "books_ok d"
  shows "books_ok (rate_card_expire fails now rid d)"
proof (cases fails)
  case False
  then show ?thesis
    by (intro rates_books [OF assms]) (auto simp: rate_card_expire_def split: if_splits, blast)
qed (simp add: rate_card_expire_def assms)

lemma submit_loop_books:
  "submit_loop bad sid c ty cap n end' k d = Some r \<Longrightarrow> books_ok d \<longrightarrow> (\<forall>j e. r = Some (j, e) \<longrightarrow> books_ok e)"
proof (induction rule: submit_loop.raw_induct [rotated, consumes 1, case_names 1])
  case (1 rl bad sid c ty cap n end' k d r)
  show ?case
  proof (cases "n \<le> end' \<and> \<not> bad n")
    case True
    with 1(2) have "rl bad sid c ty cap (wrap64 (n + 1)) end' (Suc k) (snd (insert_did (itoa n) sid c ty cap d)) = Some r" by simp
    from 1(1) [OF this] show ?thesis using insert_did_books [OF prod.collapse [symmetric]] by blast
  next
    case False
    with 1(2) show ?thesis by (auto split: if_splits)
  qed
qed

lemma submit_books:
  "did_import_submit bf cf bad f d = Some (rep, e) \<Longrightarrow> books_ok d \<Longrightarrow> books_ok e"
  by (auto simp: did_import_submit_def split: if_splits option.splits sum.splits prod.splits dest: submit_loop_books)

end
