(* ===== verification/Go_Md5.thy ===== *)
theory Go_Md5
  imports Go_Strings "HOL-Library.Word"
begin

text \<open>
  Go's \<open>crypto/md5\<close> and \<open>encoding/hex\<close>, which make the digest secrets of the SIP accounts
  (RFC 1321): four 32-bit words, sixty-four rounds per block of sixty-four bytes.
\<close>

unbundle bit_operations_syntax

type_synonym w32 = "32 word"

definition md5_shift :: "nat list" where
  "md5_shift = concat (replicate 4 [7, 12, 17, 22]) @ concat (replicate 4 [5, 9, 14, 20]) @
     concat (replicate 4 [4, 11, 16, 23]) @ concat (replicate 4 [6, 10, 15, 21])"

text \<open>The table of \<open>\<lfloor>2 ^ 32 * |sin (i + 1)|\<rfloor>\<close>.\<close>

definition md5_table :: "w32 list" where
  "md5_table =
    [0xd76aa478, 0xe8c7b756, 0x242070db, 0xc1bdceee, 0xf57c0faf, 0x4787c62a, 0xa8304613, 0xfd469501,
     0x698098d8, 0x8b44f7af, 0xffff5bb1, 0x895cd7be, 0x6b901122, 0xfd987193, 0xa679438e, 0x49b40821,
     0xf61e2562, 0xc040b340, 0x265e5a51, 0xe9b6c7aa, 0xd62f105d, 0x02441453, 0xd8a1e681, 0xe7d3fbc8,
     0x21e1cde6, 0xc33707d6, 0xf4d50d87, 0x455a14ed, 0xa9e3e905, 0xfcefa3f8, 0x676f02d9, 0x8d2a4c8a,
     0xfffa3942, 0x8771f681, 0x6d9d6122, 0xfde5380c, 0xa4beea44, 0x4bdecfa9, 0xf6bb4b60, 0xbebfbc70,
     0x289b7ec6, 0xeaa127fa, 0xd4ef3085, 0x04881d05, 0xd9d4d039, 0xe6db99e5, 0x1fa27cf8, 0xc4ac5665,
     0xf4292244, 0x432aff97, 0xab9423a7, 0xfc93a039, 0x655b59c3, 0x8f0ccc92, 0xffeff47d, 0x85845dd1,
     0x6fa87e4f, 0xfe2ce6e0, 0xa3014314, 0x4e0811a1, 0xf7537e82, 0xbd3af235, 0x2ad7d2bb, 0xeb86d391]"

text \<open>The padded message: 0x80, zeros up to 56 modulo 64, the length in bits, low byte first.\<close>

definition le_bytes :: "nat \<Rightarrow> nat \<Rightarrow> nat list" where
  "le_bytes k n = map (\<lambda>i. n div 256 ^ i mod 256) [0..<k]"

definition md5_pad :: "nat list \<Rightarrow> nat list" where
  "md5_pad bs = bs @ 128 # replicate ((119 - length bs mod 64) mod 64) 0 @ le_bytes 8 (8 * length bs)"

fun le_words :: "nat list \<Rightarrow> w32 list" where
  "le_words (a # b # c # d # r) = of_nat (a + 256 * b + 65536 * c + 16777216 * d) # le_words r"
| "le_words _ = []"

definition md5_round :: "w32 list \<Rightarrow> nat \<Rightarrow> w32 \<times> w32 \<times> w32 \<times> w32 \<Rightarrow> w32 \<times> w32 \<times> w32 \<times> w32" where
  "md5_round m i = (\<lambda>(a, b, c, d).
     (let (f, g) =
        (if i < 16 then ((b AND c) OR (NOT b AND d), i)
         else if i < 32 then ((d AND b) OR (NOT d AND c), (5 * i + 1) mod 16)
         else if i < 48 then (b XOR c XOR d, (3 * i + 5) mod 16)
         else (c XOR (b OR NOT d), (7 * i) mod 16))
      in (d, b + word_rotl (md5_shift ! i) (a + f + md5_table ! i + m ! g), b, c)))"

definition md5_block :: "w32 list \<Rightarrow> w32 \<times> w32 \<times> w32 \<times> w32 \<Rightarrow> w32 \<times> w32 \<times> w32 \<times> w32" where
  "md5_block m = (\<lambda>(a, b, c, d).
     (case fold (md5_round m) [0..<64] (a, b, c, d) of (a', b', c', d') \<Rightarrow> (a + a', b + b', c + c', d + d')))"

fun md5_blocks :: "nat \<Rightarrow> w32 list \<Rightarrow> w32 \<times> w32 \<times> w32 \<times> w32 \<Rightarrow> w32 \<times> w32 \<times> w32 \<times> w32" where
  "md5_blocks 0 ws st = st"
| "md5_blocks (Suc n) ws st = md5_blocks n (drop 16 ws) (md5_block (take 16 ws) st)"

definition md5_sum :: "string \<Rightarrow> nat list" where
  "md5_sum s =
     (let ws = le_words (md5_pad (map byte_val s)) in
      case md5_blocks (length ws div 16) ws (0x67452301, 0xefcdab89, 0x98badcfe, 0x10325476) of
        (a, b, c, d) \<Rightarrow> concat (map (\<lambda>w. le_bytes 4 (unat w)) [a, b, c, d]))"

definition hex_nibble :: "nat \<Rightarrow> char" where
  "hex_nibble n = (if n < 10 then char_of (48 + n) else char_of (87 + n))"

definition hex_string :: "nat list \<Rightarrow> string" where
  "hex_string bs = concat (map (\<lambda>b. [hex_nibble (b div 16), hex_nibble (b mod 16)]) bs)"

definition md5_hex :: "string \<Rightarrow> string" where
  "md5_hex s = hex_string (md5_sum s)"

end
