(* ===== verification/Accounts.thy ===== *)
theory Accounts
  imports Orders Go_Md5
begin

text \<open>
  Resellers, their API keys and the SIP accounts of users in \<open>web/crud.go\<close> (resellerCreate,
  resellerUpdate, resellerDelete, apiKeyCreate, apiKeyRevoke, sipAccountCreate,
  sipAccountDelete) and the bearer check of \<open>internal/resellerapi\<close>. bcrypt is an argument.
\<close>

subsection \<open>Resellers\<close>

record reseller_form =
  rsf_name :: string
  rsf_brand :: string
  rsf_host :: string
  rsf_status :: string

text \<open>The unique columns; NULL host names do not collide.\<close>

definition resellers_unique :: "reseller_row table \<Rightarrow> bool" where
  "resellers_unique t \<longleftrightarrow>
     distinct (map (\<lambda>(k, r). rs_name r) t) \<and> distinct (map (\<lambda>(k, r). rs_host r) (filter (\<lambda>(k, r). rs_host r \<noteq> None) t))"

datatype reseller_reply = RslBadForm | RslNameless | RslInUse nat | RslBegin | RslFailed | RslNotFound | RslSaved

definition reseller_create :: "bool \<Rightarrow> reseller_form \<Rightarrow> db \<Rightarrow> reseller_reply \<times> db" where
  "reseller_create fails f d =
     (let name = trim_space (rsf_name f);
          t = tbl_insert \<lparr>rs_name = name, rs_brand = text_field (rsf_brand f), rs_host = text_field (rsf_host f), rs_status = ''active''\<rparr> (resellers d) in
      if name = [] then (RslNameless, d)
      else if fails \<or> \<not> resellers_unique t then (RslFailed, d)
      else (RslSaved, d\<lparr>resellers := t\<rparr>))"

definition reseller_update :: "bool \<Rightarrow> db_id \<Rightarrow> reseller_form option \<Rightarrow> db \<Rightarrow> reseller_reply \<times> db" where
  "reseller_update fails rid form d =
     (case form of
        None \<Rightarrow> (RslBadForm, d)
      | Some f \<Rightarrow>
          let name = trim_space (rsf_name f);
              t = tbl_upd rid (\<lambda>_. \<lparr>rs_name = name, rs_brand = text_field (rsf_brand f), rs_host = text_field (rsf_host f),
                    rs_status = nonempty (rsf_status f) ''active''\<rparr>) (resellers d) in
          if name = [] then (RslNameless, d)
          else if fails \<or> \<not> resellers_unique t then (RslFailed, d)
          else if tbl_get (resellers d) rid = None then (RslNotFound, d)
          else (RslSaved, d\<lparr>resellers := t\<rparr>))"

text \<open>
  An error of the count is dropped; the foreign key of a user then falls back to NULL, and the
  remaining keys go with the reseller.
\<close>

definition users_of_reseller :: "db_id \<Rightarrow> db \<Rightarrow> nat" where
  "users_of_reseller rid d = affected (\<lambda>_ u. u_reseller u = Some rid) (users d)"

definition delete_reseller_rows :: "db_id \<Rightarrow> db \<Rightarrow> db" where
  "delete_reseller_rows rid d =
     d\<lparr>resellers := filter (\<lambda>(k, r). k \<noteq> rid) (resellers d),
       api_keys := filter (\<lambda>(k, a). ak_reseller a \<noteq> Some rid) (api_keys d),
       users := tbl_upd_where (\<lambda>_ u. u_reseller u = Some rid) (\<lambda>u. u\<lparr>u_reseller := None\<rparr>) (users d)\<rparr>"

definition reseller_delete :: "office_faults \<Rightarrow> db_id \<Rightarrow> db \<Rightarrow> reseller_reply \<times> db" where
  "reseller_delete flt rid d =
     (let n = (if flt StmCount then 0 else users_of_reseller rid d) in
      if 0 < n then (RslInUse n, d)
      else if flt StmBegin then (RslBegin, d)
      else if flt StmRelease \<or> flt StmDelete then (RslFailed, d)
      else if tbl_get (resellers d) rid = None then (RslNotFound, d)
      else if flt StmCommit then (RslFailed, d)
      else (RslSaved, delete_reseller_rows rid d))"

subsection \<open>API keys\<close>

text \<open>\<open>genSecret\<close>: random bytes in hexadecimal.\<close>

definition gen_secret :: "nat list \<Rightarrow> string" where
  "gen_secret bs = hex_string bs"

text \<open>
  \<open>apiKeyCreate\<close>: the name and the secret shown once. \<open>hash\<close> stands for bcrypt with its salt,
  \<open>stamp\<close> for the name made from the clock.
\<close>

definition api_key_create ::
  "bool \<Rightarrow> (string \<Rightarrow> string) \<Rightarrow> nat list \<Rightarrow> string \<Rightarrow> db_id \<Rightarrow> string \<Rightarrow> db \<Rightarrow> (string \<times> string) option \<times> db" where
  "api_key_create fails hash bytes stamp rid field d =
     (let t = trim_space field; name = (if t = [] then stamp else t); secret = gen_secret bytes; h = hash secret in
      if fails \<or> tbl_get (resellers d) rid = None \<or> list_ex (\<lambda>(k, a). ak_hash a = h) (api_keys d) then (None, d)
      else (Some (name, secret),
            d\<lparr>api_keys := tbl_insert \<lparr>ak_reseller = Some rid, ak_name = name, ak_hash = h, ak_revoked = False\<rparr> (api_keys d)\<rparr>))"

definition api_key_revoke :: "bool \<Rightarrow> db_id \<Rightarrow> db \<Rightarrow> bool \<times> db" where
  "api_key_revoke fails kid d =
     (if fails then (False, d)
      else (True, d\<lparr>api_keys := tbl_upd_where (\<lambda>k a. k = kid \<and> \<not> ak_revoked a) (\<lambda>a. a\<lparr>ak_revoked := True\<rparr>) (api_keys d)\<rparr>))"

text \<open>The bearer check: the reseller of the first key in use whose hash matches, or a status code.\<close>

definition bearer_token :: "string \<Rightarrow> string" where
  "bearer_token h = (if has_prefix h ''Bearer '' then trim_space (drop 7 h) else [])"

definition bearer_auth :: "(string \<Rightarrow> string \<Rightarrow> bool) \<Rightarrow> bool \<Rightarrow> string \<Rightarrow> db \<Rightarrow> int + db_id" where
  "bearer_auth compare fails header d =
     (let secret = bearer_token header in
      if secret = [] then Inl 401
      else if fails then Inl 500
      else case List.find (\<lambda>(k, a). \<not> ak_revoked a \<and> ak_reseller a \<noteq> None \<and> compare (ak_hash a) secret) (api_keys d) of
        None \<Rightarrow> Inl 401
      | Some (k, a) \<Rightarrow> (case ak_reseller a of None \<Rightarrow> Inl 401 | Some rid \<Rightarrow> Inr rid))"

subsection \<open>SIP accounts\<close>

definition sip_realm :: string where "sip_realm = ''didstorage.local''"

definition ha1 :: "string \<Rightarrow> string \<Rightarrow> string \<Rightarrow> string" where
  "ha1 user realm pass = md5_hex (user @ '':'' @ realm @ '':'' @ pass)"

definition reserved_web_names :: "string list" where
  "reserved_web_names =
     [''outbound'', ''anonymous'', ''global'', ''system'', ''transport-udp'', ''transport-tcp'', ''transport-tls'',
      ''globetelecom'', ''globetelecom-aor'', ''globetelecom-id'']"

definition endpoint_suffix :: "string \<Rightarrow> bool" where
  "endpoint_suffix s \<longleftrightarrow> suffix ''-auth'' s \<or> suffix ''-aor'' s"

datatype peer_reply = PeerMissing | PeerBadName | PeerReserved | PeerTaken | PeerFailed | PeerSaved

definition peer_taken :: "string \<Rightarrow> db \<Rightarrow> bool" where
  "peer_taken name d \<longleftrightarrow> list_ex (\<lambda>(k, a). sa_username a = name \<and> sa_realm a = sip_realm) (sip_accounts d)"

definition add_peer :: "db_id \<Rightarrow> string \<Rightarrow> string \<Rightarrow> db \<Rightarrow> db" where
  "add_peer uid name pass d =
     d\<lparr>sip_accounts := tbl_insert \<lparr>sa_user = uid, sa_username = name, sa_realm = sip_realm, sa_ha1 = ha1 name sip_realm pass\<rparr> (sip_accounts d)\<rparr>"

definition sip_account_create :: "bool \<Rightarrow> db_id \<Rightarrow> string \<Rightarrow> string \<Rightarrow> db \<Rightarrow> peer_reply \<times> db" where
  "sip_account_create fails uid name0 pass d =
     (let name = trim_space name0 in
      if name = [] \<or> length pass < 6 then (PeerMissing, d)
      else if \<not> is_valid_sip_username name then (PeerBadName, d)
      else if to_lower name \<in> set reserved_web_names \<or> endpoint_suffix name then (PeerReserved, d)
      else if fails \<or> tbl_get (users d) uid = None \<or> peer_taken name d then (PeerFailed, d)
      else (PeerSaved, add_peer uid name pass d))"

definition drop_peer :: "db_id \<Rightarrow> db_id \<Rightarrow> db \<Rightarrow> db" where
  "drop_peer uid said d = d\<lparr>sip_accounts := filter (\<lambda>(k, a). \<not> (k = said \<and> sa_user a = uid)) (sip_accounts d)\<rparr>"

definition sip_account_delete :: "bool \<Rightarrow> db_id \<Rightarrow> db_id \<Rightarrow> db \<Rightarrow> bool \<times> db" where
  "sip_account_delete fails uid said d = (if fails then (False, d) else (True, drop_peer uid said d))"

end
