(* ===== verification/Reseller_Api.thy ===== *)
theory Reseller_Api
  imports Accounts Livecalls Causes "HOL-Library.List_Lexorder"
begin

text \<open>
  The JSON API of the resellers (\<open>internal/resellerapi\<close>): every request names the reseller
  \<open>rid\<close> its key belongs to. A reply is a status code with the decoded body; a request is given
  as its decoded fields, \<open>None\<close> when the body does not decode. Creation times of rows and the
  text format of times are left out.
\<close>

datatype 'a api = ApiErr int | ApiOk int 'a

text \<open>\<open>userBelongsToReseller\<close>: the status code to refuse with, if any.\<close>

definition user_belongs :: "bool \<Rightarrow> db_id \<Rightarrow> db_id \<Rightarrow> db \<Rightarrow> int option" where
  "user_belongs fails rid uid d =
     (if fails then Some 500
      else case tbl_get (users d) uid of
        None \<Rightarrow> Some 404
      | Some u \<Rightarrow> if u_reseller u \<noteq> Some rid then Some 403 else None)"

definition under :: "db_id \<Rightarrow> db \<Rightarrow> db_id \<Rightarrow> bool" where
  "under rid d uid \<longleftrightarrow> (case tbl_get (users d) uid of None \<Rightarrow> False | Some u \<Rightarrow> u_reseller u = Some rid)"

text \<open>\<open>ORDER BY id DESC\<close>.\<close>

definition newest_first :: "'r table \<Rightarrow> 'r table" where
  "newest_first t = rev (sort_key fst t)"

text \<open>A \<open>limit\<close> parameter within 1 to \<open>hi\<close>, the default otherwise.\<close>

definition api_limit :: "string \<Rightarrow> int \<Rightarrow> nat \<Rightarrow> nat" where
  "api_limit v hi dflt = (let n = atoi64 v in if v \<noteq> [] \<and> 0 < n \<and> n \<le> hi then nat n else dflt)"

subsection \<open>Users\<close>

record user_out =
  uo_id :: db_id
  uo_external :: "string option"
  uo_label :: "string option"
  uo_contact :: "string option"
  uo_status :: string
  uo_balance :: cents
  uo_cap :: int
  uo_active :: nat

definition user_view :: "db \<Rightarrow> db_id \<times> user_row \<Rightarrow> user_out" where
  "user_view d = (\<lambda>(k, u).
     \<lparr>uo_id = k, uo_external = u_external u, uo_label = u_label u, uo_contact = u_contact u, uo_status = u_status u,
      uo_balance = u_balance u, uo_cap = u_cap u,
      uo_active = affected (\<lambda>_ r. o_user r = k \<and> o_status r = OrdActive) (orders d)\<rparr>)"

definition api_list_users :: "bool \<Rightarrow> db_id \<Rightarrow> db \<Rightarrow> user_out list api" where
  "api_list_users fails rid d =
     (if fails then ApiErr 500
      else ApiOk 200 (map (user_view d) (take 500 (newest_first (filter (\<lambda>(k, u). u_reseller u = Some rid) (users d))))))"

definition api_get_user :: "bool \<Rightarrow> db_id \<Rightarrow> string \<Rightarrow> db \<Rightarrow> user_out api" where
  "api_get_user fails rid id_text d =
     (if fails then ApiErr 500
      else case tbl_find (\<lambda>k u. k = atoi64 id_text \<and> u_reseller u = Some rid) (users d) of
        None \<Rightarrow> ApiErr 404
      | Some x \<Rightarrow> ApiOk 200 (user_view d x))"

definition api_user_by_external :: "bool \<Rightarrow> db_id \<Rightarrow> string \<Rightarrow> db \<Rightarrow> user_out api" where
  "api_user_by_external fails rid ext d =
     (if fails then ApiErr 500
      else case tbl_find (\<lambda>k u. u_external u = Some ext \<and> u_reseller u = Some rid) (users d) of
        None \<Rightarrow> ApiErr 404
      | Some x \<Rightarrow> ApiOk 200 (user_view d x))"

record new_user =
  nu_external :: string
  nu_label :: string
  nu_contact :: string
  nu_cap :: "int option"

text \<open>A cap that is left out is written as NULL, which the column refuses.\<close>

definition api_create_user :: "bool \<Rightarrow> db_id \<Rightarrow> new_user option \<Rightarrow> db \<Rightarrow> (db_id \<times> string) api \<times> db" where
  "api_create_user fails rid body d =
     (case body of
        None \<Rightarrow> (ApiErr 400, d)
      | Some q \<Rightarrow>
          let ext = trim_space (nu_external q);
              opt = (\<lambda>s. if s = [] then None else Some s) in
          if ext = [] then (ApiErr 400, d)
          else case nu_cap q of
            None \<Rightarrow> (ApiErr 400, d)
          | Some cap \<Rightarrow>
              let us = tbl_insert \<lparr>u_balance = 0, u_cap = cap, u_status = ''active'', u_reseller = Some rid, u_external = Some ext,
                         u_label = opt (nu_label q), u_contact = opt (nu_contact q)\<rparr> (users d) in
              if fails \<or> cap < - int4_max - 1 \<or> int4_max < cap \<or> \<not> external_ids_unique us \<or> tbl_get (resellers d) rid = None
              then (ApiErr 400, d)
              else (ApiOk 201 (next_id (users d), ext), d\<lparr>users := us\<rparr>))"

definition api_topup :: "office_faults \<Rightarrow> db_id \<Rightarrow> string \<Rightarrow> int option \<Rightarrow> db \<Rightarrow> cents api \<times> db" where
  "api_topup flt rid id_text body d =
     (let uid = atoi64 id_text in
      case body of
        None \<Rightarrow> (ApiErr 400, d)
      | Some cents \<Rightarrow>
          if cents \<le> 0 then (ApiErr 400, d)
          else if flt StmBegin \<or> flt StmDebit then (ApiErr 500, d)
          else case tbl_get (users d) uid of
            None \<Rightarrow> (ApiErr 404, d)
          | Some u \<Rightarrow>
              let bal = u_balance u + cents in
              if u_reseller u \<noteq> Some rid then (ApiErr 404, d)
              else if 2 ^ 63 \<le> bal \<or> flt StmPost \<or> flt StmCommit then (ApiErr 500, d)
              else (ApiOk 200 bal,
                    add_ledger \<lparr>l_user = uid, l_delta = cents, l_kind = LedgerTopup, l_ref_table = [], l_ref_id = None, l_after = bal\<rparr>
                      (d\<lparr>users := tbl_upd uid (\<lambda>u. u\<lparr>u_balance := bal\<rparr>) (users d)\<rparr>)))"

record ledger_out =
  lo_delta :: cents
  lo_kind :: ledger_kind
  lo_after :: cents
  lo_table :: string
  lo_ref :: db_id
  lo_call :: string
  lo_order :: db_id

text \<open>No code refers to a billing run from the ledger.\<close>

definition ledger_view :: "db \<Rightarrow> ledger_row \<Rightarrow> ledger_out" where
  "ledger_view d l =
     (let ref = (case l_ref_id l of None \<Rightarrow> 0 | Some i \<Rightarrow> i);
          cdr = (if l_ref_table l = ''cdrs'' then tbl_get (cdrs d) ref else None) in
      \<lparr>lo_delta = l_delta l, lo_kind = l_kind l, lo_after = l_after l, lo_table = l_ref_table l, lo_ref = ref,
       lo_call = (case cdr of None \<Rightarrow> [] | Some c \<Rightarrow> sanitize_call_id (c_call_id c)),
       lo_order = (if l_ref_table l = ''orders'' then ref
                   else case cdr of None \<Rightarrow> 0 | Some c \<Rightarrow> (case c_order c of None \<Rightarrow> 0 | Some i \<Rightarrow> i))\<rparr>)"

definition api_user_ledger :: "bool \<Rightarrow> bool \<Rightarrow> db_id \<Rightarrow> string \<Rightarrow> string \<Rightarrow> db \<Rightarrow> ledger_out list api" where
  "api_user_ledger own_fails fails rid id_text limit d =
     (let uid = atoi64 id_text in
      case user_belongs own_fails rid uid d of
        Some c \<Rightarrow> ApiErr c
      | None \<Rightarrow>
          if fails then ApiErr 500
          else ApiOk 200 (map (ledger_view d) (take (api_limit limit 1000 100) (rev (filter (\<lambda>l. l_user l = uid) (ledger d))))))"

subsection \<open>SIP accounts\<close>

definition reserved_api_names :: "string list" where
  "reserved_api_names =
     [''global'', ''system'', ''general'', ''default'', ''anonymous'', ''outbound'', ''transport-udp'', ''transport-tcp'',
      ''supplier-trunk'', ''from-account'', ''from-supplier'', ''hangup-handler'', ''admin-actions'']"

definition valid_api_username :: "string \<Rightarrow> bool" where
  "valid_api_username s \<longleftrightarrow>
     s \<noteq> [] \<and> length s \<le> 32 \<and> to_lower s \<notin> set reserved_api_names \<and> \<not> endpoint_suffix s \<and> list_all username_byte s"

definition api_list_peers :: "bool \<Rightarrow> bool \<Rightarrow> db_id \<Rightarrow> string \<Rightarrow> db \<Rightarrow> (db_id \<times> db_id \<times> string \<times> string) list api" where
  "api_list_peers own_fails fails rid id_text d =
     (let uid = atoi64 id_text in
      case user_belongs own_fails rid uid d of
        Some c \<Rightarrow> ApiErr c
      | None \<Rightarrow>
          if fails then ApiErr 500
          else ApiOk 200 (map (\<lambda>(k, a). (k, sa_user a, sa_username a, sa_realm a))
                 (newest_first (filter (\<lambda>(k, a). sa_user a = uid) (sip_accounts d)))))"

definition api_create_peer :: "bool \<Rightarrow> bool \<Rightarrow> db_id \<Rightarrow> string \<Rightarrow> (string \<times> string) option \<Rightarrow> db \<Rightarrow> (db_id \<times> string) api \<times> db" where
  "api_create_peer own_fails fails rid id_text body d =
     (let uid = atoi64 id_text in
      case user_belongs own_fails rid uid d of
        Some c \<Rightarrow> (ApiErr c, d)
      | None \<Rightarrow>
          (case body of
             None \<Rightarrow> (ApiErr 400, d)
           | Some (name0, pass) \<Rightarrow>
               let name = trim_space name0 in
               if \<not> valid_api_username name \<or> length pass < 8 then (ApiErr 400, d)
               else if fails then (ApiErr 500, d)
               else if peer_taken name d then (ApiErr 409, d)
               else (ApiOk 201 (next_id (sip_accounts d), name), add_peer uid name pass d)))"

definition api_delete_peer :: "bool \<Rightarrow> bool \<Rightarrow> db_id \<Rightarrow> string \<Rightarrow> string \<Rightarrow> db \<Rightarrow> unit api \<times> db" where
  "api_delete_peer own_fails fails rid id_text said_text d =
     (let uid = atoi64 id_text; said = atoi64 said_text in
      case user_belongs own_fails rid uid d of
        Some c \<Rightarrow> (ApiErr c, d)
      | None \<Rightarrow>
          if fails then (ApiErr 500, d)
          else if affected (\<lambda>k a. k = said \<and> sa_user a = uid) (sip_accounts d) = 0 then (ApiErr 404, d)
          else (ApiOk 200 (), drop_peer uid said d))"

subsection \<open>Orders\<close>

record order_out =
  oo_id :: db_id
  oo_user :: db_id
  oo_did :: db_id
  oo_e164 :: string
  oo_status :: order_status
  oo_channels :: int
  oo_kind :: route_kind
  oo_target :: string
  oo_next :: utc_time
  oo_kyc :: "db_id option"
  oo_kyc_status :: "kyc_status option"

text \<open>A row of \<open>orders JOIN dids JOIN users\<close> for the users of a reseller.\<close>

definition order_view :: "db_id \<Rightarrow> db \<Rightarrow> db_id \<times> order_row \<Rightarrow> order_out option" where
  "order_view rid d = (\<lambda>(k, r).
     (case tbl_get (dids d) (o_did r) of
        None \<Rightarrow> None
      | Some n \<Rightarrow>
          if \<not> under rid d (o_user r) then None
          else Some \<lparr>oo_id = k, oo_user = o_user r, oo_did = o_did r, oo_e164 = d_e164 n, oo_status = o_status r,
                 oo_channels = o_channels r, oo_kind = o_kind r, oo_target = o_target r, oo_next = o_next_billing r,
                 oo_kyc = o_kyc r,
                 oo_kyc_status = (case o_kyc r of None \<Rightarrow> None | Some b \<Rightarrow> map_option k_status (tbl_get (kyc_bundles d) b))\<rparr>))"

definition api_list_orders :: "bool \<Rightarrow> db_id \<Rightarrow> db \<Rightarrow> order_out list api" where
  "api_list_orders fails rid d =
     (if fails then ApiErr 500
      else ApiOk 200 (take 500 (List.map_filter (order_view rid d) (newest_first (orders d)))))"

definition api_get_order :: "bool \<Rightarrow> db_id \<Rightarrow> string \<Rightarrow> db \<Rightarrow> order_out api" where
  "api_get_order fails rid id_text d =
     (if fails then ApiErr 500
      else case List.map_filter (order_view rid d) (filter (\<lambda>(k, r). k = atoi64 id_text) (orders d)) of
        [] \<Rightarrow> ApiErr 404
      | x # _ \<Rightarrow> ApiOk 200 x)"

record order_request =
  oq_user :: db_id
  oq_did :: db_id
  oq_channels :: int
  oq_kind :: string
  oq_target :: string
  oq_day :: int
  oq_kyc :: "db_id option"

definition request_day :: "utc_time \<Rightarrow> int \<Rightarrow> int" where
  "request_day now day = (if day < 1 \<or> 28 < day then min (t_day now) 28 else day)"

definition api_create_order :: "office_faults \<Rightarrow> utc_time \<Rightarrow> db_id \<Rightarrow> order_request option \<Rightarrow> db \<Rightarrow> (db_id \<times> order_status \<times> cents) api \<times> db" where
  "api_create_order flt now rid body d =
     (case body of
        None \<Rightarrow> (ApiErr 400, d)
      | Some q \<Rightarrow>
          let uid = oq_user q; did = oq_did q; channels = max 0 (oq_channels q); day = request_day now (oq_day q);
              target = normalize_route_target (oq_kind q) (oq_target q) in
          if oq_kind q = [] \<or> oq_target q = [] then (ApiErr 400, d)
          else if flt StmBegin then (ApiErr 500, d)
          else case (if flt StmBalance then None else tbl_get (users d) uid) of
            None \<Rightarrow> (ApiErr 404, d)
          | Some u \<Rightarrow>
              if u_reseller u \<noteq> Some rid then (ApiErr 403, d)
              else case (if flt StmLoad then None else tbl_get (dids d) did) of
                None \<Rightarrow> (ApiErr 404, d)
              | Some n \<Rightarrow>
                  if d_status n \<noteq> DidAvailable then (ApiErr 409, d)
                  else case (if flt StmRate then None else rate_for_did did d) of
                    None \<Rightarrow> (ApiErr 409, d)
                  | Some (rc, rate) \<Rightarrow>
                      let nrc = r_nrc rate in
                      if u_balance u < nrc then (ApiErr 402, d)
                      else case start_status (flt StmBundle) uid (oq_kyc q) d of
                        None \<Rightarrow> (ApiErr 400, d)
                      | Some st \<Rightarrow>
                          (case insert_order (flt StmInsert) (oq_kind q)
                                  (new_order did uid channels target rc day (next_anniversary now day) st (oq_kyc q)) d of
                             None \<Rightarrow> (ApiErr 400, d)
                           | Some (oid, d1) \<Rightarrow>
                               if flt StmAssign then (ApiErr 500, d)
                               else if 0 < nrc \<and> (flt StmDebit \<or> flt StmPost) \<or> flt StmCommit then (ApiErr 500, d)
                               else (ApiOk 201 (oid, st, nrc),
                                     charge_nrc uid oid nrc (u_balance u) (set_did_status DidAssigned did d1))))"

definition api_cancel_order :: "office_faults \<Rightarrow> utc_time \<Rightarrow> db_id \<Rightarrow> string \<Rightarrow> db \<Rightarrow> unit api \<times> db" where
  "api_cancel_order flt now rid id_text d =
     (let oid = atoi64 id_text in
      if flt StmBegin \<or> flt StmUpdate then (ApiErr 500, d)
      else case tbl_get (orders d) oid of
        None \<Rightarrow> (ApiErr 404, d)
      | Some r \<Rightarrow>
          if \<not> under rid d (o_user r) \<or> \<not> open_order r then (ApiErr 404, d)
          else if flt StmRelease \<or> flt StmCommit then (ApiErr 500, d)
          else (ApiOk 200 (), set_did_status DidAvailable (o_did r) (d\<lparr>orders := tbl_upd oid (cancel_row now) (orders d)\<rparr>)))"

record order_change =
  oc_kind :: "string option"
  oc_target :: "string option"
  oc_channels :: "int option"
  oc_kyc :: "db_id option"

definition api_bundle :: "bool \<Rightarrow> order_change \<Rightarrow> db_id \<Rightarrow> db \<Rightarrow> int + db_id option" where
  "api_bundle fails q uid d =
     (case oc_kyc q of
        None \<Rightarrow> Inr None
      | Some b \<Rightarrow>
          if b \<le> 0 then Inr None
          else (case (if fails then None else tbl_get (kyc_bundles d) b) of
                  None \<Rightarrow> Inl 400
                | Some k \<Rightarrow> if k_user k \<noteq> uid then Inl 400 else Inr (Some b)))"

definition changed_row :: "route_kind \<Rightarrow> string \<Rightarrow> int \<Rightarrow> db_id option \<Rightarrow> db \<Rightarrow> order_row \<Rightarrow> order_row" where
  "changed_row k rt ch b d r =
     r\<lparr>o_kind := k, o_target := rt, o_channels := ch, o_kyc := (case b of None \<Rightarrow> o_kyc r | Some i \<Rightarrow> Some i),
       o_status := (if o_status r = OrdKycPending \<and> bundle_approved b d then OrdActive else o_status r)\<rparr>"

text \<open>The owner of a SIP peer that is named as the target is not looked at.\<close>

definition api_update_order :: "office_faults \<Rightarrow> db_id \<Rightarrow> string \<Rightarrow> order_change option \<Rightarrow> db \<Rightarrow> (route_kind \<times> string \<times> int) api \<times> db" where
  "api_update_order flt rid id_text body d =
     (let oid = atoi64 id_text in
      case body of
        None \<Rightarrow> (ApiErr 400, d)
      | Some q \<Rightarrow>
          if flt StmLoad then (ApiErr 500, d)
          else case tbl_get (orders d) oid of
            None \<Rightarrow> (ApiErr 404, d)
          | Some r \<Rightarrow>
              if \<not> under rid d (o_user r) then (ApiErr 404, d)
              else if o_status r \<notin> {OrdActive, OrdKycPending, OrdQuarantined} then (ApiErr 409, d)
              else let rk = (case oc_kind q of None \<Rightarrow> route_kind_text (o_kind r) | Some s \<Rightarrow> trim_space s) in
                if rk \<notin> {''sip_uri'', ''ip'', ''sip_account''} then (ApiErr 400, d)
                else let rt = normalize_route_target rk (case oc_target q of None \<Rightarrow> o_target r | Some s \<Rightarrow> trim_space s);
                         ch = (case oc_channels q of None \<Rightarrow> o_channels r | Some n \<Rightarrow> n) in
                  if rt = [] \<or> (oc_channels q \<noteq> None \<and> ch < 0) then (ApiErr 400, d)
                  else case api_bundle (flt StmBundle) q (o_user r) d of
                    Inl c \<Rightarrow> (ApiErr c, d)
                  | Inr b \<Rightarrow>
                      (case route_kind_of rk of
                         None \<Rightarrow> (ApiErr 400, d)
                       | Some k \<Rightarrow>
                           let os = tbl_upd oid (changed_row k rt ch b d) (orders d) in
                           if flt StmUpdate \<or> int4_max < ch \<or> \<not> one_active_per_did os then (ApiErr 400, d)
                           else (ApiOk 200 (k, rt, ch), d\<lparr>orders := os\<rparr>)))"

subsection \<open>Numbers\<close>

text \<open>SQL's LIKE: \<open>%\<close> any text, \<open>_\<close> one character, the backslash takes the next one literally.\<close>

fun like :: "string \<Rightarrow> string \<Rightarrow> bool" where
  "like [] s \<longleftrightarrow> s = []"
| "like (p # ps) s \<longleftrightarrow>
     (if p = CHR ''%'' then like ps s \<or> (case s of [] \<Rightarrow> False | _ # cs \<Rightarrow> like (p # ps) cs)
      else if p = CHR 0x5C \<and> ps \<noteq> [] then (case s of [] \<Rightarrow> False | c # cs \<Rightarrow> c = hd ps \<and> like (tl ps) cs)
      else (case s of [] \<Rightarrow> False | c # cs \<Rightarrow> (p = CHR ''_'' \<or> c = p) \<and> like ps cs))"

definition contains_like :: "string \<Rightarrow> string \<Rightarrow> bool" where
  "contains_like v s \<longleftrightarrow> like (''%'' @ v @ ''%'') s"

record did_query =
  dq_limit :: string
  dq_available :: string
  dq_country :: string
  dq_type :: string
  dq_q :: string

record did_out =
  dv_id :: db_id
  dv_e164 :: string
  dv_country :: string
  dv_type :: string
  dv_status :: did_status
  dv_order :: "(db_id \<times> db_id \<times> int \<times> route_kind \<times> string) option"

definition serving_orders :: "db_id \<Rightarrow> db \<Rightarrow> (db_id \<times> order_row) list" where
  "serving_orders did d = filter (\<lambda>(k, r). o_did r = did \<and> o_status r \<in> {OrdActive, OrdKycPending, OrdQuarantined}) (orders d)"

text \<open>The LEFT JOIN: one row per serving order of a number, one without an order otherwise.\<close>

definition did_rows :: "db \<Rightarrow> db_id \<times> did_row \<Rightarrow> (db_id \<times> did_row \<times> (db_id \<times> order_row) option) list" where
  "did_rows d = (\<lambda>(k, n). case serving_orders k d of [] \<Rightarrow> [(k, n, None)] | os \<Rightarrow> map (\<lambda>x. (k, n, Some x)) os)"

definition did_shown :: "db_id \<Rightarrow> bool \<Rightarrow> db \<Rightarrow> did_row \<times> (db_id \<times> order_row) option \<Rightarrow> bool" where
  "did_shown rid only_free d = (\<lambda>(n, x).
     d_status n = DidAvailable \<or> \<not> only_free \<and> (case x of None \<Rightarrow> False | Some (k, r) \<Rightarrow> under rid d (o_user r)))"

definition did_wanted :: "did_query \<Rightarrow> did_row \<Rightarrow> bool" where
  "did_wanted q n \<longleftrightarrow>
     (let c = trim_space (dq_country q); t = trim_space (dq_type q); v = trim_space (dq_q q) in
      (c = [] \<or> d_country n = to_upper c) \<and> (t = [] \<or> d_type n = t) \<and> (v = [] \<or> contains_like v (d_e164 n)))"

definition did_view :: "db_id \<times> did_row \<times> (db_id \<times> order_row) option \<Rightarrow> did_out" where
  "did_view = (\<lambda>(k, n, x).
     \<lparr>dv_id = k, dv_e164 = d_e164 n, dv_country = d_country n, dv_type = d_type n, dv_status = d_status n,
      dv_order = map_option (\<lambda>(i, r). (o_user r, i, o_channels r, o_kind r, o_target r)) x\<rparr>)"

definition api_list_dids :: "bool \<Rightarrow> db_id \<Rightarrow> did_query \<Rightarrow> db \<Rightarrow> did_out list api" where
  "api_list_dids fails rid q d =
     (let only_free = (map lower_byte (dq_available q) = ''true'' \<or> dq_available q = ''1''); t = trim_space (dq_type q) in
      if t \<noteq> [] \<and> t \<notin> {''mobile'', ''national'', ''local'', ''tollfree''} then ApiErr 400
      else if fails then ApiErr 500
      else ApiOk 200 (map did_view (take (api_limit (dq_limit q) 5000 1000)
             (sort_key (\<lambda>(k, n, x). map byte_val (d_e164 n))
               (filter (\<lambda>(k, n, x). did_shown rid only_free d (n, x) \<and> did_wanted q n) (concat (map (did_rows d) (dids d))))))))"

subsection \<open>Calls\<close>

definition parse_date :: "string \<Rightarrow> unix_time option" where
  "parse_date s =
     (let y = int (digits_val (take 4 s)); m = int (digits_val (take 2 (drop 5 s))); d = int (digits_val (drop 8 s)) in
      if length s = 10 \<and> s ! 4 = CHR ''-'' \<and> s ! 7 = CHR ''-'' \<and>
         list_all is_digit (take 4 s) \<and> list_all is_digit (take 2 (drop 5 s)) \<and> list_all is_digit (drop 8 s) \<and>
         1 \<le> m \<and> m \<le> 12 \<and> 1 \<le> d \<and> d \<le> month_days y m
      then Some (86400 * unix_day y m d) else None)"

record cdr_out =
  co_id :: db_id
  co_call :: string
  co_did :: string
  co_user :: db_id
  co_external :: "string option"
  co_order :: db_id
  co_started :: unix_time
  co_ended :: unix_time
  co_billsec :: int
  co_minutes :: int
  co_charge :: cents
  co_bill_min :: "int option"
  co_bill_inc :: "int option"
  co_cause :: string
  co_state :: string

text \<open>A row of \<open>cdrs JOIN users JOIN orders JOIN dids\<close>.\<close>

definition cdr_join :: "db \<Rightarrow> db_id \<times> cdr_row \<Rightarrow> (db_id \<times> cdr_row \<times> user_row \<times> did_row) option" where
  "cdr_join d = (\<lambda>(k, c).
     (case (c_user c, c_order c) of
        (Some uid, Some oid) \<Rightarrow>
          (case (tbl_get (users d) uid, tbl_get (orders d) oid) of
             (Some u, Some r) \<Rightarrow> map_option (\<lambda>n. (k, c, u, n)) (tbl_get (dids d) (o_did r))
           | _ \<Rightarrow> None)
      | _ \<Rightarrow> None))"

text \<open>A call without an end does not scan and is dropped after the limit was applied.\<close>

definition cdr_view :: "db_id \<times> cdr_row \<times> user_row \<times> did_row \<Rightarrow> cdr_out option" where
  "cdr_view = (\<lambda>(k, c, u, n).
     map_option (\<lambda>e. \<lparr>co_id = k, co_call = sanitize_call_id (c_call_id c), co_did = d_e164 n,
        co_user = (case c_user c of None \<Rightarrow> 0 | Some i \<Rightarrow> i), co_external = u_external u,
        co_order = (case c_order c of None \<Rightarrow> 0 | Some i \<Rightarrow> i), co_started = c_started c, co_ended = e,
        co_billsec = c_billsec c, co_minutes = c_minutes c, co_charge = c_charge c, co_bill_min = c_bill_min c,
        co_bill_inc = c_bill_inc c, co_cause = c_cause c, co_state = call_state (c_billsec c) (c_cause c)\<rparr>) (c_ended c))"

record cdr_query =
  cq_limit :: string
  cq_user :: string
  cq_order :: string
  cq_external :: string
  cq_did :: string
  cq_from :: string
  cq_to :: string
  cq_state :: string

definition id_filter :: "string \<Rightarrow> db_id option \<Rightarrow> bool" where
  "id_filter v i \<longleftrightarrow> \<not> (v \<noteq> [] \<and> 0 < atoi64 v) \<or> i = Some (atoi64 v)"

definition cdr_wanted :: "cdr_query \<Rightarrow> cdr_row \<Rightarrow> user_row \<Rightarrow> did_row \<Rightarrow> bool" where
  "cdr_wanted q c u n \<longleftrightarrow>
     id_filter (cq_user q) (c_user c) \<and> id_filter (cq_order q) (c_order c) \<and>
     (trim_space (cq_external q) = [] \<or> u_external u = Some (trim_space (cq_external q))) \<and>
     (trim_space (cq_did q) = [] \<or> contains_like (trim_space (cq_did q)) (d_e164 n)) \<and>
     (case parse_date (cq_from q) of None \<Rightarrow> True | Some t \<Rightarrow> t \<le> c_started c) \<and>
     (case parse_date (cq_to q) of None \<Rightarrow> True | Some t \<Rightarrow> c_started c < t + 86400) \<and>
     (cq_state q = ''answered'' \<longrightarrow> 0 < c_billsec c) \<and> (cq_state q = ''failed'' \<longrightarrow> c_billsec c = 0)"

definition api_list_cdrs :: "bool \<Rightarrow> db_id \<Rightarrow> cdr_query \<Rightarrow> db \<Rightarrow> cdr_out list api" where
  "api_list_cdrs fails rid q d =
     (if fails then ApiErr 500
      else ApiOk 200 (List.map_filter cdr_view (take (api_limit (cq_limit q) 500 100)
             (sort_key (\<lambda>(k, c, u, n). - c_started c)
               (filter (\<lambda>(k, c, u, n). u_reseller u = Some rid \<and> cdr_wanted q c u n) (List.map_filter (cdr_join d) (cdrs d)))))))"

definition api_order_cdrs :: "bool \<Rightarrow> bool \<Rightarrow> db_id \<Rightarrow> string \<Rightarrow> string \<Rightarrow> db \<Rightarrow> cdr_out list api" where
  "api_order_cdrs own_fails fails rid id_text limit d =
     (let oid = atoi64 id_text in
      if own_fails then ApiErr 500
      else case tbl_get (orders d) oid of
        None \<Rightarrow> ApiErr 404
      | Some r \<Rightarrow>
          if \<not> under rid d (o_user r) then ApiErr 404
          else if fails then ApiErr 500
          else ApiOk 200 (List.map_filter cdr_view (take (api_limit limit 500 100)
                 (sort_key (\<lambda>(k, c, u, n). - c_started c)
                   (filter (\<lambda>(k, c, u, n). c_order c = Some oid) (List.map_filter (cdr_join d) (cdrs d)))))))"

text \<open>The live calls: \<open>None\<close> without Redis, an error of the index otherwise.\<close>

record live_out =
  lv_call :: string
  lv_e164 :: string
  lv_user :: db_id
  lv_order :: db_id
  lv_src :: string
  lv_kind :: string
  lv_target :: string
  lv_started :: unix_time
  lv_billsec :: int
  lv_rate :: rat

definition reseller_of :: "bool \<Rightarrow> db \<Rightarrow> db_id \<Rightarrow> db_id" where
  "reseller_of fails d uid =
     (if uid \<le> 0 \<or> fails then 0
      else case tbl_get (users d) uid of
        None \<Rightarrow> 0
      | Some u \<Rightarrow> (case u_reseller u of None \<Rightarrow> 0 | Some r \<Rightarrow> r))"

definition live_view :: "unix_time \<Rightarrow> active_call \<Rightarrow> live_out" where
  "live_view now c =
     \<lparr>lv_call = sanitize_call_id (ac_call_id c), lv_e164 = ac_e164 c, lv_user = ac_user c, lv_order = ac_order c,
      lv_src = clean_caller_uri (ac_src_uri c), lv_kind = ac_kind c, lv_target = ac_target c,
      lv_started = ac_started c, lv_billsec = now - ac_started c, lv_rate = ac_rate c\<rparr>"

definition api_list_live :: "bool \<Rightarrow> unix_time \<Rightarrow> db_id \<Rightarrow> active_call list option option \<Rightarrow> db \<Rightarrow> live_out list api" where
  "api_list_live fails now rid calls d =
     (case calls of
        None \<Rightarrow> ApiOk 200 []
      | Some None \<Rightarrow> ApiErr 500
      | Some (Some cs) \<Rightarrow>
          ApiOk 200 (map (live_view now) (filter (\<lambda>c. \<not> ac_reserved c \<and> reseller_of fails d (ac_user c) = rid) cs)))"

subsection \<open>The reseller and the hang-up causes\<close>

definition api_me :: "bool \<Rightarrow> db_id \<Rightarrow> db \<Rightarrow> (db_id \<times> reseller_row \<times> nat \<times> nat) api" where
  "api_me fails rid d =
     (case (if fails then None else tbl_get (resellers d) rid) of
        None \<Rightarrow> ApiErr 500
      | Some r \<Rightarrow> ApiOk 200 (rid, r, affected (\<lambda>_ u. u_reseller u = Some rid) (users d),
                  affected (\<lambda>_ r. o_status r = OrdActive \<and> under rid d (o_user r)) (orders d)))"

subsection \<open>KYC\<close>

record bundle_out =
  bo_id :: db_id
  bo_user :: db_id
  bo_type :: string
  bo_status :: kyc_status
  bo_approved :: "unix_time option"
  bo_rejected :: "unix_time option"
  bo_reason :: string
  bo_docs :: nat

definition bundle_view :: "db \<Rightarrow> db_id \<times> kyc_row \<Rightarrow> bundle_out" where
  "bundle_view d = (\<lambda>(k, b).
     \<lparr>bo_id = k, bo_user = k_user b, bo_type = k_type b, bo_status = k_status b, bo_approved = k_approved_at b,
      bo_rejected = k_rejected_at b, bo_reason = (case k_reason b of None \<Rightarrow> [] | Some s \<Rightarrow> s),
      bo_docs = affected (\<lambda>_ r. kd_bundle r = k) (kyc_docs d)\<rparr>)"

definition api_create_bundle :: "bool \<Rightarrow> bool \<Rightarrow> db_id \<Rightarrow> string \<Rightarrow> string option \<Rightarrow> db \<Rightarrow> db_id api \<times> db" where
  "api_create_bundle own_fails fails rid id_text body d =
     (let uid = atoi64 id_text in
      case body of
        None \<Rightarrow> (ApiErr 400, d)
      | Some kind \<Rightarrow>
          if kind \<noteq> ''person'' \<and> kind \<noteq> ''company'' then (ApiErr 400, d)
          else case user_belongs own_fails rid uid d of
            Some c \<Rightarrow> (ApiErr c, d)
          | None \<Rightarrow>
              if fails then (ApiErr 500, d)
              else (ApiOk 201 (next_id (kyc_bundles d)),
                    d\<lparr>kyc_bundles := tbl_insert \<lparr>k_user = uid, k_type = kind, k_status = KycPending, k_approved_by = None,
                       k_approved_at = None, k_rejected_at = None, k_reason = None, k_notes = []\<rparr> (kyc_bundles d)\<rparr>))"

definition api_list_bundles :: "bool \<Rightarrow> bool \<Rightarrow> db_id \<Rightarrow> string \<Rightarrow> db \<Rightarrow> bundle_out list api" where
  "api_list_bundles own_fails fails rid id_text d =
     (let uid = atoi64 id_text in
      case user_belongs own_fails rid uid d of
        Some c \<Rightarrow> ApiErr c
      | None \<Rightarrow>
          if fails then ApiErr 500
          else ApiOk 200 (map (bundle_view d) (newest_first (filter (\<lambda>(k, b). k_user b = uid) (kyc_bundles d)))))"

definition owned_bundle :: "bool \<Rightarrow> db_id \<Rightarrow> db_id \<Rightarrow> db \<Rightarrow> int + kyc_row" where
  "owned_bundle fails rid bid d =
     (if fails then Inl 500
      else case tbl_get (kyc_bundles d) bid of
        None \<Rightarrow> Inl 404
      | Some b \<Rightarrow> if under rid d (k_user b) then Inr b else Inl 404)"

text \<open>A failed query for the documents leaves them out.\<close>

definition api_get_bundle :: "bool \<Rightarrow> bool \<Rightarrow> db_id \<Rightarrow> string \<Rightarrow> db \<Rightarrow> (bundle_out \<times> kyc_doc_row table) api" where
  "api_get_bundle fails docs_fail rid bid_text d =
     (let bid = atoi64 bid_text in
      case owned_bundle fails rid bid d of
        Inl c \<Rightarrow> ApiErr c
      | Inr b \<Rightarrow> ApiOk 200 (bundle_view d (bid, b),
          if docs_fail then [] else sort_key fst (filter (\<lambda>(k, r). kd_bundle r = bid) (kyc_docs d))))"

definition upload_code :: "upload_reply \<Rightarrow> (string \<times> int) api" where
  "upload_code r =
     (case r of
        UpDone name n \<Rightarrow> ApiOk 201 (name, n)
      | UpMalformed \<Rightarrow> ApiErr 400 | UpNoFile \<Rightarrow> ApiErr 400 | UpBadName \<Rightarrow> ApiErr 400
      | UpNoBundle \<Rightarrow> ApiErr 404 | _ \<Rightarrow> ApiErr 500)"

text \<open>\<open>uploadKycDocument\<close>: the form first, then the owner, then the same storage as the web form.\<close>

definition api_upload ::
  "upload_faults \<Rightarrow> db_id \<Rightarrow> string \<Rightarrow> (string \<times> (string \<times> string \<times> string) option) option \<Rightarrow> kyc_store \<Rightarrow> (string \<times> int) api \<times> kyc_store" where
  "api_upload flt rid bid_text form s =
     (let bid = atoi64 bid_text in
      case form of
        None \<Rightarrow> (ApiErr 400, s)
      | Some (kind, None) \<Rightarrow> (ApiErr 400, s)
      | Some (kind, Some f) \<Rightarrow>
          (case owned_bundle (uf_lookup flt) rid bid (ky_db s) of
             Inl c \<Rightarrow> (ApiErr c, s)
           | Inr b \<Rightarrow> (case kyc_doc_upload flt bid form s of (r, t) \<Rightarrow> (upload_code r, t))))"

definition api_download :: "bool \<Rightarrow> db_id \<Rightarrow> string \<Rightarrow> string \<Rightarrow> kyc_store \<Rightarrow> (string \<times> string) api" where
  "api_download fails rid bid_text doc_text s =
     (let bid = atoi64 bid_text in
      case (if fails then None else find_doc bid (atoi64 doc_text) (ky_db s)) of
        None \<Rightarrow> ApiErr 404
      | Some (uid, r) \<Rightarrow>
          if \<not> under rid (ky_db s) uid then ApiErr 404
          else case ky_files s (doc_path uid bid (kd_filename r)) of
            None \<Rightarrow> ApiErr 500
          | Some content \<Rightarrow> ApiOk 200 (kd_mime r, content))"

end
