(* ===== verification/Books.thy ===== *)
theory Books
  imports Books_Kept Reseller_Api
begin

text \<open>
  What the whole program keeps of its books, whichever of its operations run in whichever
  order. The steps are the requests of the control plane, the billing of an order, the imports,
  the forms of the web interface and the requests of the resellers' API.
\<close>

subsection \<open>The requests of the resellers\<close>

lemma api_cancel_books:
  assumes "api_cancel_order flt now rid i d = (rep, e)" "books_ok d"
  shows "books_ok e"
proof -
  have b: "inventory_ok d" using assms(2) by (simp add: books_ok_def)
  have "e = d \<or> (\<exists>r. tbl_get (orders d) (atoi64 i) = Some r \<and> open_order r \<and>
      e = set_did_status DidAvailable (o_did r) (d\<lparr>orders := tbl_upd (atoi64 i) (cancel_row now) (orders d)\<rparr>))"
    using assms(1) by (cases "tbl_get (orders d) (atoi64 i)") (simp_all add: api_cancel_order_def Let_def split: if_splits)
  then consider "e = d" | r where "tbl_get (orders d) (atoi64 i) = Some r" "open_order r"
      "e = set_did_status DidAvailable (o_did r) (d\<lparr>orders := tbl_upd (atoi64 i) (cancel_row now) (orders d)\<rparr>)"
    by blast
  then show ?thesis
  proof cases
    case (2 r)
    have "inventory_ok e"
      unfolding 2(3) by (rule inventory_close [OF b 2(1,2)]) (simp add: cancel_row_def open_order_def)
    then show ?thesis by (rule books_frame [OF assms(2)]) (simp_all add: 2(3))
  qed (simp add: assms(2))
qed

lemma api_update_books:
  assumes "api_update_order flt rid i body d = (rep, e)" "books_ok d"
  shows "books_ok e"
proof -
  have b: "inventory_ok d" using assms(2) by (simp add: books_ok_def)
  consider "e = d" | k rt ch kb where "e = d\<lparr>orders := tbl_upd (atoi64 i) (changed_row k rt ch kb d) (orders d)\<rparr>"
    using assms(1) by (auto simp: api_update_order_def Let_def split: if_splits option.splits sum.splits)
  then show ?thesis
  proof cases
    case (2 k rt ch kb)
    have "inventory_ok e"
      by (rule inventory_upd_orders [OF b, where P = "\<lambda>j _. j = atoi64 i" and f = "changed_row k rt ch kb d"])
        (auto simp: 2 tbl_upd_def changed_row_def open_order_def)
    then show ?thesis by (rule books_frame [OF assms(2)]) (simp_all add: 2)
  qed (simp add: assms(2))
qed

text \<open>What a successful order of a reseller did.\<close>

lemma api_create_done:
  assumes "api_create_order flt now rid body d = (ApiOk c (oid, st, nrc), e)"
  obtains q u rc rate row where
    "body = Some q \<and> c = 201 \<and> oid = next_id (orders d)"
    "tbl_get (users d) (oq_user q) = Some u \<and> u_reseller u = Some rid \<and> nrc \<le> u_balance u"
    "did_status_of d (oq_did q) = Some DidAvailable \<and> rate_for_did (oq_did q) d = Some (rc, rate) \<and> nrc = r_nrc rate"
    "start_status False (oq_user q) (oq_kyc q) d = Some st"
    "o_did row = oq_did q \<and> o_user row = oq_user q \<and> o_status row = st \<and> o_rate_card row = rc \<and> o_kyc row = oq_kyc q"
    "e = charge_nrc (oq_user q) oid nrc (u_balance u)
           (set_did_status DidAssigned (oq_did q) (d\<lparr>orders := tbl_insert row (orders d)\<rparr>))"
proof -
  obtain q where q: "body = Some q" using assms by (cases body) (simp_all add: api_create_order_def)
  obtain u where u: "tbl_get (users d) (oq_user q) = Some u" "u_reseller u = Some rid" "\<not> flt StmBalance"
    using assms q by (auto simp: api_create_order_def Let_def split: if_splits option.splits)
  obtain n where n: "tbl_get (dids d) (oq_did q) = Some n" "d_status n = DidAvailable" "\<not> flt StmLoad"
    using assms q u by (auto simp: api_create_order_def Let_def split: if_splits option.splits)
  obtain rc rate where r: "rate_for_did (oq_did q) d = Some (rc, rate)" "\<not> u_balance u < r_nrc rate" "\<not> flt StmRate"
    using assms q u n by (auto simp: api_create_order_def Let_def split: if_splits option.splits)
  obtain st' where st': "start_status (flt StmBundle) (oq_user q) (oq_kyc q) d = Some st'"
    using assms q u n r by (auto simp: api_create_order_def Let_def split: if_splits option.splits)
  define mk where "mk = new_order (oq_did q) (oq_user q) (max 0 (oq_channels q)) (normalize_route_target (oq_kind q) (oq_target q))
    rc (request_day now (oq_day q)) (next_anniversary now (request_day now (oq_day q))) st' (oq_kyc q)"
  obtain oid' d1 where ins: "insert_order (flt StmInsert) (oq_kind q) mk d = Some (oid', d1)"
    using assms q u n r st' by (auto simp: api_create_order_def Let_def mk_def split: if_splits option.splits)
  have e: "e = charge_nrc (oq_user q) oid' (r_nrc rate) (u_balance u) (set_did_status DidAssigned (oq_did q) d1)"
      "oid' = oid" "st' = st" "nrc = r_nrc rate" "c = 201"
    using assms q u n r st' ins by (auto simp: api_create_order_def Let_def mk_def [symmetric] split: if_splits)
  obtain k where k: "oid' = next_id (orders d)" "d1 = d\<lparr>orders := tbl_insert (mk k) (orders d)\<rparr>"
    using ins by (auto simp: insert_order_def Let_def split: option.splits if_splits)
  have st: "start_status False (oq_user q) (oq_kyc q) d = Some st'"
    using st' by (auto simp: start_status_def split: option.splits if_splits)
  show thesis
    by (rule that [of q u rc rate "mk k"]) (use q u n r st e k in \<open>simp_all add: did_status_of_def mk_def new_order_def\<close>)
qed

lemma api_create_failed:
  "api_create_order flt now rid body d = (ApiErr c, e) \<Longrightarrow> e = d"
  by (auto simp: api_create_order_def Let_def split: if_splits option.splits prod.splits)

lemma api_create_books:
  assumes "api_create_order flt now rid body d = (rep, e)" "books_ok d"
  shows "books_ok e"
proof (cases rep)
  case (ApiErr c)
  with assms api_create_failed show ?thesis by blast
next
  case (ApiOk c x)
  obtain oid st nrc where "x = (oid, st, nrc)" by (cases x)
  with assms(1) ApiOk have "api_create_order flt now rid body d = (ApiOk c (oid, st, nrc), e)" by simp
  then show ?thesis
  proof (cases rule: api_create_done)
    case (1 q u rc rate row)
    have "open_order row" using start_status_open [OF 1(4)] 1(5) by (auto simp: open_order_def)
    from sale_books [OF assms(2) _ this] 1(2,3,5,6) show ?thesis by auto
  qed
qed

lemma api_topup_books:
  "api_topup flt rid i body d = (rep, e) \<Longrightarrow> books_ok d \<Longrightarrow> books_ok e"
  by (auto simp: api_topup_def Let_def intro!: credit_books split: if_splits option.splits)

lemma api_create_user_books:
  "api_create_user fails rid body d = (rep, e) \<Longrightarrow> books_ok d \<Longrightarrow> books_ok e"
  by (auto simp: api_create_user_def Let_def intro!: new_user_books split: if_splits option.splits)

lemma reseller_delete_books:
  assumes "reseller_delete flt rid d = (rep, e)" "books_ok d"
  shows "books_ok e"
proof -
  have "e = d \<or> e = delete_reseller_rows rid d" using assms(1) by (auto simp: reseller_delete_def Let_def split: if_splits)
  moreover have "books_ok (delete_reseller_rows rid d)"
    by (rule user_status_books [OF assms(2), where P = "\<lambda>_ u. u_reseller u = Some rid" and f = "\<lambda>u. u\<lparr>u_reseller := None\<rparr>"]) (use assms(2) inventory_frame in \<open>auto simp: delete_reseller_rows_def books_ok_def\<close>)
  ultimately show ?thesis using assms(2) by auto
qed

subsection \<open>The machine\<close>

text \<open>
  One step is one request served, in any order. Two steps have a condition the code does not
  check itself: an order is created on an available number (the form offers no other), and a
  number is retired while no open order holds it.
\<close>

inductive books_step :: "db \<Rightarrow> db \<Rightarrow> bool" where
  call: "sip_step (t, s) (t', s') \<Longrightarrow> books_step (ss_db s) (ss_db s')"
| bill: "process_one env now oid d = (out, e) \<Longrightarrow> books_step d e"
| create: "did_status_of d (atoi64 (of_did f)) = Some DidAvailable \<Longrightarrow> order_create flt now f d = (crep, e) \<Longrightarrow> books_step d e"
| edit: "order_update flt oid form d = (urep, e) \<Longrightarrow> books_step d e"
| cancel: "order_cancel flt now oid d = (ok, e) \<Longrightarrow> books_step d e"
| swap: "order_swap flt admin oid sform d = (srep, e) \<Longrightarrow> books_step d e"
| topup: "user_topup flt uid amount d = (trep, e) \<Longrightarrow> books_step d e"
| reserve: "did_reserve flt u admin n rform d = (rrep, e) \<Longrightarrow> books_step d e"
| release: "did_release flt u admin n d = (lrep, e) \<Longrightarrow> books_step d e"
| retire: "n \<notin> set (held_dids d) \<Longrightarrow> did_retire flt n d = (xrep, e) \<Longrightarrow> books_step d e"
| stock: "insert_did num sid country ty cap d = (k, e) \<Longrightarrow> books_step d e"
| range_stock: "did_import_submit bf cf bad sbform d = Some (brep2, e) \<Longrightarrow> books_step d e"
| rate: "rate_card_create cf rf renv sid rtform d = (rrep2, e) \<Longrightarrow> books_step d e"
| rates: "rate_card_create_bulk bf cf rflt renv sid body d = (krep, e) \<Longrightarrow> books_step d e"
| reprice: "rate_card_update lf rf renv rid rtf d = (rrep2, e) \<Longrightarrow> books_step d e"
| expire: "books_step d (rate_card_expire rf u rid d)"
| block: "user_block bflt uid reason bundle admin d = (brep, e) \<Longrightarrow> books_step d e"
| unblock: "user_unblock bflt uid reason admin d = (brep, e) \<Longrightarrow> books_step d e"
| approve: "kyc_approve f0 f1 f2 fc u bid admin d = (arep, e) \<Longrightarrow> books_step d e"
| join: "user_create fails uform d = (jrep, e) \<Longrightarrow> books_step d e"
| amend: "user_update fails uid uf d = (jrep, e) \<Longrightarrow> books_step d e"
| api_order: "api_create_order flt now rid oreq d = (orep, e) \<Longrightarrow> books_step d e"
| api_cancel: "api_cancel_order flt now rid idt d = (prep, e) \<Longrightarrow> books_step d e"
| api_change: "api_update_order flt rid idt och d = (qrep, e) \<Longrightarrow> books_step d e"
| api_credit: "api_topup flt rid idt money d = (mrep, e) \<Longrightarrow> books_step d e"
| api_join: "api_create_user fails rid nu d = (nrep, e) \<Longrightarrow> books_step d e"
| reseller_leave: "reseller_delete flt rid d = (vrep, e) \<Longrightarrow> books_step d e"
| leave: "user_delete flt now uid confirm ks = (drep, kt) \<Longrightarrow> books_step (ky_db ks) (ky_db kt)"

inductive_cases books_stepE: "books_step d e"

lemmas books_kept = api_create_books api_cancel_books api_update_books api_topup_books api_create_user_books reseller_delete_books
  rate_card_create_books rate_card_bulk_books rate_card_update_books rate_card_expire_books submit_books
  process_one_books order_create_books order_update_books order_cancel_books order_swap_books user_topup_books
  did_reserve_books did_release_books did_retire_books insert_did_books user_block_books user_unblock_books
  kyc_approve_books user_create_books user_update_books user_delete_books

lemma sip_step_books: "sip_step (t, s) (t', s') \<Longrightarrow> books_ok (ss_db s) \<Longrightarrow> books_ok (ss_db s')"
  using sip_step_db [of t s t' s'] ledger_ok_conserves [of "ss_db s" "ss_db s'"]
    inventory_frame [of "ss_db s" "ss_db s'"] rates_frame [of "ss_db s" "ss_db s'"] by (simp add: books_ok_def)

interpretation books: safe_machine books_step books_ok
proof (unfold_locales, goal_cases)
  case (1 d e)
  then show ?case by cases (auto intro: sip_step_books books_kept)
qed


definition shop_db :: db where
  "shop_db = empty_db\<lparr>
     users := [(1, plain_user 500 4 ''active'')],
     dids := [(7, \<lparr>d_e164 = ''441134960000'', d_supplier = 1, d_country = ''GB'', d_type = ''national'', d_cap = 4,
       d_status = DidAvailable, d_res_kind = None, d_res_target = None, d_res_group = None, d_res_file = None,
       d_res_note = None, d_res_at = None, d_res_by = None\<rparr>)],
     rate_cards := [(3, plain_rate 200 100 50 1 1 1 (1 / 2) 1 1)],
     kyc_bundles := [(5, \<lparr>k_user = 1, k_type = ''person'', k_status = KycApproved, k_approved_by = Some 2,
       k_approved_at = Some 0, k_rejected_at = None, k_reason = None, k_notes = []\<rparr>)],
     ledger := [\<lparr>l_user = 1, l_delta = 500, l_kind = LedgerTopup, l_ref_table = [], l_ref_id = None, l_after = 500\<rparr>]\<rparr>"

definition shop_form :: order_form where
  "shop_form = \<lparr>of_user = ''1'', of_did = ''7'', of_channels = ''2'', of_kind = ''sip_uri'', of_target = ''sip:a@b.example'',
     of_day = ''15'', of_kyc = ''5''\<rparr>"

definition no_office_faults :: office_faults where
  "no_office_faults = (\<lambda>_. False)"

definition shop_time :: utc_time where "shop_time = UTC 2026 1 20 0"

definition shop_order :: order_row where
  "shop_order = new_order 7 1 2 ''sip:a@b.example'' 3 15 (UTC 2026 2 15 0) OrdActive (Some 5) RouteSIPURI"

definition shop_sold :: db where
  "shop_sold = charge_nrc 1 1 200 500 (set_did_status DidAssigned 7 (shop_db\<lparr>orders := tbl_insert shop_order []\<rparr>))"

lemma shop_sale: "order_create no_office_faults shop_time shop_form shop_db = (CreateDone OrdActive, shop_sold)"
  by code_simp

lemma shop_books: "books_ok shop_db"
  by (auto simp: books_ok_def inventory_ok_def held_dids_def ledger_ok_def rates_ok_def posted_def balance_def tbl_get_def
      shop_db_def empty_db_def tbl_ids_def split: if_splits)


end
