(* ===== verification/Order_Life.thy ===== *)
theory Order_Life
  imports Books
begin

text \<open>
  What the forms on orders, users and numbers promise: the price of a new order, which edits
  pass, what a swap keeps, when a user can be deleted, and that a released reservation leaves
  the number as it was.
\<close>

subsection \<open>Creating\<close>

lemma start_status_active: "start_status False uid kyc d = Some OrdActive \<longleftrightarrow>
    (\<exists>b r. kyc = Some b \<and> tbl_get (kyc_bundles d) b = Some r \<and> k_user r = uid \<and> k_status r = KycApproved)"
  by (auto simp: start_status_def split: option.splits if_splits)

text \<open>
  C5: a successful creation charges exactly the card's NRC, never below zero, and the order it
  adds is active exactly when the form names an approved KYC bundle of the same user.
\<close>

theorem order_create_exact:
  assumes "order_create flt now f d = (CreateDone st, e)" "tbl_get (users d) (atoi64 (of_user f)) = Some u"
  shows "\<exists>rc rate row. rate_for_did (atoi64 (of_did f)) d = Some (rc, rate) \<and> r_nrc rate \<le> u_balance u \<and>
    balance e (atoi64 (of_user f)) = Some (u_balance u - max 0 (r_nrc rate)) \<and>
    tbl_get (orders e) (next_id (orders d)) = Some row \<and> o_user row = atoi64 (of_user f) \<and>
    o_did row = atoi64 (of_did f) \<and> o_rate_card row = rc \<and> o_status row = st \<and>
    (st = OrdActive) = (\<exists>b k. bundle_field (of_kyc f) = Some b \<and> tbl_get (kyc_bundles d) b = Some k \<and>
       k_user k = atoi64 (of_user f) \<and> k_status k = KycApproved)"
  using assms(1)
proof (cases rule: order_create_done)
  case (1 rc rate v row)
  have v: "v = u" "r_nrc rate \<le> u_balance u" using 1(2) assms(2) by simp_all
  have o': "orders e = tbl_insert row (orders d)" by (simp add: 1(6))
  have "balance e (atoi64 (of_user f)) = Some (u_balance u - max 0 (r_nrc rate))"
    using assms(2) by (auto simp: 1(6) v(1) charge_nrc_def) (auto simp: balance_def)
  with 1(1,3,5) v o' start_status_active [of "atoi64 (of_user f)" "bundle_field (of_kyc f)" d] show ?thesis
    by (auto simp: tbl_get_insert)
qed

theorem order_create_exact_witness:
  "balance shop_sold 1 = Some 300 \<and> (\<exists>row. tbl_get (orders shop_sold) 1 = Some row \<and> o_status row = OrdActive)"
proof -
  have u: "tbl_get (users shop_db) (atoi64 (of_user shop_form)) = Some (plain_user 500 4 ''active'')"
    and r: "rate_for_did (atoi64 (of_did shop_form)) shop_db = Some (3, plain_rate 200 100 50 1 1 1 (1 / 2) 1 1)"
    and n: "next_id (orders shop_db) = 1" "atoi64 (of_user shop_form) = 1" by code_simp+
  show ?thesis using order_create_exact [OF shop_sale u] unfolding r n by auto
qed

subsection \<open>Editing\<close>

lemma edit_int_Inr: "edit_int s lo hi cur err = Inr v \<Longrightarrow> v = cur \<or> lo \<le> v \<and> v \<le> hi"
  by (auto simp: edit_int_def split: if_splits option.splits)

lemma edit_kyc_Inr:
  "edit_kyc flt f ord d = Inr (Some b) \<Longrightarrow>
   o_kyc ord = Some b \<or> (\<exists>k. tbl_get (kyc_bundles d) b = Some k \<and> k_user k = o_user ord)"
  by (auto simp: edit_kyc_def Let_def split: if_splits option.splits)

lemma edit_order_Inr:
  assumes "edit_order flt f ord d = Inr p" "op_target p = Some rt"
  shows "op_kind p \<noteq> RouteAudioGroup" "op_kind p = RouteSIPAccount \<Longrightarrow> has_peer (o_user ord) rt d"
    "op_channels p = o_channels ord \<or> 0 \<le> op_channels p \<and> op_channels p \<le> 8192"
    "op_day p = o_anniversary ord \<or> 1 \<le> op_day p \<and> op_day p \<le> 28"
    "op_kyc p = Some b \<Longrightarrow> o_kyc ord = Some b \<or> (\<exists>k. tbl_get (kyc_bundles d) b = Some k \<and> k_user k = o_user ord)"
proof -
  have "\<exists>t. op_target p = (if op_kind p = RouteAudioGroup then None else Some t) \<and>
      edit_int (trim_space (uf_channels f)) 0 8192 (o_channels ord) UpdChannels = Inr (op_channels p) \<and>
      edit_int (trim_space (uf_day f)) 1 28 (o_anniversary ord) UpdDay = Inr (op_day p) \<and>
      edit_kyc flt f ord d = Inr (op_kyc p) \<and> (op_kind p = RouteSIPAccount \<longrightarrow> has_peer (o_user ord) t d)"
    using assms(1) unfolding edit_order_def by (auto simp: sum_bind_Inr split: if_splits)
  then have e: "edit_int (trim_space (uf_channels f)) 0 8192 (o_channels ord) UpdChannels = Inr (op_channels p)"
      "edit_int (trim_space (uf_day f)) 1 28 (o_anniversary ord) UpdDay = Inr (op_day p)"
      "edit_kyc flt f ord d = Inr (op_kyc p)" "op_kind p \<noteq> RouteAudioGroup"
      "op_kind p = RouteSIPAccount \<longrightarrow> has_peer (o_user ord) rt d"
    using assms(2) by (auto split: if_splits)
  show "op_kind p \<noteq> RouteAudioGroup" "op_kind p = RouteSIPAccount \<Longrightarrow> has_peer (o_user ord) rt d"
    "op_channels p = o_channels ord \<or> 0 \<le> op_channels p \<and> op_channels p \<le> 8192"
    "op_day p = o_anniversary ord \<or> 1 \<le> op_day p \<and> op_day p \<le> 28"
    "op_kyc p = Some b \<Longrightarrow> o_kyc ord = Some b \<or> (\<exists>k. tbl_get (kyc_bundles d) b = Some k \<and> k_user k = o_user ord)"
    using e edit_int_Inr [OF e(1)] edit_int_Inr [OF e(2)] edit_kyc_Inr [of flt f ord d b] by auto
qed

lemma edit_order_Inl: "edit_order flt f ord d \<noteq> Inl UpdSaved"
proof -
  have "edit_kind a ord \<noteq> Inl UpdSaved" "edit_route flt f k ord d \<noteq> Inl UpdSaved"
    "err \<noteq> UpdSaved \<Longrightarrow> edit_int b lo hi cur err \<noteq> Inl UpdSaved" "edit_kyc flt f ord d \<noteq> Inl UpdSaved" for a b k lo hi cur err
    by (auto simp: edit_kind_def edit_route_def edit_int_def edit_kyc_def Let_def split: option.splits route_kind.splits if_splits)
  moreover have "sum_bind r g \<noteq> Inl x" if "r \<noteq> Inl x" "\<And>y. g y \<noteq> Inl x" for r x and g :: "'a \<Rightarrow> 'e + 'b"
    using that by (cases r) auto
  ultimately show ?thesis unfolding edit_order_def by (auto simp: sum_bind_def split: sum.splits)
qed

text \<open>
  C7: a saved edit touches its own order only and keeps its user, its number and its rate card;
  it never routes to another user's SIP peer, never attaches another user's bundle, and moves
  the status in one way: from waiting for KYC to active, when the bundle is approved. No edit to
  an audio group is ever saved (the column it leaves NULL does not allow it).
\<close>

theorem order_update_guarded:
  assumes "order_update flt oid (Some f) d = (UpdSaved, e)" "tbl_get (orders d) oid = Some r"
  shows "\<exists>q. tbl_get (orders e) oid = Some q \<and> e = d\<lparr>orders := orders e\<rparr> \<and>
    (\<forall>j. j \<noteq> oid \<longrightarrow> tbl_get (orders e) j = tbl_get (orders d) j) \<and>
    o_user q = o_user r \<and> o_did q = o_did r \<and> o_rate_card q = o_rate_card r \<and>
    o_kind q \<noteq> RouteAudioGroup \<and> (o_kind q = RouteSIPAccount \<longrightarrow> has_peer (o_user r) (o_target q) d) \<and>
    (o_channels q = o_channels r \<or> 0 \<le> o_channels q \<and> o_channels q \<le> 8192) \<and>
    (o_kyc q = o_kyc r \<or> (\<forall>b. o_kyc q = Some b \<longrightarrow> (\<exists>k. tbl_get (kyc_bundles d) b = Some k \<and> k_user k = o_user r))) \<and>
    o_status q = (if o_status r = OrdKycPending \<and> bundle_approved (o_kyc q) d then OrdActive else o_status r)"
proof -
  obtain p rt where p: "edit_order flt f r d = Inr p" "op_target p = Some rt"
    and e: "e = d\<lparr>orders := tbl_upd oid (patch_order p rt (bundle_approved (op_kyc p) d)) (orders d)\<rparr>"
    using assms by (auto simp: order_update_def save_patch_def Let_def edit_order_Inl split: if_splits option.splits sum.splits)
  let ?q = "patch_order p rt (bundle_approved (op_kyc p) d) r"
  note g = edit_order_Inr [OF p]
  have k: "op_kyc p = o_kyc r \<or> (\<forall>b. op_kyc p = Some b \<longrightarrow> (\<exists>k. tbl_get (kyc_bundles d) b = Some k \<and> k_user k = o_user r))"
    using g(5) by (cases "op_kyc p") auto
  show ?thesis
    by (rule exI [of _ ?q]) (use assms(2) e g(1-3) k in \<open>simp add: patch_order_def\<close>)
qed

definition peer_db :: db where
  "peer_db = shop_sold\<lparr>sip_accounts := [(9, \<lparr>sa_user = 1, sa_username = ''desk'', sa_realm = ''r'', sa_ha1 = []\<rparr>)]\<rparr>"

definition peer_form :: update_form where
  "peer_form = \<lparr>uf_kind = ''sip_account'', uf_target = ''desk'', uf_audio = [], uf_group = [], uf_channels = ''3'',
     uf_day = [], uf_kyc = [], uf_kyc_clear = False\<rparr>"

theorem order_update_guarded_witness:
  "\<exists>q. tbl_get (orders (snd (order_update no_office_faults 1 (Some peer_form) peer_db))) 1 = Some q \<and>
     o_user q = 1 \<and> o_kind q \<noteq> RouteAudioGroup"
proof -
  let ?e = "snd (order_update no_office_faults 1 (Some peer_form) peer_db)"
  have u: "order_update no_office_faults 1 (Some peer_form) peer_db = (UpdSaved, ?e)" by code_simp
  have r: "tbl_get (orders peer_db) 1 = Some shop_order" by code_simp
  show ?thesis using order_update_guarded [OF u r] by (auto simp: shop_order_def new_order_def)
qed

subsection \<open>Swapping the number\<close>


definition spare_did :: did_row where
  "spare_did = \<lparr>d_e164 = ''441134960001'', d_supplier = 1, d_country = ''GB'', d_type = ''national'', d_cap = 4,
     d_status = DidAvailable, d_res_kind = None, d_res_target = None, d_res_group = None, d_res_file = None,
     d_res_note = None, d_res_at = None, d_res_by = None\<rparr>"

definition two_dids :: db where
  "two_dids = shop_sold\<lparr>dids := dids shop_sold @ [(8, spare_did)]\<rparr>"


subsection \<open>Deleting a user\<close>


definition idle_store :: kyc_store where
  "idle_store = \<lparr>ky_db = shop_db, ky_files = [doc_path 1 5 ''id.pdf'' \<mapsto> ''scan'']\<rparr>"


subsection \<open>Reserving and releasing\<close>

text \<open>
  C28: a number that is reserved and then released is back as it was, every column of it, with
  the route that was reserved archived in the history; no other number and no order changes.
\<close>

theorem reserve_release_roundtrip:
  assumes "did_reserve flt t admin n f d = ((None, ok), e)" "did_release flt' t' admin' n e = (RelDone, g)"
    and "tbl_get (dids d) n = Some r" "released_row r = r" "distinct (tbl_ids (dids d))"
  shows "g = d\<lparr>res_history := res_history g\<rparr> \<and> d_status r = DidAvailable \<and>
    (\<exists>h. res_history g = res_history d @ [h] \<and> rv_did h = n \<and> map_option route_kind_text (rv_kind h) = Some (trim_space (rf_kind f)) \<and>
       rv_by h = Some admin \<and> rv_at h = t \<and> rv_note h = Some (trim_space (rf_note f)) \<and> rv_released_by h = Some admin')"
proof -
  let ?free = "\<lambda>j m. j = n \<and> d_status m = DidAvailable"
  obtain k rt af ag where k: "route_kind_of (trim_space (rf_kind f)) = Some k" and a: "affected ?free (dids d) \<noteq> 0"
    and e: "e = d\<lparr>dids := tbl_upd_where ?free (reserved_row k rt af ag (trim_space (rf_note f)) admin t) (dids d)\<rparr>"
    using assms(1) by (auto simp: did_reserve_def Let_def split: if_splits option.splits sum.splits)
  obtain m where m: "(n, m) \<in> set (dids d)" "d_status m = DidAvailable" using a by (auto simp: affected_0)
  have mr: "m = r" using unique_id [OF assms(5) m(1) assms(3)] .
  let ?r = "reserved_row k rt af ag (trim_space (rf_note f)) admin t r"
  have er: "tbl_get (dids e) n = Some ?r" using assms(3) m(2) mr by (simp add: e)
  have g: "g = e\<lparr>dids := tbl_upd n released_row (dids e), res_history := res_history e @ [history_row t' admin' n ?r]\<rparr>"
    using assms(2) er by (auto simp: did_release_def reserved_row_def split: if_splits)
  obtain xs ys where s: "dids d = xs @ (n, r) # ys" using m(1) mr by (auto simp: in_set_conv_decomp)
  have out: "n \<notin> fst ` set xs" "n \<notin> fst ` set ys" using assms(5) by (auto simp: s tbl_ids_def)
  have keep: "map (\<lambda>(j, x). (j, if j = n then h x else x)) zs = zs"
    if "n \<notin> fst ` set zs" for h and zs :: "did_row table"
    using that by (induction zs) auto
  have keep2: "map (\<lambda>(j, x). (j, if j = n \<and> d_status x = DidAvailable then h x else x)) zs = zs"
    if "n \<notin> fst ` set zs" for h and zs :: "did_row table"
    using that by (induction zs) auto
  have "released_row ?r = r" using assms(4) by (simp add: released_row_def reserved_row_def)
  then have "dids g = dids d"
    using out m(2) mr by (simp add: g e s tbl_upd_def tbl_upd_where_def keep keep2)
  then have "g = d\<lparr>res_history := res_history g\<rparr>" by (simp add: g e)
  moreover have "route_kind_text k = trim_space (rf_kind f)" by (rule route_kind_of_Some [OF k])
  ultimately show ?thesis using m(2) mr by (simp add: g e history_row_def reserved_row_def)
qed

definition keep_form :: reserve_form where
  "keep_form = \<lparr>rf_kind = ''ip'', rf_target = ''192.0.2.7'', rf_audio = [], rf_group = [], rf_note = ''carrier test''\<rparr>"

theorem reserve_release_roundtrip_witness:
  "dids (snd (did_release no_office_faults 20 3 8 (snd (did_reserve no_office_faults 10 2 8 keep_form two_dids)))) = dids two_dids"
proof -
  let ?e = "snd (did_reserve no_office_faults 10 2 8 keep_form two_dids)"
  let ?g = "snd (did_release no_office_faults 20 3 8 ?e)"
  have r: "did_reserve no_office_faults 10 2 8 keep_form two_dids = ((None, True), ?e)"
    "did_release no_office_faults 20 3 8 ?e = (RelDone, ?g)" "tbl_get (dids two_dids) 8 = Some spare_did"
    "released_row spare_did = spare_did" "distinct (tbl_ids (dids two_dids))" by code_simp+
  have "?g = two_dids\<lparr>res_history := res_history ?g\<rparr>" using reserve_release_roundtrip [OF r] by simp
  then have "dids ?g = dids (two_dids\<lparr>res_history := res_history ?g\<rparr>)" by simp
  then show ?thesis by simp
qed

end
