(* ===== verification/Rate_Life.thy ===== *)
theory Rate_Life
  imports Order_Life
begin

text \<open>
  What the forms on rate cards and number ranges promise: every stored card passes the
  constraints and a slot has one active card, a bulk import is all or nothing, a new card is the
  one the next order pays, and a range import stores exactly its numbers.
\<close>

subsection \<open>The cards\<close>

inductive rate_step :: "db \<Rightarrow> db \<Rightarrow> bool" where
  create: "rate_card_create cf rf env sid f d = (rep, e) \<Longrightarrow> rate_step d e"
| bulk: "rate_card_create_bulk bf cf flt env sid body d = (krep, e) \<Longrightarrow> rate_step d e"
| update: "rate_card_update lf rf env rid rtf d = (rep, e) \<Longrightarrow> rate_step d e"
| expire: "rate_step d (rate_card_expire rf now rid d)"
| sell: "order_create flt now f d = (crep, e) \<Longrightarrow> rate_step d e"

inductive_cases rate_stepE: "rate_step d e"

lemma order_create_cards:
  assumes "order_create flt now f d = (rep, e)"
  shows "rate_cards e = rate_cards d"
proof (cases "\<exists>st. rep = CreateDone st")
  case True
  then obtain st where "order_create flt now f d = (CreateDone st, e)" using assms by auto
  then show ?thesis by (cases rule: order_create_done) simp
next
  case False
  with order_create_failed [OF assms] show ?thesis by auto
qed

lemma order_create_cards_ok: "order_create flt now f d = (rep, e) \<Longrightarrow> cards_ok d \<Longrightarrow> cards_ok e"
  by (simp add: cards_ok_def order_create_cards)

interpretation cards: safe_machine rate_step cards_ok
proof (unfold_locales, goal_cases)
  case (1 d e)
  then show ?case
    by cases (auto intro: rate_card_create_ok rate_card_create_bulk_ok rate_card_update_ok rate_card_expire_ok
        order_create_cards_ok)
qed

lemma active_card_unique:
  assumes "slots_unique t" "(i, r) \<in> set t" "(j, q) \<in> set t" "r_valid_to r = None" "r_valid_to q = None"
    "rate_slot r = rate_slot q" "distinct (tbl_ids t)"
  shows "(i, r) = (j, q)"
proof -
  let ?a = "filter (\<lambda>(k, r). r_valid_to r = None) t"
  have inj: "inj_on (\<lambda>(k, r). rate_slot r) (set ?a)" using assms(1) by (simp add: slots_unique_def active_slots_def distinct_map)
  show ?thesis by (rule inj_onD [OF inj]) (use assms(2-6) in simp_all)
qed


subsection \<open>A new card is the one that is charged\<close>

lemma rate_card_create_saved:
  assumes "rate_card_create cf rf env sid f d = (RateSaved, e)"
  obtains r where "e = d\<lparr>rate_cards := tbl_insert r (rate_cards d)\<rparr>" "rate_slot r = (sid, to_upper (trim_space (rtf_country f)), trim_space (rtf_type f))"
    "r_valid_to r = None" "r_nrc r = dollars_to_cents (rtf_nrc f)"
proof -
  let ?c = "to_upper (trim_space (rtf_country f))" and ?t = "trim_space (rtf_type f)"
  have "insert_rate rf env sid ?c ?t (form_values f) d = Some e"
    using assms by (auto simp: rate_card_create_def Let_def split: if_splits option.splits)
  then obtain r where r: "e = d\<lparr>rate_cards := tbl_insert r (rate_cards d)\<rparr>" "r_supplier r = sid" "r_country r = ?c"
    "r_type r = ?t" "r_valid_to r = None" "r_nrc r = rv_nrc (form_values f)" by (rule insert_rate_Some)
  show thesis by (rule that [OF r(1)]) (use r in \<open>simp_all add: rate_slot_def form_values_def\<close>)
qed

text \<open>The active cards of one slot are at most one, so the sort has nothing to choose.\<close>

lemma rate_for_did_active:
  assumes "cards_ok d" "tbl_get (dids d) n = Some m" "(k, r) \<in> set (rate_cards d)" "r_valid_to r = None"
    "rate_slot r = (d_supplier m, d_country m, d_type m)"
  shows "rate_for_did n d = Some (k, r)"
proof -
  let ?f = "filter (\<lambda>(k, r). r_supplier r = d_supplier m \<and> r_country r = d_country m \<and> r_type r = d_type m \<and> r_valid_to r = None) (rate_cards d)"
  have one: "x = (k, r)" if "x \<in> set ?f" for x
    using active_card_unique [of "rate_cards d" "fst x" "snd x" k r] assms that by (auto simp: cards_ok_def rate_slot_def)
  have "(k, r) \<in> set ?f" using assms(3-5) by (auto simp: rate_slot_def)
  then have "?f \<noteq> []" by (intro notI) (simp only: list.set empty_iff)
  then obtain y ys where s: "sort_key (\<lambda>(k, r). - r_valid_from r) ?f = y # ys"
    by (cases "sort_key (\<lambda>(k, r). - r_valid_from r) ?f") simp_all
  have "y \<in> set ?f" using arg_cong [OF s, of set] by auto
  with one have "y = (k, r)" by blast
  then show ?thesis using s assms(2) by (simp add: rate_for_did_def)
qed

text \<open>
  C30: once a card is saved, the next order of any number of its supplier, country and type is
  priced by it: the one-off charge is the amount typed into the form.
\<close>

theorem new_card_is_charged:
  assumes "rate_card_create cf rf env sid f d = (RateSaved, e)" "cards_ok d"
    and "tbl_get (dids d) n = Some m" "d_supplier m = sid" "d_country m = to_upper (trim_space (rtf_country f))"
      "d_type m = trim_space (rtf_type f)"
  shows "\<exists>r. rate_for_did n e = Some (next_id (rate_cards d), r) \<and> r_nrc r = dollars_to_cents (rtf_nrc f)"
  using assms(1)
proof (rule rate_card_create_saved)
  fix r
  assume r: "e = d\<lparr>rate_cards := tbl_insert r (rate_cards d)\<rparr>"
    "rate_slot r = (sid, to_upper (trim_space (rtf_country f)), trim_space (rtf_type f))"
    "r_valid_to r = None" "r_nrc r = dollars_to_cents (rtf_nrc f)"
  have "rate_for_did n e = Some (next_id (rate_cards d), r)"
    by (rule rate_for_did_active [where m = m]) (use assms rate_card_create_ok [OF assms(1,2)] r in \<open>auto simp: set_tbl_insert\<close>)
  with r(4) show ?thesis by blast
qed

subsection \<open>Many cards at once\<close>

lemma bulk_rows_appends:
  "bulk_rows flt env sid i rows d = Inr e \<Longrightarrow>
   \<exists>new. e = d\<lparr>rate_cards := rate_cards d @ new\<rparr> \<and>
     map (\<lambda>(k, r). (rate_slot r, r_nrc r, r_valid_to r)) new =
       map (\<lambda>row. ((sid, to_upper (trim_space (bk_country row)), trim_space (bk_type row)), 0, None)) rows"
proof (induction rows arbitrary: i d)
  case (Cons row rows)
  obtain d1 where d1: "insert_rate (flt i) env sid (to_upper (trim_space (bk_country row))) (trim_space (bk_type row)) (bulk_values row) d = Some d1"
    "bulk_rows flt env sid (Suc i) rows d1 = Inr e"
    using Cons.prems by (auto simp: Let_def split: if_splits option.splits)
  have z: "dollars_trunc (decoded_nrc row) = 0" by (simp add: dollars_trunc_def decoded_nrc_def float_to_int64_def trunc_def)
  obtain r where r: "d1 = d\<lparr>rate_cards := tbl_insert r (rate_cards d)\<rparr>" "r_valid_to r = None" "r_nrc r = 0"
    "rate_slot r = (sid, to_upper (trim_space (bk_country row)), trim_space (bk_type row))"
    by (rule insert_rate_Some [OF d1(1)]) (auto simp: rate_slot_def bulk_values_def z)
  from Cons.IH [OF d1(2)] r show ?case by (auto simp: tbl_insert_def)
qed (auto intro: exI [of _ "[]"])

text \<open>
  C31: a bulk import creates a card for every row of the body, in order, or changes nothing at
  all; and every card it creates has a one-off charge of 0, whatever the rows say.
\<close>

theorem bulk_all_or_nothing:
  assumes "rate_card_create_bulk bf cf flt env sid body d = (rep, e)"
  shows "case rep of
      BulkCreated n \<Rightarrow> \<exists>rows new. body = Some rows \<and> n = length rows \<and> e = d\<lparr>rate_cards := rate_cards d @ new\<rparr> \<and>
        map (\<lambda>(k, r). (rate_slot r, r_nrc r, r_valid_to r)) new =
          map (\<lambda>row. ((sid, to_upper (trim_space (bk_country row)), trim_space (bk_type row)), 0, None)) rows
    | _ \<Rightarrow> e = d"
proof -
  have err: "bulk_rows flt env sid i rows d \<noteq> Inl (BulkCreated n)" for i rows d n
    by (induction rows arbitrary: i d) (auto simp: Let_def split: option.splits)
  consider "e = d \<and> (\<forall>n. rep \<noteq> BulkCreated n)" | rows where "body = Some rows" "bulk_rows flt env sid 0 rows d = Inr e" "rep = BulkCreated (length rows)"
    using assms err by (auto simp: rate_card_create_bulk_def split: option.splits if_splits sum.splits)
  then show ?thesis
  proof cases
    case 1
    then show ?thesis by (cases rep) simp_all
  next
    case 2
    with bulk_rows_appends [OF 2(2)] show ?thesis by auto
  qed
qed

subsection \<open>Ranges of numbers\<close>

lemma insert_did_one:
  "set (did_numbers (snd (insert_did n sid c ty cap d))) = insert n (set (did_numbers d)) \<and>
   take (length (dids d)) (dids (snd (insert_did n sid c ty cap d))) = dids d"
  by (auto simp: insert_did_def did_numbers_def tbl_insert_def)

lemma submit_loop_ok:
  assumes "- (2 ^ 63) \<le> n" "end' < 2 ^ 63 - 1" "n \<le> end' + 1" "\<And>i. \<not> bad i"
  shows "\<exists>e. submit_loop bad sid c ty cap n end' k d = Some (Some (k + nat (end' + 1 - n), e)) \<and>
    set (did_numbers e) = itoa ` {n..end'} \<union> set (did_numbers d) \<and> (\<exists>new. dids e = dids d @ new)"
  using assms(1-3)
proof (induction "nat (end' + 1 - n)" arbitrary: n k d)
  case 0
  then show ?case by (subst submit_loop.simps) auto
next
  case (Suc x)
  let ?d = "snd (insert_did (itoa n) sid c ty cap d)"
  have n: "n \<le> end'" using Suc.hyps(2) by simp
  have "wrap64 (n + 1) = n + 1" using Suc.prems n assms(2) by (intro wrap64_id) auto
  then have l: "submit_loop bad sid c ty cap n end' k d = submit_loop bad sid c ty cap (n + 1) end' (Suc k) ?d"
    using n assms(4) by (subst submit_loop.simps) simp
  have "x = nat (end' + 1 - (n + 1))" "- (2 ^ 63) \<le> n + 1" "n + 1 \<le> end' + 1" using Suc n by simp_all
  from Suc.hyps(1) [OF this(1,2) assms(2) this(3), of "Suc k" ?d] obtain e where e:
    "submit_loop bad sid c ty cap (n + 1) end' (Suc k) ?d = Some (Some (Suc k + nat (end' + 1 - (n + 1)), e))"
    "set (did_numbers e) = itoa ` {n + 1..end'} \<union> set (did_numbers ?d)" "\<exists>new. dids e = dids ?d @ new" by blast
  have r: "{n..end'} = insert n {n + 1..end'}" using n by auto
  have "\<exists>new. dids ?d = dids d @ new" by (auto simp: insert_did_def tbl_insert_def)
  then have "\<exists>new. dids e = dids d @ new" using e(3) by auto
  moreover have "Suc k + nat (end' + 1 - (n + 1)) = k + nat (end' + 1 - n)" using n by simp
  moreover have "set (did_numbers e) = itoa ` {n..end'} \<union> set (did_numbers d)"
    using e(2) insert_did_one [of "itoa n" sid c ty cap d] by (simp add: r)
  ultimately show ?case using l e(1) by (intro exI [of _ e]) simp
qed

text \<open>
  When no INSERT fails, a range import returns, adds exactly the numbers of its range to
  those stored and keeps the rows that were there, and reports the size of the range, at most
  10001, whether or not the numbers were new.
\<close>

theorem range_import_exact:
  assumes "submit_bounds f = Inr (start, end')" "end' < 2 ^ 63 - 1" "\<And>i. \<not> bad i"
  shows "\<exists>e. did_import_submit False False bad f d = Some (SubDone (nat (end' - start + 1)), e) \<and>
    set (did_numbers e) = itoa ` {start..end'} \<union> set (did_numbers d) \<and> (\<exists>new. dids e = dids d @ new) \<and>
    nat (end' - start + 1) \<le> 10001"
proof -
  have b: "0 < start" "start \<le> end'" "\<not> 10000 < wrap64 (end' - start)"
    using assms(1) by (auto simp: submit_bounds_def Let_def split: if_splits)
  have "wrap64 (end' - start) = end' - start" using b(1,2) assms(2) by (intro wrap64_id) auto
  with b have n: "nat (end' - start + 1) \<le> 10001" by simp
  have "- (2 ^ 63) \<le> start" "start \<le> end' + 1" using b(1,2) by simp_all
  note l = submit_loop_ok [OF this(1) assms(2) this(2), of bad, OF assms(3)]
  obtain e where e: "submit_loop bad (atoi64 (sb_supplier f)) (to_upper (sb_country f)) (sb_type f) (cap_field (sb_cap f)) start end' 0 d =
      Some (Some (0 + nat (end' + 1 - start), e))"
    "set (did_numbers e) = itoa ` {start..end'} \<union> set (did_numbers d)" "\<exists>new. dids e = dids d @ new"
    using l [where sid = "atoi64 (sb_supplier f)" and c = "to_upper (sb_country f)" and ty = "sb_type f" and cap = "cap_field (sb_cap f)" and k = 0 and d = d]
    by blast
  have "nat (end' + 1 - start) = nat (end' - start + 1)" by (simp add: algebra_simps)
  with e assms(1) n show ?thesis by (simp add: did_import_submit_def)
qed

subsection \<open>Concrete runs\<close>

definition rate_world :: rate_env where
  "rate_world = \<lparr>re_now = 100, re_supplier = (\<lambda>s. s = 1), re_country = (\<lambda>c. c = ''GB''),
     re_numeric = (\<lambda>x. case x of Finite v \<Rightarrow> Some v | _ \<Rightarrow> None)\<rparr>"

definition priced_form :: rate_form where
  "priced_form = \<lparr>rtf_country = '' gb'', rtf_type = ''mobile'', rtf_nrc = ''2.50'', rtf_mrc = [], rtf_channel = [],
     rtf_per_minute = [], rtf_bill_min = ''6'', rtf_bill_inc = [], rtf_sup_per_minute = [], rtf_sup_nrc = [],
     rtf_sup_mrc = [], rtf_sup_bill_min = [], rtf_sup_bill_inc = []\<rparr>"

definition priced_row :: rate_row where
  "priced_row = \<lparr>r_supplier = 1, r_country = ''GB'', r_type = ''mobile'', r_valid_from = 100, r_valid_to = None,
     r_nrc = 250, r_mrc = 0, r_channel_monthly = 0, r_per_minute = 0, r_bill_min = 6, r_bill_inc = 60,
     r_sup_per_minute = 0, r_sup_bill_min = 60, r_sup_nrc = 0, r_sup_mrc = 0, r_sup_bill_inc = 60\<rparr>"

lemma rate_field_blank: "rate_field [] = Finite 0"
proof -
  have "trim_prefix (trim_space []) ''$'' = []" "\<not> float_word []" "float_syntax [] = None" by code_simp+
  then show ?thesis by (simp add: rate_field_def parsed_or_zero_def)
qed

lemma dollars_250: "dollars_to_cents ''2.50'' = 250"
proof -
  have "cents_text 250 = ''2.50''" by code_simp
  then show ?thesis using dollars_value [of 250] by simp
qed

definition mobile_db :: db where
  "mobile_db = shop_db\<lparr>dids := [(8, spare_did\<lparr>d_type := ''mobile''\<rparr>)]\<rparr>"

lemma priced_create:
  "rate_card_create False False rate_world 1 priced_form mobile_db =
     (RateSaved, mobile_db\<lparr>rate_cards := tbl_insert priced_row (rate_cards mobile_db)\<rparr>)"
proof -
  have s: "to_upper (trim_space '' gb'') = ''GB''" "trim_space ''mobile'' = ''mobile''" "atoi64 ''6'' = 6" "atoi64 [] = 0"
    "active_in_slot 1 ''GB'' ''mobile'' mobile_db = 0" "rate_checks priced_row"
    "slots_unique (tbl_insert priced_row (rate_cards mobile_db))" "''mobile'' \<in> set did_types"
    by code_simp+
  have v: "form_values priced_form = \<lparr>rv_nrc = 250, rv_mrc = 0, rv_channel = 0, rv_per_minute = Finite 0, rv_bill_min = 6,
      rv_bill_inc = 60, rv_sup_per_minute = Finite 0, rv_sup_nrc = 0, rv_sup_mrc = 0, rv_sup_bill_min = 60, rv_sup_bill_inc = 60\<rparr>"
    by (simp add: form_values_def priced_form_def dollars_250 dollars_blank rate_field_blank cycle_or_60_def s)
  have i: "insert_rate False rate_world 1 ''GB'' ''mobile'' (form_values priced_form) mobile_db =
      Some (mobile_db\<lparr>rate_cards := tbl_insert priced_row (rate_cards mobile_db)\<rparr>)"
    using s(6-8) by (simp add: insert_rate_def set_values_def v rate_world_def priced_row_def)
  have "rtf_country priced_form = '' gb''" "rtf_type priced_form = ''mobile''" by (simp_all add: priced_form_def)
  with i s show ?thesis by (simp add: rate_card_create_def v allowed_cycle_def)
qed

lemma mobile_cards_ok: "cards_ok mobile_db" by code_simp

theorem new_card_is_charged_witness:
  "\<exists>r. rate_for_did 8 (snd (rate_card_create False False rate_world 1 priced_form mobile_db)) = Some (4, r) \<and> r_nrc r = 250"
proof -
  have s: "to_upper (trim_space (rtf_country priced_form)) = ''GB''" "trim_space (rtf_type priced_form) = ''mobile''"
    "tbl_get (dids mobile_db) 8 = Some (spare_did\<lparr>d_type := ''mobile''\<rparr>)" "next_id (rate_cards mobile_db) = 4"
    "d_country (spare_did\<lparr>d_type := ''mobile''\<rparr>) = ''GB''" "d_type (spare_did\<lparr>d_type := ''mobile''\<rparr>) = ''mobile''"
    "d_supplier (spare_did\<lparr>d_type := ''mobile''\<rparr>) = 1"
    by code_simp+
  have n: "dollars_to_cents (rtf_nrc priced_form) = 250" by (simp add: priced_form_def dollars_250)
  show ?thesis using new_card_is_charged [OF priced_create mobile_cards_ok s(3)] by (simp add: s n priced_create)
qed


definition list_row :: "string \<Rightarrow> bulk_row" where
  "list_row ty = \<lparr>bk_country = ''GB'', bk_type = ty, bk_nrc = 5 / 2, bk_mrc = 0, bk_channel = 0, bk_per_minute = 0,
     bk_bill_min = 0, bk_bill_inc = 0, bk_sup_per_minute = 0, bk_sup_nrc = 0, bk_sup_mrc = 0, bk_sup_bill_min = 0, bk_sup_bill_inc = 0\<rparr>"

definition listed_row :: "string \<Rightarrow> rate_row" where
  "listed_row ty = priced_row\<lparr>r_type := ty, r_nrc := 0, r_bill_min := 60\<rparr>"

lemma list_row_insert:
  assumes "ty \<in> set did_types" "slots_unique (tbl_insert (listed_row ty) (rate_cards d))" "rate_checks (listed_row ty)"
  shows "insert_rate False rate_world 1 ''GB'' ty (bulk_values (list_row ty)) d = Some (d\<lparr>rate_cards := tbl_insert (listed_row ty) (rate_cards d)\<rparr>)"
  using assms by (simp add: insert_rate_def set_values_def bulk_values_def list_row_def listed_row_def priced_row_def rate_world_def
      dollars_trunc_def decoded_nrc_def float_to_int64_def trunc_def cycle_or_60_def)

definition listed_db :: db where
  "listed_db = mobile_db\<lparr>rate_cards := tbl_insert (listed_row ''local'') (tbl_insert (listed_row ''mobile'') (rate_cards mobile_db))\<rparr>"

theorem bulk_all_or_nothing_witness:
  "rate_card_create_bulk False False (\<lambda>i. False) rate_world 1 (Some [list_row ''mobile'', list_row ''local'']) mobile_db = (BulkCreated 2, listed_db) \<and>
   (\<exists>new. rate_cards listed_db = rate_cards mobile_db @ new \<and> length new = 2)"
proof -
  let ?d = "mobile_db\<lparr>rate_cards := tbl_insert (listed_row ''mobile'') (rate_cards mobile_db)\<rparr>"
  have c: "''mobile'' \<in> set did_types" "slots_unique (tbl_insert (listed_row ''mobile'') (rate_cards mobile_db))" "rate_checks (listed_row ''mobile'')"
    "''local'' \<in> set did_types" "slots_unique (tbl_insert (listed_row ''local'') (rate_cards ?d))" "rate_checks (listed_row ''local'')"
    by code_simp+
  have t: "to_upper (trim_space ''GB'') = ''GB''" "trim_space ''mobile'' = ''mobile''" "trim_space ''local'' = ''local''" by code_simp+
  have f: "bk_country (list_row ty) = ''GB''" "bk_type (list_row ty) = ty" for ty by (simp_all add: list_row_def)
  have r: "rate_card_create_bulk False False (\<lambda>i. False) rate_world 1 (Some [list_row ''mobile'', list_row ''local'']) mobile_db = (BulkCreated 2, listed_db)"
    using list_row_insert [OF c(1-3)] list_row_insert [OF c(4-6)] by (simp add: rate_card_create_bulk_def f t listed_db_def)
  obtain new where e: "listed_db = mobile_db\<lparr>rate_cards := rate_cards mobile_db @ new\<rparr>" "length new = 2"
    using bulk_all_or_nothing [OF r] by (auto dest!: arg_cong [where f = length])
  have "rate_cards (mobile_db\<lparr>rate_cards := rate_cards mobile_db @ new\<rparr>) = rate_cards mobile_db @ new" by simp
  then have "rate_cards listed_db = rate_cards mobile_db @ new" unfolding e(1) [symmetric] .
  with r e(2) show ?thesis by blast
qed

definition few_numbers :: submit_form where
  "few_numbers = \<lparr>sb_supplier = ''1'', sb_country = ''gb'', sb_type = ''mobile'', sb_start = ''441134960001'', sb_end = ''441134960003'', sb_cap = []\<rparr>"

theorem range_import_exact_witness:
  "\<exists>e. did_import_submit False False (\<lambda>i. False) few_numbers mobile_db = Some (SubDone 3, e) \<and> ''441134960002'' \<in> set (did_numbers e)"
proof -
  have b: "submit_bounds few_numbers = Inr (441134960001, 441134960003)" by code_simp
  have n: "itoa 441134960002 = ''441134960002''" by code_simp
  have "itoa 441134960002 \<in> itoa ` {441134960001..441134960003 :: int}" by (rule imageI) simp
  then show ?thesis using range_import_exact [OF b, of "\<lambda>i. False" mobile_db] n by auto
qed

end
