(* ===== verification/Suppliers.thy ===== *)
theory Suppliers
  imports Forms Sip_Acl
begin

text \<open>
  Suppliers, their IP groups and the members of the groups in \<open>web/crud.go\<close>
  (supplierCreate, supplierUpdate, ipGroupCreate, ipGroupUpdate, ipGroupDelete, ipMemberAdd,
  ipMemberAddBulk, ipMemberEdit, ipMemberDelete, classifyMatch). The allow-list of the control
  plane is the join of groups and members (\<open>joined_acl\<close>).
\<close>

subsection \<open>IP, network or host name\<close>

text \<open>\<open>netip.ParseAddr\<close> without zones: whether the text is an IPv4 address, and the address.\<close>

definition parse_addr :: "string \<Rightarrow> (bool \<times> ip) option" where
  "parse_addr s =
     (case dropWhile (\<lambda>c. c \<notin> {CHR ''.'', CHR '':'', CHR ''%''}) s of
        [] \<Rightarrow> None
      | c # _ \<Rightarrow> map_option (Pair (c = CHR ''.'')) (parse_ip s))"

text \<open>\<open>netip.ParsePrefix\<close>: at the last slash, without a sign or leading zeros in the length.\<close>

definition parse_prefix :: "string \<Rightarrow> (bool \<times> ip \<times> nat) option" where
  "parse_prefix s =
     (if CHR ''/'' \<notin> set s then None
      else let bits = rev (takeWhile (\<lambda>c. c \<noteq> CHR ''/'') (rev s)); addr = take (length s - length bits - 1) s in
        case parse_addr addr of
          None \<Rightarrow> None
        | Some (is4, a) \<Rightarrow>
            if 1 < length bits \<and> \<not> (CHR ''1'' \<le> hd bits \<and> hd bits \<le> CHR ''9'') then None
            else (case parse_int64 bits of
                    None \<Rightarrow> None
                  | Some n \<Rightarrow> if n < 0 \<or> (if is4 then 32 else 128) < n then None else Some (is4, a, nat n)))"

definition label_byte :: "char \<Rightarrow> bool" where
  "label_byte c \<longleftrightarrow> c = CHR ''-'' \<or> CHR ''0'' \<le> c \<and> c \<le> CHR ''9'' \<or> CHR ''a'' \<le> c \<and> c \<le> CHR ''z''"

definition label_ok :: "string \<Rightarrow> bool" where
  "label_ok l \<longleftrightarrow> l \<noteq> [] \<and> length l \<le> 63 \<and> hd l \<noteq> CHR ''-'' \<and> last l \<noteq> CHR ''-'' \<and> list_all label_byte l"

definition host_name_ok :: "string \<Rightarrow> bool" where
  "host_name_ok h \<longleftrightarrow> CHR ''.'' \<in> set h \<and> length h \<le> 253 \<and> list_all label_ok (split_byte (CHR ''.'') h)"

datatype match_kind = MatchCidr | MatchHost | MatchNone

definition cidr_candidate :: "string \<Rightarrow> string" where
  "cidr_candidate s =
     (if CHR ''/'' \<in> set s then s
      else case parse_addr s of
        None \<Rightarrow> s
      | Some (is4, _) \<Rightarrow> s @ (if is4 then ''/32'' else ''/128''))"

definition classify_match :: "string \<Rightarrow> match_kind \<times> string" where
  "classify_match s0 =
     (let s = trim_space s0; c = cidr_candidate s; lc = to_lower s in
      if s = [] then (MatchNone, s)
      else if parse_prefix c \<noteq> None then (MatchCidr, c)
      else if host_name_ok lc then (MatchHost, lc)
      else (MatchNone, s))"

subsection \<open>The tables\<close>

record supplier_row =
  sup_name :: string
  sup_status :: string
  sup_notes :: string

record ip_group_row =
  ig_supplier :: db_id
  ig_name :: string

text \<open>A network under its family, as Postgres keeps it, or a host name.\<close>

datatype member_match = MemCidr bool ip nat | MemHost string

record ip_member_row =
  im_group :: db_id
  im_match :: member_match

record supplier_store =
  sp_suppliers :: "supplier_row table"
  sp_groups :: "ip_group_row table"
  sp_members :: "ip_member_row table"

text \<open>The address bits in the family of the text; an IPv4-mapped IPv6 address has 128 of them.\<close>

definition family_bits :: "bool \<Rightarrow> ip \<Rightarrow> bool list" where
  "family_bits is4 a = concat (map byte_bits (if is4 then drop 12 a else a))"

text \<open>The cast \<open>$2::cidr\<close>: no bit may be set to the right of the mask.\<close>

definition cast_cidr :: "string \<Rightarrow> member_match option" where
  "cast_cidr s =
     (case parse_prefix s of
        None \<Rightarrow> None
      | Some (is4, a, n) \<Rightarrow> if True \<in> set (drop n (family_bits is4 a)) then None else Some (MemCidr is4 a n))"

text \<open>
  What the query of the control plane sees. A network of IPv4-mapped IPv6 addresses contains no
  address it is asked about: those arrive as IPv4, another family.
\<close>

definition member_acl :: "member_match \<Rightarrow> acl_match option" where
  "member_acl m =
     (case m of
        MemCidr is4 a n \<Rightarrow> if is4 = is_v4 a then Some (AclCidr \<lparr>net_addr = a, net_len = n\<rparr>) else None
      | MemHost h \<Rightarrow> Some (AclHost h))"

definition joined_acl :: "supplier_store \<Rightarrow> acl_row list" where
  "joined_acl s =
     List.map_filter (\<lambda>(k, m).
       case (tbl_get (sp_groups s) (im_group m), member_acl (im_match m)) of
         (Some g, Some a) \<Rightarrow> Some \<lparr>a_supplier = ig_supplier g, a_match = a\<rparr>
       | _ \<Rightarrow> None) (sp_members s)"

subsection \<open>Suppliers and groups\<close>

record supplier_form =
  sf_name :: string
  sf_status :: string
  sf_notes :: string

datatype office_reply = OffBadForm | OffNameless | OffFailed | OffSaved db_id | OffDone | OffSilent

definition names_unique :: "supplier_row table \<Rightarrow> bool" where
  "names_unique t \<longleftrightarrow> distinct (map (\<lambda>(k, r). sup_name r) t)"

definition supplier_create :: "bool \<Rightarrow> supplier_form option \<Rightarrow> supplier_store \<Rightarrow> office_reply \<times> supplier_store" where
  "supplier_create fails form s =
     (case form of
        None \<Rightarrow> (OffBadForm, s)
      | Some f \<Rightarrow>
          let name = trim_space (sf_name f);
              t = tbl_insert \<lparr>sup_name = name, sup_status = nonempty (sf_status f) ''active'', sup_notes = sf_notes f\<rparr> (sp_suppliers s) in
          if name = [] then (OffNameless, s)
          else if fails \<or> \<not> names_unique t then (OffFailed, s)
          else (OffSaved (next_id (sp_suppliers s)), s\<lparr>sp_suppliers := t\<rparr>))"

definition supplier_update :: "bool \<Rightarrow> db_id \<Rightarrow> supplier_form option \<Rightarrow> supplier_store \<Rightarrow> office_reply \<times> supplier_store" where
  "supplier_update fails sid form s =
     (case form of
        None \<Rightarrow> (OffBadForm, s)
      | Some f \<Rightarrow>
          let t = tbl_upd sid (\<lambda>_. \<lparr>sup_name = trim_space (sf_name f), sup_status = nonempty (sf_status f) ''active'', sup_notes = sf_notes f\<rparr>) (sp_suppliers s) in
          if fails \<or> \<not> names_unique t then (OffFailed, s) else (OffDone, s\<lparr>sp_suppliers := t\<rparr>))"

definition group_names :: "ip_group_row table \<Rightarrow> (db_id \<times> string) list" where
  "group_names t = map (\<lambda>(k, g). (ig_supplier g, ig_name g)) t"

text \<open>The INSERT skips a name the supplier has already; success is reported all the same.\<close>

definition ip_group_create :: "bool \<Rightarrow> db_id \<Rightarrow> string \<Rightarrow> supplier_store \<Rightarrow> office_reply \<times> supplier_store" where
  "ip_group_create fails sid name0 s =
     (let name = trim_space name0 in
      if name = [] then (OffSilent, s)
      else if fails \<or> tbl_get (sp_suppliers s) sid = None then (OffFailed, s)
      else (OffDone,
            if (sid, name) \<in> set (group_names (sp_groups s)) then s
            else s\<lparr>sp_groups := tbl_insert \<lparr>ig_supplier = sid, ig_name = name\<rparr> (sp_groups s)\<rparr>))"

definition ip_group_update :: "bool \<Rightarrow> db_id \<Rightarrow> db_id \<Rightarrow> string \<Rightarrow> supplier_store \<Rightarrow> office_reply \<times> supplier_store" where
  "ip_group_update fails sid gid name0 s =
     (let name = trim_space name0;
          t = tbl_upd_where (\<lambda>k g. k = gid \<and> ig_supplier g = sid) (\<lambda>g. g\<lparr>ig_name := name\<rparr>) (sp_groups s) in
      if name = [] then (OffNameless, s)
      else if fails \<or> \<not> distinct (group_names t) then (OffFailed, s)
      else (OffDone, s\<lparr>sp_groups := t\<rparr>))"

text \<open>
  The members go whoever the group belongs to, the group only when it is the supplier's. The
  result of the commit is not looked at.
\<close>

datatype group_fault = GrpBegin | GrpMembers | GrpGroup | GrpCommit

definition ip_group_delete :: "(group_fault \<Rightarrow> bool) \<Rightarrow> db_id \<Rightarrow> db_id \<Rightarrow> supplier_store \<Rightarrow> office_reply \<times> supplier_store" where
  "ip_group_delete flt sid gid s =
     (if flt GrpBegin \<or> flt GrpMembers \<or> flt GrpGroup then (OffFailed, s)
      else if flt GrpCommit then (OffDone, s)
      else (OffDone, s\<lparr>sp_members := filter (\<lambda>(k, m). im_group m \<noteq> gid) (sp_members s),
                       sp_groups := filter (\<lambda>(k, g). \<not> (k = gid \<and> ig_supplier g = sid)) (sp_groups s)\<rparr>))"

subsection \<open>Members\<close>

text \<open>The INSERT of one match; \<open>None\<close> is an error, an existing match is skipped when asked to.\<close>

definition member_exists :: "ip_member_row \<Rightarrow> supplier_store \<Rightarrow> bool" where
  "member_exists m s \<longleftrightarrow> list_ex (\<lambda>(k, n). n = m) (sp_members s)"

definition insert_member :: "bool \<Rightarrow> bool \<Rightarrow> db_id \<Rightarrow> db_id \<Rightarrow> match_kind \<Rightarrow> string \<Rightarrow> supplier_store \<Rightarrow> supplier_store option" where
  "insert_member fails skip fresh gid kind nm s =
     (case (case kind of MatchCidr \<Rightarrow> cast_cidr nm | MatchHost \<Rightarrow> Some (MemHost nm) | MatchNone \<Rightarrow> None) of
        None \<Rightarrow> None
      | Some m \<Rightarrow>
          let row = \<lparr>im_group = gid, im_match = m\<rparr> in
          if fails \<or> tbl_get (sp_groups s) gid = None then None
          else if member_exists row s then (if skip then Some s else None)
          else Some (s\<lparr>sp_members := sp_members s @ [(fresh, row)]\<rparr>))"

datatype member_reply =
    MemBadForm | MemEmpty | MemInvalid | MemBegin | MemNotInGroup | MemDeleteFailed | MemInsertFailed | MemCommit | MemSaved match_kind

definition ip_member_add :: "bool \<Rightarrow> db_id \<Rightarrow> string \<Rightarrow> supplier_store \<Rightarrow> member_reply \<times> supplier_store" where
  "ip_member_add fails gid field s =
     (let raw = trim_space field; (kind, nm) = classify_match raw in
      if raw = [] then (MemEmpty, s)
      else if kind = MatchNone then (MemInvalid, s)
      else case insert_member fails True (next_id (sp_members s)) gid kind nm s of
        None \<Rightarrow> (MemInsertFailed, s)
      | Some t \<Rightarrow> (MemSaved kind, t))"

definition member_sep :: "char \<Rightarrow> bool" where
  "member_sep c \<longleftrightarrow> c \<in> {CHR '','', CHR 0x0A, CHR 0x0D, CHR 0x09, CHR '' '', CHR '';''}"

text \<open>One field of the pasted text: added or skipped.\<close>

definition bulk_member :: "bool \<Rightarrow> db_id \<Rightarrow> string \<Rightarrow> nat \<times> nat \<times> supplier_store \<Rightarrow> nat \<times> nat \<times> supplier_store" where
  "bulk_member fails gid raw = (\<lambda>(added, skipped, s).
     if trim_space raw = [] then (added, skipped, s)
     else case (case classify_match raw of (kind, nm) \<Rightarrow> insert_member fails True (next_id (sp_members s)) gid kind nm s) of
       None \<Rightarrow> (added, skipped + 1, s)
     | Some t \<Rightarrow> (added + 1, skipped, t))"

fun bulk_members :: "(nat \<Rightarrow> bool) \<Rightarrow> nat \<Rightarrow> db_id \<Rightarrow> string list \<Rightarrow> nat \<times> nat \<times> supplier_store \<Rightarrow> nat \<times> nat \<times> supplier_store" where
  "bulk_members flt i gid [] acc = acc"
| "bulk_members flt i gid (w # ws) acc = bulk_members flt (Suc i) gid ws (bulk_member (flt i) gid w acc)"

definition ip_member_add_bulk :: "(nat \<Rightarrow> bool) \<Rightarrow> db_id \<Rightarrow> string option \<Rightarrow> supplier_store \<Rightarrow> (nat \<times> nat) option \<times> supplier_store" where
  "ip_member_add_bulk flt gid form s =
     (case form of
        None \<Rightarrow> (None, s)
      | Some text \<Rightarrow>
          (case bulk_members flt 0 gid (fields_func member_sep text) (0, 0, s) of
             (added, skipped, t) \<Rightarrow> (Some (added, skipped), t)))"

datatype edit_fault = EdBegin | EdCheck | EdDelete | EdInsert | EdCommit

definition drop_member :: "db_id \<Rightarrow> supplier_store \<Rightarrow> supplier_store" where
  "drop_member mid s = s\<lparr>sp_members := filter (\<lambda>(k, m). k \<noteq> mid) (sp_members s)\<rparr>"

definition ip_member_edit :: "(edit_fault \<Rightarrow> bool) \<Rightarrow> db_id \<Rightarrow> db_id \<Rightarrow> string option \<Rightarrow> supplier_store \<Rightarrow> member_reply \<times> supplier_store" where
  "ip_member_edit flt gid mid form s =
     (case form of
        None \<Rightarrow> (MemBadForm, s)
      | Some field \<Rightarrow>
          let raw = trim_space field; (kind, nm) = classify_match raw in
          if raw = [] then (MemEmpty, s)
          else if kind = MatchNone then (MemInvalid, s)
          else if flt EdBegin then (MemBegin, s)
          else if flt EdCheck \<or> \<not> list_ex (\<lambda>(k, m). k = mid \<and> im_group m = gid) (sp_members s) then (MemNotInGroup, s)
          else if flt EdDelete then (MemDeleteFailed, s)
          else case insert_member (flt EdInsert) False (next_id (sp_members s)) gid kind nm (drop_member mid s) of
            None \<Rightarrow> (MemInsertFailed, s)
          | Some t \<Rightarrow> if flt EdCommit then (MemCommit, s) else (MemSaved kind, t))"

definition ip_member_delete :: "bool \<Rightarrow> db_id \<Rightarrow> supplier_store \<Rightarrow> bool \<times> supplier_store" where
  "ip_member_delete fails mid s = (if fails then (False, s) else (True, drop_member mid s))"

subsection \<open>The tables stay consistent\<close>

text \<open>What a stored match looks like.\<close>

definition match_ok :: "member_match \<Rightarrow> bool" where
  "match_ok m \<longleftrightarrow>
     (case m of
        MemCidr is4 a n \<Rightarrow> n \<le> (if is4 then 32 else 128) \<and> True \<notin> set (drop n (family_bits is4 a))
      | MemHost h \<Rightarrow> host_name_ok h)"

definition suppliers_ok :: "supplier_store \<Rightarrow> bool" where
  "suppliers_ok s \<longleftrightarrow>
     names_unique (sp_suppliers s) \<and> distinct (group_names (sp_groups s)) \<and> distinct (tbl_ids (sp_groups s)) \<and>
     distinct (map snd (sp_members s)) \<and>
     (\<forall>(k, m) \<in> set (sp_members s). match_ok (im_match m) \<and> tbl_get (sp_groups s) (im_group m) \<noteq> None)"

lemma classify_match_ok:
  "classify_match f = (k, w) \<Longrightarrow>
   (k = MatchCidr \<longrightarrow> parse_prefix w \<noteq> None) \<and> (k = MatchHost \<longrightarrow> host_name_ok w)"
  by (auto simp: classify_match_def Let_def split: if_splits)

lemma parse_prefix_len: "parse_prefix w = Some (is4, a, n) \<Longrightarrow> n \<le> (if is4 then 32 else 128)"
  by (auto simp: parse_prefix_def Let_def split: if_splits option.splits)

lemma insert_member_Some:
  assumes "insert_member fails skip fresh gid k w s = Some t" "classify_match f = (k, w)"
  obtains m where "match_ok m" "tbl_get (sp_groups s) gid \<noteq> None" "k \<noteq> MatchNone"
    "t = s \<and> skip \<and> member_exists \<lparr>im_group = gid, im_match = m\<rparr> s \<or>
     t = s\<lparr>sp_members := sp_members s @ [(fresh, \<lparr>im_group = gid, im_match = m\<rparr>)]\<rparr> \<and> \<not> member_exists \<lparr>im_group = gid, im_match = m\<rparr> s"
    "(case k of MatchCidr \<Rightarrow> cast_cidr w | MatchHost \<Rightarrow> Some (MemHost w) | MatchNone \<Rightarrow> None) = Some m"
proof -
  obtain m where m: "(case k of MatchCidr \<Rightarrow> cast_cidr w | MatchHost \<Rightarrow> Some (MemHost w) | MatchNone \<Rightarrow> None) = Some m"
    "tbl_get (sp_groups s) gid \<noteq> None"
    "t = s \<and> skip \<and> member_exists \<lparr>im_group = gid, im_match = m\<rparr> s \<or>
     t = s\<lparr>sp_members := sp_members s @ [(fresh, \<lparr>im_group = gid, im_match = m\<rparr>)]\<rparr> \<and> \<not> member_exists \<lparr>im_group = gid, im_match = m\<rparr> s"
    using assms(1) by (auto simp: insert_member_def Let_def split: option.splits if_splits)
  have "match_ok m"
    using m(1) classify_match_ok [OF assms(2)]
    by (cases k) (auto simp: cast_cidr_def match_ok_def parse_prefix_len split: option.splits if_splits)
  moreover have "k \<noteq> MatchNone" using m(1) by auto
  ultimately show thesis using m that by blast
qed

lemma insert_member_keeps:
  assumes "insert_member fails skip fresh gid k w s = Some t" "classify_match f = (k, w)" "suppliers_ok s"
  shows "suppliers_ok t"
  using assms(1,2)
proof (rule insert_member_Some)
  fix m
  assume m: "match_ok m" "tbl_get (sp_groups s) gid \<noteq> None"
    "t = s \<and> skip \<and> member_exists \<lparr>im_group = gid, im_match = m\<rparr> s \<or>
     t = s\<lparr>sp_members := sp_members s @ [(fresh, \<lparr>im_group = gid, im_match = m\<rparr>)]\<rparr> \<and> \<not> member_exists \<lparr>im_group = gid, im_match = m\<rparr> s"
  have "\<not> member_exists r s \<Longrightarrow> r \<notin> snd ` set (sp_members s)" for r
    by (auto simp: member_exists_def list_ex_iff)
  with m assms(3) show ?thesis by (auto simp: suppliers_ok_def)
qed

lemma drop_member_keeps: "suppliers_ok s \<Longrightarrow> suppliers_ok (drop_member mid s)"
  by (auto simp: suppliers_ok_def drop_member_def distinct_map_filter)

lemma tbl_get_filter: "distinct (tbl_ids t) \<Longrightarrow> tbl_get (filter P t) k = (case tbl_get t k of None \<Rightarrow> None | Some r \<Rightarrow> if P (k, r) then Some r else None)"
  unfolding tbl_get_def tbl_ids_def by (induction t) (auto split: option.splits simp: map_of_eq_None_iff image_iff)

inductive supplier_step :: "supplier_store \<Rightarrow> supplier_store \<Rightarrow> bool" where
  create: "supplier_create fails form s = (rep, t) \<Longrightarrow> supplier_step s t"
| update: "supplier_update fails sid form s = (rep, t) \<Longrightarrow> supplier_step s t"
| group: "ip_group_create fails sid name s = (rep, t) \<Longrightarrow> supplier_step s t"
| rename: "ip_group_update fails sid gid name s = (rep, t) \<Longrightarrow> supplier_step s t"
| ungroup: "ip_group_delete gflt sid gid s = (rep, t) \<Longrightarrow> supplier_step s t"
| member: "ip_member_add fails gid w s = (mrep, t) \<Longrightarrow> supplier_step s t"
| members: "ip_member_add_bulk flt gid text s = (brep, t) \<Longrightarrow> supplier_step s t"
| change: "ip_member_edit eflt gid mid w' s = (mrep, t) \<Longrightarrow> supplier_step s t"
| unmember: "ip_member_delete fails mid s = (b, t) \<Longrightarrow> supplier_step s t"

lemma supplier_create_keeps: "supplier_create fails form s = (rep, t) \<Longrightarrow> suppliers_ok s \<Longrightarrow> suppliers_ok t"
  by (auto simp: supplier_create_def suppliers_ok_def Let_def split: option.splits if_splits)

lemma supplier_update_keeps: "supplier_update fails sid form s = (rep, t) \<Longrightarrow> suppliers_ok s \<Longrightarrow> suppliers_ok t"
  by (auto simp: supplier_update_def suppliers_ok_def Let_def split: option.splits if_splits)

lemma group_names_insert: "group_names (tbl_insert g t) = group_names t @ [(ig_supplier g, ig_name g)]"
  by (simp add: group_names_def tbl_insert_def)

lemma ip_group_create_keeps: "ip_group_create fails sid name s = (rep, t) \<Longrightarrow> suppliers_ok s \<Longrightarrow> suppliers_ok t"
  by (auto simp: ip_group_create_def suppliers_ok_def Let_def group_names_insert tbl_get_insert split: if_splits)

lemma ip_group_update_keeps: "ip_group_update fails sid gid name s = (rep, t) \<Longrightarrow> suppliers_ok s \<Longrightarrow> suppliers_ok t"
  by (auto simp: ip_group_update_def suppliers_ok_def Let_def split: if_splits)

lemma ip_group_delete_keeps:
  assumes "ip_group_delete flt sid gid s = (rep, t)" "suppliers_ok s"
  shows "suppliers_ok t"
proof -
  let ?P = "\<lambda>(k, g). \<not> (k = gid \<and> ig_supplier g = sid)"
  have "t = s \<or> t = s\<lparr>sp_members := filter (\<lambda>(k, m). im_group m \<noteq> gid) (sp_members s), sp_groups := filter ?P (sp_groups s)\<rparr>"
    using assms(1) by (auto simp: ip_group_delete_def split: if_splits)
  moreover have "suppliers_ok (s\<lparr>sp_members := filter (\<lambda>(k, m). im_group m \<noteq> gid) (sp_members s), sp_groups := filter ?P (sp_groups s)\<rparr>)"
    using assms(2) by (auto simp: suppliers_ok_def group_names_def tbl_ids_def distinct_map_filter
        tbl_get_filter [unfolded tbl_ids_def] split: option.splits)
  ultimately show ?thesis using assms(2) by auto
qed

lemma ip_member_add_keeps: "ip_member_add fails gid w s = (rep, t) \<Longrightarrow> suppliers_ok s \<Longrightarrow> suppliers_ok t"
  by (auto simp: ip_member_add_def Let_def split: prod.splits if_splits option.splits intro: insert_member_keeps)

lemma bulk_member_keeps: "bulk_member fails gid w (a, k, s) = (a', k', t) \<Longrightarrow> suppliers_ok s \<Longrightarrow> suppliers_ok t"
  by (auto simp: bulk_member_def split: prod.splits if_splits option.splits intro: insert_member_keeps)

lemma bulk_members_keeps:
  "bulk_members flt i gid ws (a, k, s) = (a', k', t) \<Longrightarrow> suppliers_ok s \<Longrightarrow> suppliers_ok t"
proof (induction ws arbitrary: i a k s)
  case (Cons w ws)
  obtain a1 k1 s1 where b: "bulk_member (flt i) gid w (a, k, s) = (a1, k1, s1)" by (meson prod_cases3)
  with Cons bulk_member_keeps [OF b] show ?case by simp
qed simp

lemma ip_member_add_bulk_keeps: "ip_member_add_bulk flt gid f s = (rep, t) \<Longrightarrow> suppliers_ok s \<Longrightarrow> suppliers_ok t"
  by (auto simp: ip_member_add_bulk_def split: option.splits prod.splits dest: bulk_members_keeps)

lemma ip_member_edit_cases:
  assumes "ip_member_edit flt gid mid (Some w) s = (rep, t)"
  obtains "t = s" "\<And>k. rep \<noteq> MemSaved k"
  | k n where "rep = MemSaved k" "classify_match (trim_space w) = (k, n)"
      "insert_member False False (next_id (sp_members s)) gid k n (drop_member mid s) = Some t"
      "list_ex (\<lambda>(k, m). k = mid \<and> im_group m = gid) (sp_members s)"
  using assms by (auto simp: ip_member_edit_def Let_def insert_member_def split: prod.splits if_splits option.splits)

lemma ip_member_edit_keeps:
  assumes "ip_member_edit flt gid mid f s = (rep, t)" "suppliers_ok s"
  shows "suppliers_ok t"
proof (cases f)
  case (Some w)
  from assms(1) [unfolded Some] show ?thesis
    by (cases rule: ip_member_edit_cases) (use assms(2) in \<open>auto intro: insert_member_keeps drop_member_keeps\<close>)
qed (use assms in \<open>simp add: ip_member_edit_def\<close>)

lemma ip_member_delete_keeps: "ip_member_delete fails mid s = (b, t) \<Longrightarrow> suppliers_ok s \<Longrightarrow> suppliers_ok t"
  by (auto simp: ip_member_delete_def intro: drop_member_keeps split: if_splits)

lemmas suppliers_kept =
  supplier_create_keeps supplier_update_keeps ip_group_create_keeps ip_group_update_keeps ip_group_delete_keeps
  ip_member_add_keeps ip_member_add_bulk_keeps ip_member_edit_keeps ip_member_delete_keeps

interpretation suppliers: safe_machine supplier_step suppliers_ok
proof (unfold_locales, goal_cases)
  case (1 s t)
  then show ?case by cases (auto intro: suppliers_kept)
qed

text \<open>
  C33: however suppliers, groups and members are edited, every entry of the allow-list belongs to
  an existing group of its supplier and is a network without bits beyond its mask or a lower-case
  host name of labels with at most 63 bytes; no group holds a match twice.
\<close>

theorem allow_list_sound:
  assumes "supplier_step\<^sup>*\<^sup>* s t" "suppliers_ok s" "row \<in> set (joined_acl t)"
  shows "(\<exists>gid g. tbl_get (sp_groups t) gid = Some g \<and> a_supplier row = ig_supplier g) \<and>
    (case a_match row of
       AclCidr c \<Rightarrow> net_len c \<le> (if is_v4 (net_addr c) then 32 else 128) \<and> True \<notin> set (drop (net_len c) (ip_bits (net_addr c)))
     | AclHost h \<Rightarrow> host_name_ok h) \<and> distinct (map snd (sp_members t))"
proof -
  have ok: "suppliers_ok t" using suppliers.run_inv [OF assms(1,2)] .
  obtain k m g a where m: "(k, m) \<in> set (sp_members t)" "tbl_get (sp_groups t) (im_group m) = Some g"
    "member_acl (im_match m) = Some a" "row = \<lparr>a_supplier = ig_supplier g, a_match = a\<rparr>"
    using assms(3) by (auto simp: joined_acl_def split: option.splits)
  have "match_ok (im_match m)" using ok m(1) by (auto simp: suppliers_ok_def)
  then have "case a of AclCidr c \<Rightarrow> net_len c \<le> (if is_v4 (net_addr c) then 32 else 128) \<and> True \<notin> set (drop (net_len c) (ip_bits (net_addr c)))
      | AclHost h \<Rightarrow> host_name_ok h"
    using m(3) by (auto simp: member_acl_def match_ok_def family_bits_def ip_bits_def split: member_match.splits if_splits)
  with m(2,4) ok show ?thesis by (auto simp: suppliers_ok_def)
qed

subsection \<open>A member that was added gets in\<close>

lemma v4_text:
  assumes "length bs = 4" "\<And>b. b \<in> set bs \<Longrightarrow> b < 256"
  shows "parse_addr (ip_string (v4 bs)) = Some (True, v4 bs)" "CHR ''/'' \<notin> set (ip_string (v4 bs))"
    "trim_space (ip_string (v4 bs)) = ip_string (v4 bs)" "ip_string (v4 bs) \<noteq> []"
proof -
  obtain a b c d where bs: "bs = [a, b, c, d]" using assms(1) by (auto simp: numeral_eq_Suc length_Suc_conv)
  have str: "ip_string (v4 bs) = nat_digits a @ CHR ''.'' # nat_digits b @ CHR ''.'' # nat_digits c @ CHR ''.'' # nat_digits d"
    by (simp add: bs ip_string_def is_v4_def v4_def)
  have "dropWhile (\<lambda>c. c \<notin> {CHR ''.'', CHR '':'', CHR ''%''}) (ip_string (v4 bs)) =
      CHR ''.'' # nat_digits b @ CHR ''.'' # nat_digits c @ CHR ''.'' # nat_digits d"
    unfolding str using nat_digits_no_dot [of a] by (intro dropWhile_skip) auto
  then show "parse_addr (ip_string (v4 bs)) = Some (True, v4 bs)"
    using parse_ip_v4_string [OF assms] by (simp add: parse_addr_def)
  have ds: "is_digit x \<or> x = CHR ''.''" if "x \<in> set (ip_string (v4 bs))" for x
    using that nat_digits_is_digit by (auto simp: str list_all_iff)
  have no: "\<forall>x \<in> set (concat space_seqs) \<union> {CHR ''/''}. \<not> (is_digit x \<or> x = CHR ''.'')" by code_simp
  show "CHR ''/'' \<notin> set (ip_string (v4 bs))" using ds no by blast
  show "trim_space (ip_string (v4 bs)) = ip_string (v4 bs)" by (rule trim_space_plain) (use ds no in blast)
  show "ip_string (v4 bs) \<noteq> []" by (simp add: str)
qed

lemma v4_host_prefix:
  assumes "length bs = 4" "\<And>b. b \<in> set bs \<Longrightarrow> b < 256"
  shows "parse_prefix (ip_string (v4 bs) @ ''/32'') = Some (True, v4 bs, 32)"
proof -
  note v = v4_text [OF assms]
  have "takeWhile (\<lambda>c. c \<noteq> CHR ''/'') (rev (ip_string (v4 bs) @ ''/32'')) = ''23''" by simp
  moreover have "parse_int64 ''32'' = Some 32" by code_simp
  moreover have "CHR ''1'' \<le> CHR ''3''" "CHR ''3'' \<le> CHR ''9''" by code_simp+
  ultimately show ?thesis using v(1) by (simp add: parse_prefix_def Let_def)
qed

lemma v4_classify:
  assumes "length bs = 4" "\<And>b. b \<in> set bs \<Longrightarrow> b < 256"
  shows "classify_match (ip_string (v4 bs)) = (MatchCidr, ip_string (v4 bs) @ ''/32'')"
    "cast_cidr (ip_string (v4 bs) @ ''/32'') = Some (MemCidr True (v4 bs) 32)"
proof -
  note v = v4_text [OF assms]
  have c: "cidr_candidate (ip_string (v4 bs)) = ip_string (v4 bs) @ ''/32''" using v(1,2) by (simp add: cidr_candidate_def)
  show "classify_match (ip_string (v4 bs)) = (MatchCidr, ip_string (v4 bs) @ ''/32'')"
    using v4_host_prefix [OF assms] v(3,4) by (simp add: classify_match_def c Let_def)
  obtain a b c d where bs: "bs = [a, b, c, d]" using assms(1) by (auto simp: numeral_eq_Suc length_Suc_conv)
  have "length (family_bits True (v4 bs)) = 32" by (simp add: family_bits_def bs v4_def byte_bits_def)
  then show "cast_cidr (ip_string (v4 bs) @ ''/32'') = Some (MemCidr True (v4 bs) 32)"
    using v4_host_prefix [OF assms] by (simp add: cast_cidr_def)
qed

lemma insert_member_stored:
  assumes "insert_member fails True fresh gid k w s = Some t" "classify_match f = (k, w)"
    "(case k of MatchCidr \<Rightarrow> cast_cidr w | MatchHost \<Rightarrow> Some (MemHost w) | MatchNone \<Rightarrow> None) = Some m"
  shows "\<lparr>im_group = gid, im_match = m\<rparr> \<in> snd ` set (sp_members t) \<and> sp_groups t = sp_groups s"
  using assms(1,2)
  by (rule insert_member_Some) (use assms(3) in \<open>force simp: member_exists_def list_ex_iff\<close>)

lemma joined_acl_member:
  assumes "(k, m) \<in> set (sp_members s)" "tbl_get (sp_groups s) (im_group m) = Some g" "member_acl (im_match m) = Some a"
  shows "\<lparr>a_supplier = ig_supplier g, a_match = a\<rparr> \<in> set (joined_acl s)"
  using assms by (force simp: joined_acl_def)

text \<open>
  C32: once the form reports an IPv4 address as added to a group, a call from exactly this
  address passes the allow-list check of the group's supplier, whatever the DNS cache holds.
\<close>

theorem added_ip_admitted:
  assumes "length bs = 4" "\<And>b. b \<in> set bs \<Longrightarrow> b < 256"
    and "ip_member_add fails gid (ip_string (v4 bs)) s = (MemSaved k, t)" "tbl_get (sp_groups s) gid = Some g"
    and "acl d = joined_acl t"
  shows "supplier_ip_allowed now dns False hf (ig_supplier g) (v4 bs) d c = (True, c)"
proof -
  note v = v4_text(3,4) [OF assms(1,2)] v4_classify [OF assms(1,2)]
  have i: "insert_member fails True (next_id (sp_members s)) gid MatchCidr (ip_string (v4 bs) @ ''/32'') s = Some t"
    using assms(3) v by (auto simp: ip_member_add_def split: option.splits)
  let ?m = "\<lparr>im_group = gid, im_match = MemCidr True (v4 bs) 32\<rparr>"
  obtain j where j: "(j, ?m) \<in> set (sp_members t)" "sp_groups t = sp_groups s"
    using insert_member_stored [OF i v(3)] v(4) by auto
  have "member_acl (im_match ?m) = Some (AclCidr \<lparr>net_addr = v4 bs, net_len = 32\<rparr>)" by (simp add: member_acl_def is_v4_def v4_def)
  from joined_acl_member [OF j(1) _ this, of g] have "\<lparr>a_supplier = ig_supplier g, a_match = AclCidr \<lparr>net_addr = v4 bs, net_len = 32\<rparr>\<rparr> \<in> set (acl d)"
    using assms(4,5) j(2) by simp
  then have "cidr_match (ig_supplier g) (v4 bs) d"
    by (force simp: cidr_match_def list_ex_iff cidr_contains_def)
  then show ?thesis by (simp add: supplier_ip_allowed_def)
qed

text \<open>
  Editing a member is a replacement within its group: after success the old row is gone and
  one row with the new match is there, every other row and every group is as it was; on any
  failure nothing has changed.
\<close>

theorem member_edit_replaces:
  assumes "ip_member_edit flt gid mid (Some w) s = (rep, t)"
  shows "case rep of
      MemSaved k \<Rightarrow> \<exists>m. match_ok m \<and> t = s\<lparr>sp_members := filter (\<lambda>(j, r). j \<noteq> mid) (sp_members s) @
          [(next_id (sp_members s), \<lparr>im_group = gid, im_match = m\<rparr>)]\<rparr> \<and> (\<exists>r. (mid, r) \<in> set (sp_members s) \<and> im_group r = gid)
    | _ \<Rightarrow> t = s"
  using assms
proof (cases rule: ip_member_edit_cases)
  case 1
  then show ?thesis by (cases rep) auto
next
  case (2 k n)
  from 2(3,2) show ?thesis
    by (rule insert_member_Some) (use 2(1,4) in \<open>auto simp: drop_member_def list_ex_iff\<close>)
qed

subsection \<open>Concrete tables\<close>

definition carrier_store :: supplier_store where
  "carrier_store = \<lparr>sp_suppliers = [(1, \<lparr>sup_name = ''carrier'', sup_status = ''active'', sup_notes = []\<rparr>)],
     sp_groups = [(5, \<lparr>ig_supplier = 1, ig_name = ''signalling''\<rparr>)],
     sp_members = [(7, \<lparr>im_group = 5, im_match = MemHost ''sip.carrier.example''\<rparr>)]\<rparr>"

definition carrier_ip :: supplier_store where
  "carrier_ip = carrier_store\<lparr>sp_members := sp_members carrier_store @
     [(8, \<lparr>im_group = 5, im_match = MemCidr True (v4 [192, 0, 2, 10]) 32\<rparr>)]\<rparr>"

lemma carrier_add: "ip_member_add False 5 (ip_string (v4 [192, 0, 2, 10])) carrier_store = (MemSaved MatchCidr, carrier_ip)"
  by code_simp

lemma carrier_ok: "suppliers_ok carrier_store" by code_simp

theorem allow_list_sound_witness:
  "\<exists>gid g. tbl_get (sp_groups carrier_ip) gid = Some g \<and> 1 = ig_supplier g"
proof -
  have run: "supplier_step\<^sup>*\<^sup>* carrier_store carrier_ip" by (rule r_into_rtranclp, rule supplier_step.member [OF carrier_add])
  have m: "\<lparr>a_supplier = 1, a_match = AclHost ''sip.carrier.example''\<rparr> \<in> set (joined_acl carrier_ip)" by code_simp
  show ?thesis using allow_list_sound [OF run carrier_ok m] by auto
qed

theorem added_ip_admitted_witness:
  "supplier_ip_allowed 0 (\<lambda>_. None) False False 1 (v4 [192, 0, 2, 10]) (empty_db\<lparr>acl := joined_acl carrier_ip\<rparr>) [] = (True, [])"
proof -
  have g: "tbl_get (sp_groups carrier_store) 5 = Some \<lparr>ig_supplier = 1, ig_name = ''signalling''\<rparr>" by code_simp
  have a: "acl (empty_db\<lparr>acl := xs\<rparr>) = xs" for xs by simp
  have b: "length [192, 0, 2, 10 :: nat] = 4" "\<And>b. b \<in> set [192, 0, 2, 10 :: nat] \<Longrightarrow> b < 256" by auto
  have "supplier_ip_allowed 0 (\<lambda>_. None) False False (ig_supplier \<lparr>ig_supplier = 1, ig_name = ''signalling''\<rparr>) (v4 [192, 0, 2, 10])
      (empty_db\<lparr>acl := joined_acl carrier_ip\<rparr>) [] = (True, [])"
    by (rule added_ip_admitted [OF b carrier_add g]) (assumption | rule a)+
  then show ?thesis by simp
qed

theorem member_edit_replaces_witness:
  "\<exists>m. sp_members (snd (ip_member_edit (\<lambda>_. False) 5 7 (Some ''198.51.100.0/24'') carrier_store)) = [(8, \<lparr>im_group = 5, im_match = m\<rparr>)]"
proof -
  let ?t = "snd (ip_member_edit (\<lambda>_. False) 5 7 (Some ''198.51.100.0/24'') carrier_store)"
  have e: "ip_member_edit (\<lambda>_. False) 5 7 (Some ''198.51.100.0/24'') carrier_store = (MemSaved MatchCidr, ?t)" by code_simp
  obtain m where t: "?t = carrier_store\<lparr>sp_members := filter (\<lambda>(j, r). j \<noteq> 7) (sp_members carrier_store) @
      [(next_id (sp_members carrier_store), \<lparr>im_group = 5, im_match = m\<rparr>)]\<rparr>"
    using member_edit_replaces [OF e] by auto
  have "filter (\<lambda>(j, r). j \<noteq> 7) (sp_members carrier_store) = []" "next_id (sp_members carrier_store) = 8" by code_simp+
  then show ?thesis unfolding t by simp
qed

end
