(* ===== verification/Reseller_Isolation.thy ===== *)
theory Reseller_Isolation
  imports Books
begin

text \<open>
  Resellers share one database. What a reseller can see of it is a slice: the users under the
  reseller with their orders, peers, ledger rows, bundles and documents. The lemmas show that
  every request of another reseller leaves the slice as it was, and that the replies are read
  from the slice alone.
\<close>

subsection \<open>The slice of a reseller\<close>

definition bundle_under :: "db_id \<Rightarrow> db \<Rightarrow> db_id \<Rightarrow> bool" where
  "bundle_under q d b \<longleftrightarrow> (case tbl_get (kyc_bundles d) b of None \<Rightarrow> False | Some k \<Rightarrow> under q d (k_user k))"

definition order_kyc :: "kyc_row table \<Rightarrow> order_row \<Rightarrow> kyc_status option" where
  "order_kyc t r = (case o_kyc r of None \<Rightarrow> None | Some b \<Rightarrow> map_option k_status (tbl_get t b))"

record reseller_slice =
  sl_users :: "user_row table"
  sl_orders :: "(db_id \<times> order_row \<times> kyc_status option) list"
  sl_peers :: "sip_account_row table"
  sl_ledger :: "ledger_row list"
  sl_bundles :: "kyc_row table"
  sl_docs :: "kyc_doc_row table"
  sl_files :: "string \<rightharpoonup> string"
  sl_under :: "db_id \<Rightarrow> bool"
  sl_numbers :: "db_id \<Rightarrow> string option"
  sl_calls :: "cdr_row table"

text \<open>The numbers and the calls are shared; no request renames a number or writes a call.\<close>

definition slice :: "db_id \<Rightarrow> kyc_store \<Rightarrow> reseller_slice" where
  "slice q s =
     (let d = ky_db s in
      \<lparr>sl_users = filter (\<lambda>(k, u). u_reseller u = Some q) (users d),
       sl_orders = map (\<lambda>(k, r). (k, r, order_kyc (kyc_bundles d) r)) (filter (\<lambda>(k, r). under q d (o_user r)) (orders d)),
       sl_peers = filter (\<lambda>(k, a). under q d (sa_user a)) (sip_accounts d),
       sl_ledger = filter (\<lambda>l. under q d (l_user l)) (ledger d),
       sl_bundles = filter (\<lambda>(k, b). under q d (k_user b)) (kyc_bundles d),
       sl_docs = filter (\<lambda>(k, r). bundle_under q d (kd_bundle r)) (kyc_docs d),
       sl_files = (\<lambda>p. if \<exists>uid bid f. under q d uid \<and> plain_element f \<and> p = doc_path uid bid f then ky_files s p else None),
       sl_under = under q d,
       sl_numbers = (\<lambda>n. map_option d_e164 (tbl_get (dids d) n)),
       sl_calls = cdrs d\<rparr>)"

text \<open>The primary keys, and the foreign key of an order to its bundle.\<close>

definition refs_ok :: "order_row table \<Rightarrow> kyc_row table \<Rightarrow> bool" where
  "refs_ok os bs \<longleftrightarrow> (\<forall>k r b. (k, r) \<in> set os \<longrightarrow> o_kyc r = Some b \<longrightarrow> tbl_get bs b \<noteq> None)"

definition keys_ok :: "db \<Rightarrow> bool" where
  "keys_ok d \<longleftrightarrow> distinct (tbl_ids (users d)) \<and> distinct (tbl_ids (orders d)) \<and> distinct (tbl_ids (kyc_bundles d)) \<and>
     refs_ok (orders d) (kyc_bundles d)"

lemma refs_okD: "keys_ok d \<Longrightarrow> (k, r) \<in> set (orders d) \<Longrightarrow> o_kyc r = Some b \<Longrightarrow> tbl_get (kyc_bundles d) b \<noteq> None"
  unfolding keys_ok_def refs_ok_def by blast

subsection \<open>The requests that write\<close>

inductive api_step :: "db_id \<Rightarrow> kyc_store \<Rightarrow> kyc_store \<Rightarrow> bool" where
  user: "api_create_user f rid nu (ky_db s) = (r1, e) \<Longrightarrow> api_step rid s (s\<lparr>ky_db := e\<rparr>)"
| credit: "api_topup flt rid i money (ky_db s) = (r2, e) \<Longrightarrow> api_step rid s (s\<lparr>ky_db := e\<rparr>)"
| peer: "api_create_peer f g rid i acct (ky_db s) = (r3, e) \<Longrightarrow> api_step rid s (s\<lparr>ky_db := e\<rparr>)"
| unpeer: "api_delete_peer f g rid i j (ky_db s) = (r4, e) \<Longrightarrow> api_step rid s (s\<lparr>ky_db := e\<rparr>)"
| order: "api_create_order flt now rid oreq (ky_db s) = (r5, e) \<Longrightarrow> api_step rid s (s\<lparr>ky_db := e\<rparr>)"
| change: "api_update_order flt rid i och (ky_db s) = (r6, e) \<Longrightarrow> api_step rid s (s\<lparr>ky_db := e\<rparr>)"
| cancel: "api_cancel_order flt now rid i (ky_db s) = (r7, e) \<Longrightarrow> api_step rid s (s\<lparr>ky_db := e\<rparr>)"
| kyc: "api_create_bundle f g rid i kind (ky_db s) = (r8, e) \<Longrightarrow> api_step rid s (s\<lparr>ky_db := e\<rparr>)"
| upload: "api_upload uflt rid i uform s = (r9, t) \<Longrightarrow> api_step rid s t"

definition others_step :: "db_id \<Rightarrow> kyc_store \<Rightarrow> kyc_store \<Rightarrow> bool" where
  "others_step q s t \<longleftrightarrow> (\<exists>rid. rid \<noteq> q \<and> api_step rid s t)"

subsection \<open>Writes outside a slice\<close>

lemma filter_upd_out:
  assumes "distinct (tbl_ids t)" "tbl_get t k = Some r" "\<not> Q r" "\<not> Q (f r)"
  shows "filter (\<lambda>(k, r). Q r) (tbl_upd k f t) = filter (\<lambda>(k, r). Q r) t"
  by (rule tbl_upd_split [OF assms(1,2)]) (simp add: assms(3,4))

lemma filter_insert_out: "\<not> Q r \<Longrightarrow> filter (\<lambda>(k, r). Q r) (tbl_insert r t) = filter (\<lambda>(k, r). Q r) t"
  by (simp add: tbl_insert_def)

lemma under_cong: "users e = users d \<Longrightarrow> under q e = under q d"
  by (simp add: under_def fun_eq_iff)

lemma bundle_under_cong: "kyc_bundles e = kyc_bundles d \<Longrightarrow> under q e = under q d \<Longrightarrow> bundle_under q e = bundle_under q d"
  by (rule ext) (simp add: bundle_under_def split: option.split)

lemma under_other: "under rid d uid \<Longrightarrow> rid \<noteq> q \<Longrightarrow> \<not> under q d uid"
  by (auto simp: under_def split: option.splits)

lemma under_user: "tbl_get (users d) uid = Some u \<Longrightarrow> under q d uid \<longleftrightarrow> u_reseller u = Some q"
  by (simp add: under_def)

lemma belongs_under: "user_belongs f rid uid d = None \<Longrightarrow> under rid d uid"
  by (auto simp: user_belongs_def under_def split: if_splits option.splits)

lemma under_insert: "u_reseller u \<noteq> Some q \<Longrightarrow> under q (d\<lparr>users := tbl_insert u (users d)\<rparr>) = under q d"
proof -
  assume u: "u_reseller u \<noteq> Some q"
  have "tbl_get (users d) (next_id (users d)) = None" by (simp add: tbl_get_None)
  with u show ?thesis by (auto simp: under_def fun_eq_iff tbl_get_insert)
qed

lemma under_upd: "(\<And>u. u_reseller (f u) = u_reseller u) \<Longrightarrow> under q (d\<lparr>users := tbl_upd k f (users d)\<rparr>) = under q d"
  by (auto simp: under_def fun_eq_iff split: option.splits)

text \<open>Two stores with the same users of the reseller differ outside the slice when these parts agree.\<close>

lemma slice_eqI:
  assumes "under q (ky_db t) = under q (ky_db s)"
    and "filter (\<lambda>(k, u). u_reseller u = Some q) (users (ky_db t)) = filter (\<lambda>(k, u). u_reseller u = Some q) (users (ky_db s))"
    and "filter (\<lambda>(k, r). under q (ky_db s) (o_user r)) (orders (ky_db t)) = filter (\<lambda>(k, r). under q (ky_db s) (o_user r)) (orders (ky_db s))"
    and "filter (\<lambda>(k, a). under q (ky_db s) (sa_user a)) (sip_accounts (ky_db t)) = filter (\<lambda>(k, a). under q (ky_db s) (sa_user a)) (sip_accounts (ky_db s))"
    and "filter (\<lambda>l. under q (ky_db s) (l_user l)) (ledger (ky_db t)) = filter (\<lambda>l. under q (ky_db s) (l_user l)) (ledger (ky_db s))"
    and "filter (\<lambda>(k, b). under q (ky_db s) (k_user b)) (kyc_bundles (ky_db t)) = filter (\<lambda>(k, b). under q (ky_db s) (k_user b)) (kyc_bundles (ky_db s))"
    and "bundle_under q (ky_db t) = bundle_under q (ky_db s)"
    and "filter (\<lambda>(k, r). bundle_under q (ky_db s) (kd_bundle r)) (kyc_docs (ky_db t)) = filter (\<lambda>(k, r). bundle_under q (ky_db s) (kd_bundle r)) (kyc_docs (ky_db s))"
    and "\<And>uid bid f. under q (ky_db s) uid \<Longrightarrow> plain_element f \<Longrightarrow> ky_files t (doc_path uid bid f) = ky_files s (doc_path uid bid f)"
    and "\<And>n. map_option d_e164 (tbl_get (dids (ky_db t)) n) = map_option d_e164 (tbl_get (dids (ky_db s)) n)"
    and "cdrs (ky_db t) = cdrs (ky_db s)"
    and "\<And>k r. (k, r) \<in> set (orders (ky_db s)) \<Longrightarrow> order_kyc (kyc_bundles (ky_db t)) r = order_kyc (kyc_bundles (ky_db s)) r"
  shows "slice q t = slice q s"
proof -
  have "map (\<lambda>(k, r). (k, r, order_kyc (kyc_bundles (ky_db t)) r)) (filter (\<lambda>(k, r). under q (ky_db s) (o_user r)) (orders (ky_db s))) =
    map (\<lambda>(k, r). (k, r, order_kyc (kyc_bundles (ky_db s)) r)) (filter (\<lambda>(k, r). under q (ky_db s) (o_user r)) (orders (ky_db s)))"
    using assms(12) by auto
  moreover  have "(\<lambda>p. if \<exists>uid bid f. under q (ky_db s) uid \<and> plain_element f \<and> p = doc_path uid bid f then ky_files t p else None) =
    (\<lambda>p. if \<exists>uid bid f. under q (ky_db s) uid \<and> plain_element f \<and> p = doc_path uid bid f then ky_files s p else None)"
    by (intro ext if_cong refl) (metis assms(9))
  ultimately show ?thesis by (simp add: slice_def Let_def assms(1-8,10,11))
qed

subsection \<open>Every request stays outside the slices of the others\<close>

text \<open>A write of the database alone; what a request may write, by the tables it touches.\<close>

lemma slice_orders:
  assumes "users e = users (ky_db s)" "sip_accounts e = sip_accounts (ky_db s)" "kyc_bundles e = kyc_bundles (ky_db s)"
    and "kyc_docs e = kyc_docs (ky_db s)" "ledger e = ledger (ky_db s)" "cdrs e = cdrs (ky_db s)"
    and "\<And>n. map_option d_e164 (tbl_get (dids e) n) = map_option d_e164 (tbl_get (dids (ky_db s)) n)"
    and "filter (\<lambda>(k, r). under q (ky_db s) (o_user r)) (orders e) = filter (\<lambda>(k, r). under q (ky_db s) (o_user r)) (orders (ky_db s))"
  shows "slice q (s\<lparr>ky_db := e\<rparr>) = slice q s"
proof -
  have "under q e = under q (ky_db s)" "bundle_under q e = bundle_under q (ky_db s)"
    using under_cong [of e] bundle_under_cong [of e] assms by simp_all
  then show ?thesis by (intro slice_eqI) (simp_all add: assms)
qed

lemma set_did_status_docs [simp]:
  "kyc_docs (set_did_status st n d) = kyc_docs d" "cdrs (set_did_status st n d) = cdrs d"
  by (simp_all add: set_did_status_def)

lemma add_ledger_bundles [simp]: "kyc_bundles (add_ledger l d) = kyc_bundles d"
  by (simp add: add_ledger_def)

lemma e164_set_status: "map_option d_e164 (tbl_get (dids (set_did_status st m d)) n) = map_option d_e164 (tbl_get (dids d) n)"
  by (auto simp: set_did_status_def option.map_comp comp_def)

lemma user_slice:
  assumes "api_create_user f rid nu (ky_db s) = (r, e)" "rid \<noteq> q"
  shows "slice q (s\<lparr>ky_db := e\<rparr>) = slice q s"
proof -
  have "e = ky_db s \<or> (\<exists>u. u_reseller u = Some rid \<and> e = (ky_db s)\<lparr>users := tbl_insert u (users (ky_db s))\<rparr>)"
    using assms(1) by (force simp: api_create_user_def Let_def split: if_splits option.splits)
  then show ?thesis
  proof (elim disjE exE conjE)
    fix u assume u: "u_reseller u = Some rid" "e = (ky_db s)\<lparr>users := tbl_insert u (users (ky_db s))\<rparr>"
    have n: "under q ((ky_db s)\<lparr>users := tbl_insert u (users (ky_db s))\<rparr>) = under q (ky_db s)"
      by (rule under_insert) (simp add: u assms(2))
    moreover have "bundle_under q ((ky_db s)\<lparr>users := tbl_insert u (users (ky_db s))\<rparr>) = bundle_under q (ky_db s)"
      by (rule bundle_under_cong) (simp_all add: n)
    ultimately show ?thesis
      by (intro slice_eqI) (use assms(2) in \<open>simp_all add: u filter_insert_out\<close>)
  qed simp
qed

text \<open>Money moved for a user of another reseller.\<close>

lemma money_slice:
  assumes "tbl_get (users (ky_db s)) uid = Some u" "u_reseller u \<noteq> Some q" "l_user l = uid" "distinct (tbl_ids (users (ky_db s)))"
  shows "slice q (s\<lparr>ky_db := add_ledger l ((ky_db s)\<lparr>users := tbl_upd uid (\<lambda>u. u\<lparr>u_balance := b\<rparr>) (users (ky_db s))\<rparr>)\<rparr>) = slice q s"
proof -
  let ?d = "ky_db s"
  let ?e = "add_ledger l (?d\<lparr>users := tbl_upd uid (\<lambda>u. u\<lparr>u_balance := b\<rparr>) (users ?d)\<rparr>)"
  have n: "under q ?e = under q ?d"
    using under_upd [of "\<lambda>u. u\<lparr>u_balance := b\<rparr>" q uid ?d] under_cong [of ?e "?d\<lparr>users := tbl_upd uid (\<lambda>u. u\<lparr>u_balance := b\<rparr>) (users ?d)\<rparr>"]
    by simp
  have "filter (\<lambda>(k, v). u_reseller v = Some q) (users ?e) = filter (\<lambda>(k, v). u_reseller v = Some q) (users ?d)"
    using assms by (simp add: filter_upd_out)
  moreover have "filter (\<lambda>l. under q ?d (l_user l)) (ledger ?e) = filter (\<lambda>l. under q ?d (l_user l)) (ledger ?d)"
    using assms by (simp add: under_def)
  moreover have "bundle_under q ?e = bundle_under q ?d" by (rule bundle_under_cong) (simp_all only: n, simp add: add_ledger_def)
  ultimately show ?thesis using n by (intro slice_eqI) (simp_all, simp_all add: add_ledger_def)
qed

lemma credit_slice:
  assumes "api_topup flt rid i money (ky_db s) = (r, e)" "rid \<noteq> q" "keys_ok (ky_db s)"
  shows "slice q (s\<lparr>ky_db := e\<rparr>) = slice q s"
proof -
  let ?d = "ky_db s"
  have "e = ?d \<or> (\<exists>uid u l b. tbl_get (users ?d) uid = Some u \<and> u_reseller u = Some rid \<and> l_user l = uid \<and>
      e = add_ledger l (?d\<lparr>users := tbl_upd uid (\<lambda>u. u\<lparr>u_balance := b\<rparr>) (users ?d)\<rparr>))"
    using assms(1) by (force simp: api_topup_def Let_def split: if_splits option.splits)
  then show ?thesis using money_slice [of s _ _ q] assms(2,3) by (auto simp: keys_ok_def)
qed

lemma charge_slice:
  assumes "tbl_get (users (ky_db s)) uid = Some u" "u_reseller u \<noteq> Some q" "distinct (tbl_ids (users (ky_db s)))"
  shows "slice q (s\<lparr>ky_db := charge_nrc uid oid nrc bal (ky_db s)\<rparr>) = slice q s"
  using money_slice [OF assms(1,2) _ assms(3)] by (simp add: charge_nrc_def)

lemma peer_slice:
  assumes "api_create_peer f g rid i acct (ky_db s) = (r, e)" "rid \<noteq> q"
  shows "slice q (s\<lparr>ky_db := e\<rparr>) = slice q s"
proof -
  have "e = ky_db s \<or> (\<exists>uid name pass. under rid (ky_db s) uid \<and> e = add_peer uid name pass (ky_db s))"
    using assms(1) belongs_under [of f rid "atoi64 i" "ky_db s"]
    by (force simp: api_create_peer_def Let_def split: if_splits option.splits)
  then show ?thesis
  proof (elim disjE exE conjE)
    fix uid name pass assume u: "under rid (ky_db s) uid" "e = add_peer uid name pass (ky_db s)"
    have "under q e = under q (ky_db s)" "bundle_under q e = bundle_under q (ky_db s)"
      using under_cong [of e] bundle_under_cong [of e] by (simp_all add: u(2) add_peer_def)
    then show ?thesis
      by (intro slice_eqI) (use under_other [OF u(1) assms(2)] in \<open>simp_all add: u(2) add_peer_def filter_insert_out\<close>)
  qed simp
qed

lemma unpeer_slice:
  assumes "api_delete_peer f g rid i j (ky_db s) = (r, e)" "rid \<noteq> q"
  shows "slice q (s\<lparr>ky_db := e\<rparr>) = slice q s"
proof -
  have "e = ky_db s \<or> (\<exists>uid said. under rid (ky_db s) uid \<and> e = drop_peer uid said (ky_db s))"
    using assms(1) belongs_under [of f rid "atoi64 i" "ky_db s"]
    by (force simp: api_delete_peer_def Let_def split: if_splits option.splits)
  then show ?thesis
  proof (elim disjE exE conjE)
    fix uid said assume u: "under rid (ky_db s) uid" "e = drop_peer uid said (ky_db s)"
    have eq: "under q e = under q (ky_db s)" "bundle_under q e = bundle_under q (ky_db s)"
      using under_cong [of e] bundle_under_cong [of e] by (simp_all add: u(2) drop_peer_def)
    have "filter (\<lambda>(k, a). under q (ky_db s) (sa_user a)) (sip_accounts e) =
        filter (\<lambda>(k, a). under q (ky_db s) (sa_user a)) (sip_accounts (ky_db s))"
      using under_other [OF u(1) assms(2)] by (auto simp: u(2) drop_peer_def intro!: filter_cong)
    with eq show ?thesis by (intro slice_eqI) (simp_all, simp_all add: u(2) drop_peer_def)
  qed simp
qed

lemma order_slice:
  assumes "api_create_order flt now rid oreq (ky_db s) = (r, e)" "rid \<noteq> q" "keys_ok (ky_db s)"
  shows "slice q (s\<lparr>ky_db := e\<rparr>) = slice q s"
proof (cases r)
  case (ApiErr c)
  with assms(1) have "e = ky_db s" using api_create_failed by blast
  then show ?thesis by simp
next
  case (ApiOk c x)
  obtain oid st nrc where "x = (oid, st, nrc)" by (cases x)
  with assms(1) ApiOk have "api_create_order flt now rid oreq (ky_db s) = (ApiOk c (oid, st, nrc), e)" by simp
  then show ?thesis
  proof (cases rule: api_create_done)
    case (1 oq u rc rate row)
    let ?d = "ky_db s"
    let ?d1 = "set_did_status DidAssigned (oq_did oq) (?d\<lparr>orders := tbl_insert row (orders ?d)\<rparr>)"
    have u: "tbl_get (users ?d) (oq_user oq) = Some u" "u_reseller u \<noteq> Some q" using 1(2) assms(2) by simp_all
    have out: "\<not> under q ?d (o_user row)" using u 1(5) by (simp add: under_def)
    have "slice q (s\<lparr>ky_db := ?d1\<rparr>) = slice q s"
      by (rule slice_orders) (use out in \<open>simp_all add: e164_set_status filter_insert_out\<close>)
    moreover have "slice q (s\<lparr>ky_db := e\<rparr>) = slice q (s\<lparr>ky_db := ?d1\<rparr>)"
      using charge_slice [of "s\<lparr>ky_db := ?d1\<rparr>" "oq_user oq" u q] u assms(3) by (simp add: 1(6) keys_ok_def)
    ultimately show ?thesis by simp
  qed
qed

lemma change_slice:
  assumes "api_update_order flt rid i och (ky_db s) = (r, e)" "rid \<noteq> q" "keys_ok (ky_db s)"
  shows "slice q (s\<lparr>ky_db := e\<rparr>) = slice q s"
proof (cases "e = ky_db s")
  case False
  let ?d = "ky_db s"
  obtain row where row: "tbl_get (orders ?d) (atoi64 i) = Some row" "under rid ?d (o_user row)"
    using assms(1) False by (auto simp: api_update_order_def Let_def split: if_splits option.splits)
  obtain k rt ch b where e: "e = ?d\<lparr>orders := tbl_upd (atoi64 i) (changed_row k rt ch b ?d) (orders ?d)\<rparr>"
    using assms(1) False by (auto simp: api_update_order_def Let_def split: if_splits option.splits sum.splits)
  show ?thesis
    unfolding e by (rule slice_orders)
      (use under_other [OF row(2) assms(2)] assms(3) row(1) in \<open>simp_all add: filter_upd_out keys_ok_def changed_row_def\<close>)
qed simp

lemma cancel_slice:
  assumes "api_cancel_order flt now rid i (ky_db s) = (r, e)" "rid \<noteq> q" "keys_ok (ky_db s)"
  shows "slice q (s\<lparr>ky_db := e\<rparr>) = slice q s"
proof -
  let ?d = "ky_db s"
  have "e = ?d \<or> (\<exists>row. tbl_get (orders ?d) (atoi64 i) = Some row \<and> under rid ?d (o_user row) \<and>
      e = set_did_status DidAvailable (o_did row) (?d\<lparr>orders := tbl_upd (atoi64 i) (cancel_row now) (orders ?d)\<rparr>))"
    using assms(1) by (cases "tbl_get (orders ?d) (atoi64 i)") (simp_all add: api_cancel_order_def Let_def split: if_splits)
  then show ?thesis
  proof (elim disjE exE conjE)
    fix row
    assume o': "tbl_get (orders ?d) (atoi64 i) = Some row" "under rid ?d (o_user row)"
      and e: "e = set_did_status DidAvailable (o_did row) (?d\<lparr>orders := tbl_upd (atoi64 i) (cancel_row now) (orders ?d)\<rparr>)"
    show ?thesis
      unfolding e by (rule slice_orders)
        (use under_other [OF o'(2) assms(2)] assms(3) o'(1) in \<open>simp_all add: filter_upd_out keys_ok_def cancel_row_def e164_set_status\<close>)
  qed simp
qed

lemma kyc_slice:
  assumes "api_create_bundle f g rid i kind (ky_db s) = (r, e)" "rid \<noteq> q" "keys_ok (ky_db s)"
  shows "slice q (s\<lparr>ky_db := e\<rparr>) = slice q s"
proof -
  let ?d = "ky_db s"
  have "e = ?d \<or> (\<exists>b. under rid ?d (k_user b) \<and> e = ?d\<lparr>kyc_bundles := tbl_insert b (kyc_bundles ?d)\<rparr>)"
    using assms(1) belongs_under [of f rid "atoi64 i" ?d]
    by (force simp: api_create_bundle_def Let_def split: if_splits option.splits)
  then show ?thesis
  proof (elim disjE exE conjE)
    fix b assume b: "under rid ?d (k_user b)" "e = ?d\<lparr>kyc_bundles := tbl_insert b (kyc_bundles ?d)\<rparr>"
    have out: "\<not> under q ?d (k_user b)" using under_other [OF b(1) assms(2)] .
    have u: "under q e = under q ?d" by (rule under_cong) (simp add: b(2))
    have n: "tbl_get (kyc_bundles ?d) (next_id (kyc_bundles ?d)) = None" by (simp add: tbl_get_None)
    have k: "order_kyc (kyc_bundles e) r = order_kyc (kyc_bundles ?d) r" if "(i, r) \<in> set (orders ?d)" for i r
    proof (cases "o_kyc r")
      case (Some x)
      then have "x \<noteq> next_id (kyc_bundles ?d)" using refs_okD [OF assms(3) that] n by metis
      then show ?thesis by (simp add: order_kyc_def Some b(2) tbl_get_insert)
    qed (simp add: order_kyc_def)
    from n have "bundle_under q e x = bundle_under q ?d x" for x
      using out u unfolding bundle_under_def u by (simp add: b(2) tbl_get_insert)
    then have "bundle_under q e = bundle_under q ?d" ..
    with u out k show ?thesis by (intro slice_eqI) (simp_all, simp_all add: b(2) filter_insert_out)
  qed simp
qed

text \<open>An upload writes one path of the owner and one row of the bundle, or clears the path.\<close>

lemma upload_writes:
  assumes "kyc_doc_upload flt bid form s = (r, t)"
  obtains "t = s"
  | b name fs where "tbl_get (kyc_bundles (ky_db s)) bid = Some b" "plain_element name"
      "t = s\<lparr>ky_files := (ky_files s)(doc_path (k_user b) bid name := fs)\<rparr>"
  | b name fs row where "tbl_get (kyc_bundles (ky_db s)) bid = Some b" "plain_element name" "kd_bundle row = bid"
      "t = s\<lparr>ky_files := (ky_files s)(doc_path (k_user b) bid name := fs),
            ky_db := (ky_db s)\<lparr>kyc_docs := tbl_insert row (kyc_docs (ky_db s))\<rparr>\<rparr>"
proof (cases "t = s")
  case False
  then obtain kind name mime content f b where f: "form = Some (kind, Some (name, mime, content))"
      "sanitize_filename name = Some f" "tbl_get (kyc_bundles (ky_db s)) bid = Some b"
    using assms by (auto simp: kyc_doc_upload_def Let_def split: option.splits if_splits)
  note p = sanitize_filename_safe(1) [OF f(2)]
  consider "t = s\<lparr>ky_files := (ky_files s)(doc_path (k_user b) bid f := None)\<rparr>"
    | kind' where "t = s\<lparr>ky_files := (ky_files s)(doc_path (k_user b) bid f \<mapsto> content),
            ky_db := (ky_db s)\<lparr>kyc_docs := tbl_insert (uploaded_doc (k_user b) bid kind' f mime content) (kyc_docs (ky_db s))\<rparr>\<rparr>"
    using assms False f by (auto simp: kyc_doc_upload_def Let_def bundle_dir_file [OF p] split: option.splits if_splits)
  then show thesis
  proof cases
    case 1
    with that(2) [OF f(3) p] show thesis by blast
  next
    case (2 kind')
    show thesis by (rule that(3) [OF f(3) p _ 2]) (simp add: uploaded_doc_def)
  qed
qed (rule that(1))

lemma upload_slice:
  assumes "api_upload flt rid i form s = (r, t)" "rid \<noteq> q"
  shows "slice q t = slice q s"
proof (cases "t = s")
  case False
  then obtain b r' where b: "owned_bundle (uf_lookup flt) rid (atoi64 i) (ky_db s) = Inr b" "kyc_doc_upload flt (atoi64 i) form s = (r', t)"
    using assms(1) by (auto simp: api_upload_def Let_def split: option.splits sum.splits prod.splits)
  have b': "tbl_get (kyc_bundles (ky_db s)) (atoi64 i) = Some b" "under rid (ky_db s) (k_user b)"
    using b(1) by (auto simp: owned_bundle_def split: if_splits option.splits)
  note out = under_other [OF b'(2) assms(2)]
  have path: "((ky_files s)(doc_path (k_user b) (atoi64 i) name := fs)) (doc_path uid bid f) = ky_files s (doc_path uid bid f)"
    if "plain_element name" "under q (ky_db s) uid" "plain_element f" for name fs uid bid f
    using doc_path_inj [OF that(1,3), of "k_user b" "atoi64 i" uid bid] out that(2) by auto
  from b(2) show ?thesis
  proof (cases rule: upload_writes)
    case (2 b2 name fs)
    have "b2 = b" using 2(1) b'(1) by simp
    then show ?thesis using path [OF 2(2)] by (intro slice_eqI) (simp_all add: 2(3))
  next
    case (3 b2 name fs row)
    have e: "b2 = b" using 3(1) b'(1) by simp
    have "under q (ky_db t) = under q (ky_db s)" by (rule under_cong) (simp add: 3(4))
    moreover from this have "bundle_under q (ky_db t) = bundle_under q (ky_db s)" by (intro bundle_under_cong) (simp_all, simp add: 3(4))
    moreover have "\<not> bundle_under q (ky_db s) (kd_bundle row)" using out b'(1) by (simp add: 3(3) bundle_under_def)
    ultimately show ?thesis using path [OF 3(2)] e by (intro slice_eqI) (simp_all, simp_all add: 3(4) filter_insert_out)
  qed simp
qed simp

subsection \<open>Noninterference\<close>

lemma keys_frame:
  "keys_ok d \<Longrightarrow> tbl_ids (users e) = tbl_ids (users d) \<Longrightarrow> orders e = orders d \<Longrightarrow> kyc_bundles e = kyc_bundles d \<Longrightarrow> keys_ok e"
  by (simp add: keys_ok_def)

lemma keys_upd_orders:
  assumes "keys_ok d" "users e = users d" "kyc_bundles e = kyc_bundles d" "orders e = tbl_upd oid f (orders d)"
    and "\<And>r b. o_kyc (f r) = Some b \<Longrightarrow> o_kyc r = Some b \<or> tbl_get (kyc_bundles d) b \<noteq> None"
  shows "keys_ok e"
proof -
  have "tbl_get (kyc_bundles d) b \<noteq> None" if "(k, r) \<in> set (tbl_upd oid f (orders d))" "o_kyc r = Some b" for k r b
  proof -
    from that(1) obtain r' where "(k, r') \<in> set (orders d)" "r = r' \<or> r = f r'"
      by (auto simp: tbl_upd_def tbl_upd_where_def split: if_splits)
    then show ?thesis using refs_okD [OF assms(1)] assms(5) [of r' b] that(2) by blast
  qed
  then have "refs_ok (orders e) (kyc_bundles e)" unfolding refs_ok_def assms(3,4) by blast
  with assms(1-4) show ?thesis by (simp add: keys_ok_def)
qed

lemma api_step_keys:
  assumes "api_step rid s t" "keys_ok (ky_db s)"
  shows "keys_ok (ky_db t)"
  using assms
proof cases
  case (user f nu r e)
  then show ?thesis using assms(2)
    by (auto simp: api_create_user_def Let_def keys_ok_def split: if_splits option.splits)
next
  case (credit flt i money r e)
  then show ?thesis using assms(2)
    by (auto simp: api_topup_def Let_def keys_ok_def split: if_splits option.splits)
next
  case (peer f g i acct r e)
  then show ?thesis using assms(2)
    by (auto simp: api_create_peer_def Let_def keys_ok_def add_peer_def split: if_splits option.splits)
next
  case (unpeer f g i j r e)
  then show ?thesis using assms(2)
    by (auto simp: api_delete_peer_def Let_def keys_ok_def drop_peer_def split: if_splits option.splits)
next
  case (order flt now oreq r e)
  show ?thesis
  proof (cases r)
    case (ApiErr c)
    with order(2) have "e = ky_db s" using api_create_failed by blast
    with order(1) assms(2) show ?thesis by simp
  next
    case (ApiOk c x)
    obtain oid st nrc where "x = (oid, st, nrc)" by (cases x)
    with order(2) ApiOk have "api_create_order flt now rid oreq (ky_db s) = (ApiOk c (oid, st, nrc), e)" by simp
    then show ?thesis
    proof (cases rule: api_create_done)
      case (1 oq u rc rate row)
      have "tbl_get (kyc_bundles (ky_db s)) b \<noteq> None" if "o_kyc row = Some b" for b
        using 1(4,5) that by (auto simp: start_status_def split: option.splits)
      then have "refs_ok (tbl_insert row (orders (ky_db s))) (kyc_bundles (ky_db s))"
        using refs_okD [OF assms(2)] by (auto simp: refs_ok_def tbl_insert_def)
      then show ?thesis using assms(2) order(1) 1(6) by (simp add: keys_ok_def charge_nrc_def)
    qed
  qed
next
  case (change flt i och r e)
  show ?thesis
  proof (cases "e = ky_db s")
    case False
    then obtain k rt ch uid q b where e: "e = (ky_db s)\<lparr>orders := tbl_upd (atoi64 i) (changed_row k rt ch b (ky_db s)) (orders (ky_db s))\<rparr>"
        "api_bundle (flt StmBundle) q uid (ky_db s) = Inr b"
      using change(2) by (auto simp: api_update_order_def Let_def split: if_splits option.splits sum.splits)
    have "keys_ok e"
      by (rule keys_upd_orders [OF assms(2), of e "atoi64 i" "changed_row k rt ch b (ky_db s)"])
        (use e(2) in \<open>auto simp: e(1) changed_row_def api_bundle_def split: option.splits if_splits\<close>)
    with change(1) show ?thesis by simp
  qed (use assms(2) change(1) in simp)
next
  case (cancel flt now i r e)
  have "e = ky_db s \<or> (\<exists>n. e = set_did_status DidAvailable n ((ky_db s)\<lparr>orders := tbl_upd (atoi64 i) (cancel_row now) (orders (ky_db s))\<rparr>))"
    using cancel(2) by (cases "tbl_get (orders (ky_db s)) (atoi64 i)") (simp_all add: api_cancel_order_def Let_def split: if_splits, auto)
  then have "keys_ok e"
    using assms(2) keys_upd_orders [OF assms(2), of e "atoi64 i" "cancel_row now"] by (auto simp: cancel_row_def)
  with cancel(1) show ?thesis by simp
next
  case (kyc f g i kind r e)
  have "refs_ok os (tbl_insert b bs)" if "refs_ok os bs" for os b bs
    using that by (auto simp: refs_ok_def tbl_get_insert)
  then show ?thesis using kyc assms(2)
    by (auto simp: api_create_bundle_def Let_def keys_ok_def split: if_splits option.splits)
next
  case (upload flt i form r)
  have "t = s \<or> (\<exists>r'. kyc_doc_upload flt (atoi64 i) form s = (r', t))"
    using upload by (auto simp: api_upload_def Let_def split: option.splits sum.splits prod.splits)
  then show ?thesis
  proof (elim disjE exE)
    fix r' assume "kyc_doc_upload flt (atoi64 i) form s = (r', t)"
    then show ?thesis by (cases rule: upload_writes) (use assms(2) in \<open>simp_all add: keys_ok_def\<close>)
  qed (use assms(2) in simp)
qed

lemma api_step_slice:
  assumes "api_step rid s t" "rid \<noteq> q" "keys_ok (ky_db s)"
  shows "slice q t = slice q s"
  using assms(1)
proof cases
  case (user f nu r e)
  show ?thesis unfolding user(1) by (rule user_slice [OF user(2) assms(2)])
next
  case (credit flt i m r e)
  show ?thesis unfolding credit(1) by (rule credit_slice [OF credit(2) assms(2) assms(3)])
next
  case (peer f g i a r e)
  show ?thesis unfolding peer(1) by (rule peer_slice [OF peer(2) assms(2)])
next
  case (unpeer f g i j r e)
  show ?thesis unfolding unpeer(1) by (rule unpeer_slice [OF unpeer(2) assms(2)])
next
  case (order flt now oq r e)
  show ?thesis unfolding order(1) by (rule order_slice [OF order(2) assms(2) assms(3)])
next
  case (change flt i oc r e)
  show ?thesis unfolding change(1) by (rule change_slice [OF change(2) assms(2) assms(3)])
next
  case (cancel flt now i r e)
  show ?thesis unfolding cancel(1) by (rule cancel_slice [OF cancel(2) assms(2) assms(3)])
next
  case (kyc f g i k r e)
  show ?thesis unfolding kyc(1) by (rule kyc_slice [OF kyc(2) assms(2,3)])
next
  case (upload flt i form r)
  show ?thesis by (rule upload_slice [OF upload assms(2)])
qed

interpretation isolated: safe_machine "others_step q" "\<lambda>t. keys_ok (ky_db t) \<and> slice q t = x"
  by unfold_locales (auto simp: others_step_def api_step_keys api_step_slice)

definition mall :: db where
  "mall = shop_db\<lparr>users := [(1, (plain_user 500 4 ''active'')\<lparr>u_reseller := Some 1\<rparr>), (2, (plain_user 900 4 ''active'')\<lparr>u_reseller := Some 2\<rparr>)],
     ledger := [\<lparr>l_user = 1, l_delta = 500, l_kind = LedgerTopup, l_ref_table = [], l_ref_id = None, l_after = 500\<rparr>,
       \<lparr>l_user = 2, l_delta = 900, l_kind = LedgerTopup, l_ref_table = [], l_ref_id = None, l_after = 900\<rparr>],
     sip_accounts := [(4, \<lparr>sa_user = 2, sa_username = ''desk'', sa_realm = sip_realm, sa_ha1 = []\<rparr>)]\<rparr>"

definition mall_store :: kyc_store where
  "mall_store = \<lparr>ky_db = mall, ky_files = Map.empty\<rparr>"

definition mall_request :: "db_id \<Rightarrow> order_request" where
  "mall_request uid = \<lparr>oq_user = uid, oq_did = 7, oq_channels = 2, oq_kind = ''sip_uri'', oq_target = ''sip:a@b.example'',
     oq_day = 15, oq_kyc = None\<rparr>"

definition mall_sold :: "db_id \<Rightarrow> db" where
  "mall_sold uid = snd (api_create_order no_office_faults shop_time uid (Some (mall_request uid)) mall)"

lemma mall_sale: "api_create_order no_office_faults shop_time 2 (Some (mall_request 2)) mall =
    (ApiOk 201 (1, OrdKycPending, 200), mall_sold 2)"
  by code_simp

lemma mall_run: "(others_step 1)\<^sup>*\<^sup>* mall_store (mall_store\<lparr>ky_db := mall_sold 2\<rparr>)"
proof -
  have "api_step 2 mall_store (mall_store\<lparr>ky_db := mall_sold 2\<rparr>)"
    by (rule api_step.order [where s = mall_store, OF trans [OF _ mall_sale]]) (simp add: mall_store_def)
  then have "others_step 1 mall_store (mall_store\<lparr>ky_db := mall_sold 2\<rparr>)" unfolding others_step_def by (intro exI [of _ 2]) simp
  then show ?thesis by (rule r_into_rtranclp)
qed

lemma mall_keys: "keys_ok (ky_db mall_store)"
  by (simp add: keys_ok_def refs_ok_def mall_store_def mall_def shop_db_def empty_db_def tbl_ids_def)

text \<open>
  C2: a reseller cannot touch what another one owns: whatever the other resellers request, in
  any number and order, the users of a reseller, their balances, orders, SIP accounts, ledger
  rows, bundles, documents and stored files stay as they were.
\<close>

theorem resellers_isolated:
  assumes "(others_step q)\<^sup>*\<^sup>* s t" "keys_ok (ky_db s)"
  shows "slice q t = slice q s"
  using isolated.run_inv [OF assms(1), of "slice q s"] assms(2) by simp

theorem resellers_isolated_witness:
  "slice 1 (mall_store\<lparr>ky_db := mall_sold 2\<rparr>) = slice 1 mall_store \<and> balance (mall_sold 2) 2 = Some 700"
proof -
  have "balance (mall_sold 2) 2 = Some 700" by code_simp
  with resellers_isolated [OF mall_run mall_keys] show ?thesis by simp
qed

subsection \<open>Replies are read from the slice\<close>

text \<open>What a reply grants; which refusal is sent may tell that an id exists.\<close>

fun granted :: "'a api \<Rightarrow> 'a option" where
  "granted (ApiErr c) = None"
| "granted (ApiOk c x) = Some x"

lemma map_filter_cong: "(\<And>x. x \<in> set xs \<Longrightarrow> f x = g x) \<Longrightarrow> List.map_filter f xs = List.map_filter g xs"
  by (induction xs) (simp_all add: List.map_filter_simps split: option.split)

lemma map_filter_filter: "(\<And>x. x \<in> set xs \<Longrightarrow> \<not> P x \<Longrightarrow> f x = None) \<Longrightarrow> List.map_filter f (filter P xs) = List.map_filter f xs"
  by (induction xs) (auto simp: List.map_filter_simps split: option.split)

lemma newest_first_filter: "newest_first (filter P t) = filter P (newest_first t)"
  unfolding newest_first_def by (simp only: rev_filter [symmetric] filter_sort)

lemma newest_first_set [simp]: "set (newest_first t) = set t"
  by (simp add: newest_first_def)

text \<open>The parts of two equal slices.\<close>

lemma slice_parts:
  assumes "slice q t = slice q s"
  shows "filter (\<lambda>(k, u). u_reseller u = Some q) (users (ky_db t)) = filter (\<lambda>(k, u). u_reseller u = Some q) (users (ky_db s))"
    and "filter (\<lambda>(k, r). under q (ky_db t) (o_user r)) (orders (ky_db t)) = filter (\<lambda>(k, r). under q (ky_db s) (o_user r)) (orders (ky_db s))"
    and "filter (\<lambda>(k, a). under q (ky_db t) (sa_user a)) (sip_accounts (ky_db t)) = filter (\<lambda>(k, a). under q (ky_db s) (sa_user a)) (sip_accounts (ky_db s))"
    and "filter (\<lambda>l. under q (ky_db t) (l_user l)) (ledger (ky_db t)) = filter (\<lambda>l. under q (ky_db s) (l_user l)) (ledger (ky_db s))"
    and "under q (ky_db t) = under q (ky_db s)"
    and "map_option d_e164 (tbl_get (dids (ky_db t)) n) = map_option d_e164 (tbl_get (dids (ky_db s)) n)"
    and "cdrs (ky_db t) = cdrs (ky_db s)"
    and "(k, r) \<in> set (orders (ky_db s)) \<Longrightarrow> under q (ky_db s) (o_user r) \<Longrightarrow>
      order_kyc (kyc_bundles (ky_db t)) r = order_kyc (kyc_bundles (ky_db s)) r"
proof -
  note sl = assms [unfolded slice_def Let_def, simplified]
  show u: "under q (ky_db t) = under q (ky_db s)" using sl by simp
  show f: "filter (\<lambda>(k, r). under q (ky_db t) (o_user r)) (orders (ky_db t)) = filter (\<lambda>(k, r). under q (ky_db s) (o_user r)) (orders (ky_db s))"
    using arg_cong [OF sl [THEN conjunct2, THEN conjunct1], of "map (\<lambda>(k, r, x). (k, r))"] by (simp add: comp_def case_prod_unfold)
  show "order_kyc (kyc_bundles (ky_db t)) r = order_kyc (kyc_bundles (ky_db s)) r"
    if "(k, r) \<in> set (orders (ky_db s))" "under q (ky_db s) (o_user r)"
    using sl [THEN conjunct2, THEN conjunct1] that unfolding f by auto
  show "map_option d_e164 (tbl_get (dids (ky_db t)) n) = map_option d_e164 (tbl_get (dids (ky_db s)) n)"
    using sl by (simp add: fun_eq_iff)
qed (insert assms [unfolded slice_def Let_def, simplified], (elim conjE, assumption)+)

lemma sliced_eq:
  assumes "filter P xs = filter Q ys" "\<And>x. R x \<Longrightarrow> P x" "\<And>x. R x \<Longrightarrow> Q x"
  shows "filter R xs = filter R ys"
proof -
  have "filter R xs = filter R (filter P xs)" "filter R ys = filter R (filter Q ys)"
    using assms(2,3) by (auto intro!: filter_cong)
  with assms(1) show ?thesis by simp
qed

lemma order_view_slice:
  assumes "slice q t = slice q s" "x \<in> set (orders (ky_db s))"
  shows "order_view q (ky_db t) x = order_view q (ky_db s) x"
proof (cases x)
  case (Pair k r)
  note u = slice_parts(5) [OF assms(1)] and n = slice_parts(6) [OF assms(1), of "o_did r"]
  show ?thesis
  proof (cases "under q (ky_db s) (o_user r)")
    case True
    then have "order_kyc (kyc_bundles (ky_db t)) r = order_kyc (kyc_bundles (ky_db s)) r"
      using slice_parts(8) [OF assms(1)] assms(2) Pair by blast
    with n u show ?thesis
      by (cases "tbl_get (dids (ky_db t)) (o_did r)"; cases "tbl_get (dids (ky_db s)) (o_did r)")
        (simp_all add: order_view_def Pair order_kyc_def)
  qed (use n u in \<open>auto simp: order_view_def Pair split: option.splits\<close>)
qed

lemma order_views_slice:
  assumes "slice q t = slice q s" "\<And>P xs. g (filter P xs) = filter P (g xs)" "\<And>xs. set (g xs) \<subseteq> set xs"
  shows "List.map_filter (order_view q (ky_db t)) (g (orders (ky_db t))) = List.map_filter (order_view q (ky_db s)) (g (orders (ky_db s)))"
proof -
  let ?F = "\<lambda>d. filter (\<lambda>(k, r). under q d (o_user r)) (orders d)"
  have own: "List.map_filter (order_view q d) (g (orders d)) = List.map_filter (order_view q d) (g (?F d))" for d
    unfolding assms(2) by (rule map_filter_filter [symmetric]) (auto simp: order_view_def split: option.split)
  have "List.map_filter (order_view q (ky_db t)) (g (?F (ky_db t))) = List.map_filter (order_view q (ky_db s)) (g (?F (ky_db s)))"
    unfolding slice_parts(2) [OF assms(1)]
    by (rule map_filter_cong, rule order_view_slice [OF assms(1)]) (use assms(3) [of "?F (ky_db s)"] in auto)
  then show ?thesis unfolding own .
qed

lemma active_slice:
  assumes "slice q t = slice q s" "under q (ky_db s) k"
  shows "affected (\<lambda>_ r. o_user r = k \<and> P r) (orders (ky_db t)) = affected (\<lambda>_ r. o_user r = k \<and> P r) (orders (ky_db s))"
  unfolding affected_def
  by (rule arg_cong [where f = length], rule sliced_eq [OF slice_parts(2) [OF assms(1)]])
    (use assms(2) slice_parts(5) [OF assms(1)] in auto)

lemma user_views_slice:
  assumes "slice q t = slice q s" "keys_ok (ky_db s)" "(k, u) \<in> set (users (ky_db s))" "u_reseller u = Some q"
  shows "user_view (ky_db t) (k, u) = user_view (ky_db s) (k, u)"
proof -
  have "under q (ky_db s) k"
    using tbl_in_get [OF _ assms(3)] assms(2,4) by (simp add: keys_ok_def under_def)
  from active_slice [OF assms(1) this] show ?thesis by (simp add: user_view_def)
qed

lemma granted_own:
  "granted (case user_belongs g q uid d of Some c \<Rightarrow> ApiErr c | None \<Rightarrow> x) = (if g \<or> \<not> under q d uid then None else granted x)"
  by (auto simp: user_belongs_def under_def split: option.split)

text \<open>Each reply, from two stores with the same slice.\<close>

lemma list_users_slice:
  assumes "slice q t = slice q s" "keys_ok (ky_db s)"
  shows "api_list_users f q (ky_db t) = api_list_users f q (ky_db s)"
proof -
  let ?U = "newest_first (filter (\<lambda>(k, u). u_reseller u = Some q) (users (ky_db s)))"
  have "map (user_view (ky_db t)) (take 500 ?U) = map (user_view (ky_db s)) (take 500 ?U)"
    by (rule map_cong [OF refl]) (use user_views_slice [OF assms] in \<open>auto dest!: in_set_takeD\<close>)
  then show ?thesis by (simp add: api_list_users_def slice_parts(1) [OF assms(1)])
qed

lemma get_user_slice:
  assumes "slice q t = slice q s" "keys_ok (ky_db s)"
  shows "api_get_user f q i (ky_db t) = api_get_user f q i (ky_db s)"
proof -
  have find: "tbl_find (\<lambda>k u. k = j \<and> u_reseller u = Some q) xs = tbl_find (\<lambda>k u. k = j) (filter (\<lambda>(k, u). u_reseller u = Some q) xs)" for j xs
    unfolding tbl_find_def by (induction xs) auto
  have "tbl_find (\<lambda>k u. k = atoi64 i \<and> u_reseller u = Some q) (users (ky_db t)) =
      tbl_find (\<lambda>k u. k = atoi64 i \<and> u_reseller u = Some q) (users (ky_db s))"
    unfolding find slice_parts(1) [OF assms(1)] ..
  then show ?thesis
    using user_views_slice [OF assms] by (auto simp: api_get_user_def split: option.split dest!: tbl_find_Some)
qed

lemma ledger_slice:
  assumes "slice q t = slice q s"
  shows "granted (api_user_ledger g f q i n (ky_db t)) = granted (api_user_ledger g f q i n (ky_db s))"
proof -
  have v: "ledger_view (ky_db t) = ledger_view (ky_db s)"
    by (rule ext) (simp add: ledger_view_def Let_def slice_parts(7) [OF assms])
  have l: "filter (\<lambda>l. l_user l = uid) (ledger (ky_db t)) = filter (\<lambda>l. l_user l = uid) (ledger (ky_db s))"
    if "under q (ky_db s) uid" for uid
    by (rule sliced_eq [OF slice_parts(4) [OF assms]]) (use that slice_parts(5) [OF assms] in auto)
  then show ?thesis
    using slice_parts(5) [OF assms] by (simp add: api_user_ledger_def Let_def granted_own v)
qed

lemma list_peers_slice:
  assumes "slice q t = slice q s"
  shows "granted (api_list_peers g f q i (ky_db t)) = granted (api_list_peers g f q i (ky_db s))"
proof -
  have l: "filter (\<lambda>(k, a). sa_user a = uid) (sip_accounts (ky_db t)) = filter (\<lambda>(k, a). sa_user a = uid) (sip_accounts (ky_db s))"
    if "under q (ky_db s) uid" for uid
    by (rule sliced_eq [OF slice_parts(3) [OF assms]]) (use that slice_parts(5) [OF assms] in auto)
  then show ?thesis
    using slice_parts(5) [OF assms] by (simp add: api_list_peers_def Let_def granted_own)
qed

lemma list_orders_slice:
  assumes "slice q t = slice q s"
  shows "api_list_orders f q (ky_db t) = api_list_orders f q (ky_db s)"
  using order_views_slice [OF assms, where g = newest_first] by (simp add: api_list_orders_def newest_first_filter)

lemma get_order_slice:
  assumes "slice q t = slice q s"
  shows "api_get_order f q i (ky_db t) = api_get_order f q i (ky_db s)"
proof -
  have "List.map_filter (order_view q (ky_db t)) (filter (\<lambda>(k, r). k = atoi64 i) (orders (ky_db t))) =
    List.map_filter (order_view q (ky_db s)) (filter (\<lambda>(k, r). k = atoi64 i) (orders (ky_db s)))"
    by (rule order_views_slice [OF assms]) (auto intro: filter_cong)
  then show ?thesis by (simp add: api_get_order_def)
qed



subsection \<open>Numbers and keys\<close>

lemma did_rows_own: "(k, n, x) \<in> set (did_rows d y) \<Longrightarrow> y = (k, n)"
  by (cases y) (auto simp: did_rows_def split: list.splits)

lemma did_rows_order: "(k, n, Some z) \<in> set (did_rows d y) \<Longrightarrow> z \<in> set (serving_orders k d)"
  by (cases y) (auto simp: did_rows_def split: list.splits)


lemma mall_books: "books_ok mall"
  by (auto simp: books_ok_def inventory_ok_def held_dids_def ledger_ok_def rates_ok_def posted_def balance_def tbl_get_def
      mall_def shop_db_def empty_db_def tbl_ids_def split: if_splits)

definition any_did :: did_query where
  "any_did = \<lparr>dq_limit = [], dq_available = [], dq_country = ''gb'', dq_type = [], dq_q = ''4411''\<rparr>"

definition mall_row :: did_out where
  "mall_row = \<lparr>dv_id = 7, dv_e164 = ''441134960000'', dv_country = ''GB'', dv_type = ''national'', dv_status = DidAssigned,
     dv_order = Some (2, 1, 2, RouteSIPURI, ''sip:a@b.example'')\<rparr>"


definition request_of :: "order_form \<Rightarrow> order_request" where
  "request_of f = \<lparr>oq_user = atoi64 (of_user f), oq_did = atoi64 (of_did f), oq_channels = atoi64 (of_channels f),
     oq_kind = of_kind f, oq_target = of_target f, oq_day = atoi64 (of_day f), oq_kyc = bundle_field (of_kyc f)\<rparr>"



text \<open>
  The API looks at the owner of a bundle but not at the owner of a SIP account that an order is
  routed to: reseller 1 routes its order to the account of a user of reseller 2.
\<close>

definition crossing :: order_change where
  "crossing = \<lparr>oc_kind = Some ''sip_account'', oc_target = Some ''desk'', oc_channels = None, oc_kyc = None\<rparr>"

lemma foreign_peer_accepted:
  "fst (api_update_order no_office_faults 1 ''1'' (Some crossing) (mall_sold 1)) = ApiOk 200 (RouteSIPAccount, ''desk'', 2)"
  "has_peer 1 ''desk'' (mall_sold 1) = False" "under 2 (mall_sold 1) 2 \<and> has_peer 2 ''desk'' (mall_sold 1)"
  by code_simp+

text \<open>
  A body without a cap is refused although the field is optional: the NULL it stands for does
  not go into the column.
\<close>

lemma cap_required:
  "nu_cap q = None \<Longrightarrow> api_create_user f rid (Some q) d = (ApiErr 400, d)"
  by (simp add: api_create_user_def Let_def)

subsection \<open>The life of a key\<close>

lemma hex_nibble_plain: "list_all (\<lambda>n. hex_nibble n \<notin> set (concat space_seqs)) [0..<16]"
  by code_simp

lemma trim_hex:
  assumes "list_all (\<lambda>b. b < 256) bs"
  shows "trim_space (hex_string bs) = hex_string bs"
proof (rule trim_space_plain)
  have p: "hex_nibble n \<notin> set (concat space_seqs)" if "n < 16" for n
    using hex_nibble_plain that unfolding list_all_iff set_upt by (metis atLeastLessThan_iff zero_le)
  fix c assume "c \<in> set (hex_string bs)"
  then obtain b where "b \<in> set bs" "c = hex_nibble (b div 16) \<or> c = hex_nibble (b mod 16)" by (auto simp: hex_string_def)
  with assms p [of "b div 16"] p [of "b mod 16"] show "c \<notin> set (concat space_seqs)"
    by (auto simp: list_all_iff less_mult_imp_div_less)
qed

lemma find_last: "(\<And>x. x \<in> set xs \<Longrightarrow> \<not> P x) \<Longrightarrow> List.find P (xs @ [y]) = (if P y then Some y else None)"
  by (induction xs) simp_all

text \<open>
  C36: a new key opens the API for its reseller until it is revoked: with bytes from the random
  source and a comparison that accepts the secret against its own hash and against no other
  stored one, the header with the secret gives the reseller, and after the revocation 401.
\<close>

theorem key_life:
  assumes "api_key_create False hash bytes stamp rid field d = (Some (name, secret), d1)"
    and "bytes \<noteq> []" "list_all (\<lambda>b. b < 256) bytes" "compare (hash secret) secret"
    and "\<And>k a. (k, a) \<in> set (api_keys d) \<Longrightarrow> \<not> compare (ak_hash a) secret"
    and "api_key_revoke False (next_id (api_keys d)) d1 = (True, d2)"
  shows "bearer_auth compare False (''Bearer '' @ secret) d1 = Inr rid \<and>
    bearer_auth compare False (''Bearer '' @ secret) d2 = Inl 401"
proof -
  let ?P = "\<lambda>(k, a). \<not> ak_revoked a \<and> ak_reseller a \<noteq> None \<and> compare (ak_hash a) secret"
  define row where "row = \<lparr>ak_reseller = Some rid, ak_name = name, ak_hash = hash secret, ak_revoked = False\<rparr>"
  have c: "secret = hex_string bytes" "d1 = d\<lparr>api_keys := tbl_insert row (api_keys d)\<rparr>"
    using assms(1) by (auto simp: api_key_create_def Let_def gen_secret_def row_def split: if_splits)
  have ne: "secret \<noteq> []" using assms(2) by (cases bytes) (simp_all add: c(1) hex_string_def)
  have tok: "bearer_token (''Bearer '' @ secret) = secret"
    using trim_hex [OF assms(3)] by (simp add: bearer_token_def c(1))
  have k1: "api_keys d1 = api_keys d @ [(next_id (api_keys d), row)]" by (simp add: c(2) tbl_insert_def)
  have fresh: "k \<noteq> next_id (api_keys d)" if "(k, a) \<in> set (api_keys d)" for k a
    using next_id_fresh [of k "api_keys d"] that by (force simp: tbl_ids_def)
  have old: "map (\<lambda>(k, a). (k, if k = next_id (api_keys d) \<and> \<not> ak_revoked a then a\<lparr>ak_revoked := True\<rparr> else a)) (api_keys d) = api_keys d"
    by (rule map_idI) (use fresh in auto)
  have k2: "api_keys d2 = api_keys d @ [(next_id (api_keys d), row\<lparr>ak_revoked := True\<rparr>)]"
    using assms(6) old by (auto simp: api_key_revoke_def k1 tbl_upd_where_def row_def)
  have none: "\<not> ?P x" if "x \<in> set (api_keys d)" for x using assms(5) that by (cases x) auto
  have "List.find ?P (api_keys d1) = Some (next_id (api_keys d), row)" "List.find ?P (api_keys d2) = None"
    using assms(4) none by (simp_all add: k1 k2 find_last row_def)
  then show ?thesis using ne unfolding bearer_auth_def tok Let_def by (simp add: row_def)
qed

definition plain_hash :: "string \<Rightarrow> string" where "plain_hash s = CHR ''$'' # s"
definition plain_compare :: "string \<Rightarrow> string \<Rightarrow> bool" where "plain_compare h s \<longleftrightarrow> h = CHR ''$'' # s"

definition mall_owner :: db where
  "mall_owner = mall\<lparr>resellers := [(1, \<lparr>rs_name = ''one'', rs_brand = None, rs_host = None, rs_status = ''active''\<rparr>)]\<rparr>"

theorem key_life_witness:
  "bearer_auth plain_compare False ''Bearer 07ff''
     (snd (api_key_revoke False 1 (snd (api_key_create False plain_hash [7, 255] ''key'' 1 ''ci'' mall_owner)))) = Inl 401"
proof -
  let ?d1 = "snd (api_key_create False plain_hash [7, 255] ''key'' 1 ''ci'' mall_owner)"
  have c: "api_key_create False plain_hash [7, 255] ''key'' 1 ''ci'' mall_owner = (Some (''ci'', ''07ff''), ?d1)" by code_simp
  have k: "api_keys mall_owner = []" "next_id (api_keys mall_owner) = 1" by code_simp+
  have r: "api_key_revoke False (next_id (api_keys mall_owner)) ?d1 = (True, snd (api_key_revoke False 1 ?d1))"
    unfolding k(2) by (simp add: api_key_revoke_def)
  show ?thesis
    using key_life [OF c _ _ _ _ r, of plain_compare] k(1) by (simp add: plain_hash_def plain_compare_def)
qed

end
