(* ===== verification/Sip_Trace.thy ===== *)
theory Sip_Trace
  imports Forms Domain Sql_Table "HOL-Library.AList" "HOL-Library.List_Lexorder"
begin

text \<open>
  \<open>internal/siptrace\<close>: the capture files a call can be in, the messages read from tshark's
  output, the summary of a trace, the cache of traces and the rewriting of addresses for a
  reseller. The directory, grep and tshark are arguments (a record \<open>capture\<close>). The cache is an
  explicit store, since a trace handed out on a miss is the object the cache keeps. Fractions
  of a second in the text of a time are exact; map iteration is an argument where its order
  shows.
\<close>

subsection \<open>Calendar\<close>

text \<open>The date of a day since 1970-01-01: the last year and month that begin by then.\<close>

definition civil :: "int \<Rightarrow> int \<times> int \<times> int" where
  "civil n =
     (let g = (400 * n) div 146097 + 1970;
          y = (case List.find (\<lambda>y. unix_day y 1 1 \<le> n) [g + 1, g] of Some y \<Rightarrow> y | None \<Rightarrow> g - 1);
          m = (case List.find (\<lambda>m. unix_day y m 1 \<le> n) [12, 11, 10, 9, 8, 7, 6, 5, 4, 3, 2] of Some m \<Rightarrow> m | None \<Rightarrow> 1)
      in (y, m, n - unix_day y m 1 + 1))"

definition pad_int :: "nat \<Rightarrow> int \<Rightarrow> string" where
  "pad_int w n = (let s = itoa n in replicate (w - length s) (CHR ''0'') @ s)"

definition day_text :: "unix_time \<Rightarrow> string" where
  "day_text t = (case civil (t div 86400) of (y, m, d) \<Rightarrow> pad_int 4 y @ pad_int 2 m @ pad_int 2 d)"

definition hour_text :: "unix_time \<Rightarrow> string" where
  "hour_text t = day_text t @ ''-'' @ pad_int 2 (t mod 86400 div 3600)"

text \<open>\<open>time.RFC3339Nano\<close> in UTC; trailing zeros of the fraction are dropped.\<close>

definition nano_text :: "int \<Rightarrow> string" where
  "nano_text n =
     (let s = rev (dropWhile (\<lambda>c. c = CHR ''0'') (rev (pad_int 9 n))) in if s = [] then [] else ''.'' @ s)"

definition iso_text :: "unix_time \<Rightarrow> int \<Rightarrow> string" where
  "iso_text t n =
     (case civil (t div 86400) of (y, m, d) \<Rightarrow>
        let s = t mod 86400 in
        pad_int 4 y @ ''-'' @ pad_int 2 m @ ''-'' @ pad_int 2 d @ ''T'' @ pad_int 2 (s div 3600) @ '':'' @
        pad_int 2 (s mod 3600 div 60) @ '':'' @ pad_int 2 (s mod 60) @ nano_text n @ ''Z'')"

subsection \<open>The files of a window\<close>

definition pcap_dir :: string where "pcap_dir = ''/var/lib/didstorage/sip-traces''"

function steps_from :: "int \<Rightarrow> int \<Rightarrow> int \<Rightarrow> int list" where
  "steps_from w t e = (if e < t \<or> w \<le> 0 then [] else t # steps_from w (t + w) e)"
  by pat_completeness auto
termination by (relation "measure (\<lambda>(w, t, e). nat (e + 1 - t))") auto

declare steps_from.simps [simp del]

definition truncate_to :: "int \<Rightarrow> int \<Rightarrow> int" where
  "truncate_to w t = t - t mod w"

definition pcap_path :: "string \<Rightarrow> string" where
  "pcap_path stamp = pcap_dir @ ''/sip-'' @ stamp @ ''.pcap''"

definition hourly_pcaps :: "(string \<Rightarrow> bool) \<Rightarrow> unix_time \<Rightarrow> unix_time \<Rightarrow> string list" where
  "hourly_pcaps exists a b =
     (let start = truncate_to 3600 (a - 3600); end' = truncate_to 3600 (b + 3600) in
      filter exists (map (\<lambda>t. pcap_path (hour_text t)) (steps_from 3600 start end')) @
      filter exists (map (\<lambda>d. pcap_path (day_text d)) (steps_from 86400 (truncate_to 86400 start) end')))"

subsection \<open>Messages\<close>

record sip_message =
  sm_time :: rat
  sm_iso :: string
  sm_dir :: string
  sm_src :: string
  sm_dst :: string
  sm_summary :: string

text \<open>\<open>strings.SplitN\<close> with a single byte as the separator.\<close>

fun split_n :: "nat \<Rightarrow> char \<Rightarrow> string \<Rightarrow> string list" where
  "split_n 0 b s = []"
| "split_n (Suc 0) b s = [s]"
| "split_n (Suc (Suc n)) b s =
     (case index_byte s b of None \<Rightarrow> [s] | Some i \<Rightarrow> take i s # split_n (Suc n) b (drop (Suc i) s))"

definition parse_field_line :: "string \<Rightarrow> string \<Rightarrow> sip_message option" where
  "parse_field_line ours line0 =
     (let line = trim_space line0; ps = split_n 7 (CHR ''|'') line in
      if line = [] \<or> length ps < 7 then None
      else let ts = fl64 (parsed_or_zero (ps ! 0)); secs = float_to_int64 ts;
               s = trim_space (ps ! 5); summary = (if s = [] then trim_space (ps ! 6) else s) in
        Some \<lparr>sm_time = ts, sm_iso = iso_text secs (float_to_int64 (fl64 (fl64 (ts - fl64 (of_int secs)) * 10 ^ 9))),
          sm_dir = (if ps ! 1 = ours then ''out'' else ''in''),
          sm_src = ps ! 1 @ '':'' @ ps ! 2, sm_dst = ps ! 3 @ '':'' @ ps ! 4, sm_summary = summary\<rparr>)"

definition parse_field_dump :: "string \<Rightarrow> string \<Rightarrow> sip_message list" where
  "parse_field_dump out ours = List.map_filter (parse_field_line ours) (split_byte (CHR 0x0A) out)"

subsection \<open>The summary of a trace\<close>

record trace =
  tr_call :: string
  tr_messages :: "sip_message list"
  tr_raw :: string
  tr_files :: "string list"
  tr_endpoints :: "string list"
  tr_code :: int
  tr_reason :: string
  tr_counts :: "string \<Rightarrow> nat"

text \<open>Go's division rounds to zero.\<close>

definition quot :: "int \<Rightarrow> int \<Rightarrow> int" where
  "quot n k = (if n < 0 then - ((- n) div k) else n div k)"

definition response_rank :: "int \<Rightarrow> nat" where
  "response_rank code =
     (let c = quot code 100 in
      if c = 2 then 100 else if c = 3 then 50 else if c = 4 then 30 else if c = 5 then 20 else if c = 6 then 10 else 0)"

definition add_endpoint :: "string list \<Rightarrow> string \<Rightarrow> string list" where
  "add_endpoint es a = (if a \<noteq> '':'' \<and> a \<notin> set es then es @ [a] else es)"

definition endpoints_of :: "sip_message list \<Rightarrow> string list" where
  "endpoints_of ms = foldl add_endpoint [] (concat (map (\<lambda>m. [sm_src m, sm_dst m]) ms))"

text \<open>The code and the reason of a status line.\<close>

definition status_line :: "string \<Rightarrow> (int \<times> string) option" where
  "status_line s =
     (if \<not> has_prefix s ''SIP/'' then None
      else let ps = split_n 3 (CHR '' '') s in
        if length ps < 2 then None
        else map_option (\<lambda>n. (n, if length ps = 3 then ps ! 2 else [])) (parse_int64 (ps ! 1)))"

definition better_final :: "int \<times> string \<Rightarrow> int \<times> string \<Rightarrow> int \<times> string" where
  "better_final cur x =
     (if 200 \<le> fst x \<and> (fst cur = 0 \<or> response_rank (fst cur) < response_rank (fst x)) then x else cur)"

definition count_key :: "string \<Rightarrow> string option" where
  "count_key s =
     (if s = [] then None
      else if has_prefix s ''SIP/'' then map_option (\<lambda>(n, _). itoa (quot n 100) @ ''xx'') (status_line s)
      else let m = to_upper (hd (split_n 2 (CHR '' '') s)) in if m = [] then None else Some m)"

definition derive :: "trace \<Rightarrow> trace" where
  "derive tr =
     (let ss = map (\<lambda>m. trim_space (sm_summary m)) (tr_messages tr);
          final = foldl better_final (0, []) (List.map_filter status_line ss) in
      tr\<lparr>tr_endpoints := endpoints_of (tr_messages tr), tr_code := fst final, tr_reason := snd final,
         tr_counts := (\<lambda>k. length (filter (\<lambda>s. count_key s = Some k) ss))\<rparr>)"

definition empty_trace :: "string \<Rightarrow> string list \<Rightarrow> trace" where
  "empty_trace call files =
     \<lparr>tr_call = call, tr_messages = [], tr_raw = [], tr_files = files, tr_endpoints = [], tr_code = 0, tr_reason = [],
      tr_counts = (\<lambda>_. 0)\<rparr>"

subsection \<open>The cache\<close>

record cache_entry =
  ce_trace :: trace
  ce_at :: unix_time
  ce_ttl :: int

type_synonym trace_cache = "(string \<times> cache_entry) list"

definition cache_ttl :: int where "cache_ttl = 86400"
definition empty_cache_ttl :: int where "empty_cache_ttl = 300"

text \<open>A copy has the messages; the summary of the trace is not copied.\<close>

definition clone_trace :: "trace \<Rightarrow> trace" where
  "clone_trace t = (empty_trace (tr_call t) (tr_files t))\<lparr>tr_messages := tr_messages t, tr_raw := tr_raw t\<rparr>"

definition cache_get :: "unix_time \<Rightarrow> string \<Rightarrow> trace_cache \<Rightarrow> trace option" where
  "cache_get now key c =
     (case map_of c key of
        None \<Rightarrow> None
      | Some e \<Rightarrow>
          let ttl = (if ce_ttl e = 0 then cache_ttl else ce_ttl e) in
          if ttl < now - ce_at e then None else Some (clone_trace (ce_trace e)))"

definition cache_put :: "unix_time \<Rightarrow> string \<Rightarrow> trace \<Rightarrow> trace_cache \<Rightarrow> trace_cache" where
  "cache_put now key t c =
     (let ttl = (if tr_messages t = [] then empty_cache_ttl else cache_ttl);
          d = AList.update key \<lparr>ce_trace = t, ce_at = now, ce_ttl = ttl\<rparr> c in
      if 256 < length d then filter (\<lambda>(k, e). \<not> ce_at e < now - cache_ttl) d else d)"

subsection \<open>Looking a call up\<close>

text \<open>
  What the package asks of the machine: the glob, which files exist, the files grep keeps, the
  two outputs of tshark, and \<open>sort.Slice\<close> by time, which leaves the order of equal times open.
\<close>

record capture =
  cap_glob :: "string list option"
  cap_exists :: "string \<Rightarrow> bool"
  cap_grep :: "string \<Rightarrow> string \<Rightarrow> bool"
  cap_fields :: "string \<Rightarrow> string \<Rightarrow> string"
  cap_verbose :: "string \<Rightarrow> string \<Rightarrow> string"
  cap_sort :: "sip_message list \<Rightarrow> sip_message list"

definition call_filter :: "string \<Rightarrow> string" where
  "call_filter p = ''sip.Call-ID contains '' @ [CHR 0x22] @ p @ [CHR 0x22]"

definition pcaps_of :: "capture \<Rightarrow> (unix_time \<times> unix_time) option \<Rightarrow> string list option" where
  "pcaps_of cap window =
     map_option (sort_key (map byte_val))
       (case window of None \<Rightarrow> cap_glob cap | Some (a, b) \<Rightarrow> Some (hourly_pcaps (cap_exists cap) a b))"

definition read_trace :: "capture \<Rightarrow> string \<Rightarrow> string \<Rightarrow> string list \<Rightarrow> trace" where
  "read_trace cap ours p pcaps =
     (let ms = filter (\<lambda>f. cap_grep cap f p) pcaps; t = empty_trace p pcaps in
      if ms = [] then t
      else derive (t\<lparr>tr_messages := cap_sort cap (concat (map (\<lambda>f. parse_field_dump (cap_fields cap f (call_filter p)) ours) ms)),
                     tr_raw := concat (map (\<lambda>f. cap_verbose cap f (call_filter p)) ms)\<rparr>))"

text \<open>
  The trace and whether it is the object in the cache; \<open>None\<close> when the directory cannot be listed.
\<close>

definition lookup_window ::
  "capture \<Rightarrow> unix_time \<Rightarrow> string \<Rightarrow> string \<Rightarrow> (unix_time \<times> unix_time) option \<Rightarrow> trace_cache \<Rightarrow> ((trace \<times> bool) \<times> trace_cache) option" where
  "lookup_window cap now call ours window c =
     (case pcaps_of cap window of
        None \<Rightarrow> None
      | Some pcaps \<Rightarrow>
          let p = sanitize_call_id call in
          Some (if p = [] then ((empty_trace p pcaps, False), c)
                else case cache_get now p c of
                  Some t \<Rightarrow> ((t, False), c)
                | None \<Rightarrow> let t = read_trace cap ours p pcaps in ((t, True), cache_put now p t c)))"

subsection \<open>Rewriting addresses\<close>

lemma str_index_bound: "str_index s k = Some i \<Longrightarrow> i + length k \<le> length s"
proof (induction s k arbitrary: i rule: str_index.induct)
  case (2 c cs p)
  then show ?case by (auto split: if_splits dest!: prefix_length_le)
qed (auto split: if_splits)

lemma drop_shorter: "k \<noteq> [] \<Longrightarrow> i + length k \<le> length s \<Longrightarrow> length (drop (i + length k) s) < length s"
  by (cases k) auto

text \<open>\<open>strings.ReplaceAll\<close> for a non-empty old text.\<close>

function replace_all :: "string \<Rightarrow> string \<Rightarrow> string \<Rightarrow> string" where
  "replace_all s k v =
     (if k = [] then s
      else case str_index s k of None \<Rightarrow> s | Some i \<Rightarrow> take i s @ v @ replace_all (drop (i + length k) s) k v)"
  by pat_completeness auto

termination
  by (relation "measure (\<lambda>(s, k, v). length s)") (auto simp del: length_drop intro!: drop_shorter str_index_bound)

declare replace_all.simps [simp del]

text \<open>The longer keys first.\<close>

definition rewrite_text :: "(string \<times> string) list \<Rightarrow> string \<Rightarrow> string" where
  "rewrite_text kvs s = foldl (\<lambda>s (k, v). replace_all s k v) s (sort_key (\<lambda>(k, v). - int (length k)) kvs)"

definition sanitize_trace :: "(string \<times> string) list \<Rightarrow> trace \<Rightarrow> trace" where
  "sanitize_trace kvs t =
     (if kvs = [] then t
      else derive (t\<lparr>tr_messages := map (\<lambda>m. m\<lparr>sm_src := rewrite_text kvs (sm_src m), sm_dst := rewrite_text kvs (sm_dst m),
               sm_summary := rewrite_text kvs (sm_summary m)\<rparr>) (tr_messages t),
             tr_raw := rewrite_text kvs (tr_raw t)\<rparr>))"

text \<open>\<open>Sanitize\<close> writes in place: the entry of the cache changes with the trace it shares.\<close>

definition sanitize_shared :: "(string \<times> string) list \<Rightarrow> (trace \<times> bool) \<times> trace_cache \<Rightarrow> trace \<times> trace_cache" where
  "sanitize_shared kvs = (\<lambda>((t, shared), c).
     let t' = sanitize_trace kvs t in
     (t', if shared then map (\<lambda>(k, e). (k, if k = tr_call t then e\<lparr>ce_trace := t'\<rparr> else e)) c else c))"

subsection \<open>The files of a window hold the call\<close>

lemma steps_from_mem: "0 < w \<Longrightarrow> x \<in> set (steps_from w t e) \<longleftrightarrow> t \<le> x \<and> x \<le> e \<and> (x - t) mod w = 0"
proof (induction w t e rule: steps_from.induct)
  case (1 w t e)
  show ?case
  proof (cases "e < t")
    case True
    then show ?thesis by (subst steps_from.simps) auto
  next
    case False
    have m: "(x - (t + w)) mod w = (x - t) mod w" by (metis diff_diff_add mod_diff_right_eq mod_self diff_zero)
    have "t \<le> x \<and> (x - t) mod w = 0 \<longleftrightarrow> x = t \<or> t + w \<le> x \<and> (x - t) mod w = 0"
      using 1(2) by (smt (verit) mod_pos_pos_trivial)
    then show ?thesis using False 1(2) 1(1) m by (subst steps_from.simps) auto
  qed
qed

lemma truncate_to_props:
  assumes "0 < w"
  shows "truncate_to w t \<le> t" "t < truncate_to w t + w" "truncate_to w t mod w = 0" "truncate_to w t div w = t div w"
  using pos_mod_bound [OF assms, of t] pos_mod_sign [OF assms, of t] assms
  by (simp_all add: truncate_to_def, simp_all add: minus_mod_eq_mult_div)

lemma hour_text_cong: "x div 3600 = y div 3600 \<Longrightarrow> hour_text x = hour_text (y :: int)"
proof -
  have d: "z div 86400 = z div 3600 div 24" for z :: int using zdiv_zmult2_eq [of 24 z 3600] by simp
  have "z mod 86400 = 3600 * (z div 3600 mod 24) + z mod 3600" for z :: int using zmod_zmult2_eq [of 24 z 3600] by simp
  then have m: "z mod 86400 div 3600 = z div 3600 mod 24" for z :: int by simp
  assume "x div 3600 = y div 3600"
  then show ?thesis by (simp add: hour_text_def day_text_def d m)
qed

lemma hour_text_truncate: "hour_text (truncate_to 3600 t) = hour_text t"
  by (rule hour_text_cong) (simp add: truncate_to_props)

text \<open>
  C37: the lookup of a call opens every capture file the call can be in: for any moment between
  the start and the end of the window, widened by an hour on each side, the hourly file of
  that moment is among the files when it exists, and every file opened exists.
\<close>

theorem window_covers_call:
  assumes "a - 3600 \<le> t" "t \<le> b + 3600" "exists (pcap_path (hour_text t))"
  shows "pcap_path (hour_text t) \<in> set (hourly_pcaps exists a b) \<and> list_all exists (hourly_pcaps exists a b)"
proof -
  let ?s = "truncate_to 3600 (a - 3600)" and ?e = "truncate_to 3600 (b + 3600)" and ?t = "truncate_to 3600 t"
  have mono: "truncate_to 3600 x \<le> truncate_to 3600 y" if "x \<le> y" for x y
    using that zdiv_mono1 [of x y 3600] by (simp add: truncate_to_def minus_mod_eq_mult_div)
  have "(?t - ?s) mod 3600 = 0"
    using truncate_to_props(3) [of 3600 t] truncate_to_props(3) [of 3600 "a - 3600"] by (simp add: mod_diff_eq [symmetric])
  then have "?t \<in> set (steps_from 3600 ?s ?e)" using mono assms(1,2) by (simp add: steps_from_mem)
  then have "pcap_path (hour_text t) \<in> set (map (\<lambda>t. pcap_path (hour_text t)) (steps_from 3600 ?s ?e))"
    unfolding set_map by (rule image_eqI [rotated]) (simp add: hour_text_truncate)
  with assms(3) show ?thesis by (auto simp: hourly_pcaps_def Let_def list_all_iff)
qed

theorem window_covers_call_witness:
  "''/var/lib/didstorage/sip-traces/sip-20260202-04.pcap'' \<in> set (hourly_pcaps (\<lambda>_. True) 1770000000 1770003600)"
proof -
  have "pcap_path (hour_text 1770005400) = ''/var/lib/didstorage/sip-traces/sip-20260202-04.pcap''" by code_simp
  with window_covers_call [of 1770000000 1770005400 1770003600 "\<lambda>_. True"] show ?thesis by simp
qed

subsection \<open>The final response\<close>

text \<open>The response that is kept is the first of the best rank.\<close>

lemma better_final_first:
  assumes "r = foldl better_final (0, []) xs"
  shows "(r = (0, []) \<and> (\<forall>x \<in> set xs. fst x < 200)) \<or>
    (\<exists>ys zs. xs = ys @ r # zs \<and> 200 \<le> fst r \<and> (\<forall>y \<in> set ys. 200 \<le> fst y \<longrightarrow> response_rank (fst y) < response_rank (fst r)) \<and>
       (\<forall>z \<in> set zs. 200 \<le> fst z \<longrightarrow> response_rank (fst z) \<le> response_rank (fst r)))"
  using assms
proof (induction xs arbitrary: r rule: rev_induct)
  case (snoc x xs)
  define q where "q = foldl better_final (0, []) xs"
  have r: "r = better_final q x" using snoc.prems by (simp add: q_def)
  from snoc.IH [OF q_def] show ?case
  proof (elim disjE conjE exE)
    assume q: "q = (0, [])" "\<forall>x \<in> set xs. fst x < 200"
    show ?thesis
    proof (cases "200 \<le> fst x")
      case True
      then have "r = x" using r q(1) by (simp add: better_final_def)
      with q(2) True have "xs @ [x] = xs @ r # [] \<and> 200 \<le> fst r \<and> (\<forall>y \<in> set xs. 200 \<le> fst y \<longrightarrow> response_rank (fst y) < response_rank (fst r))" by auto
      then show ?thesis by (intro disjI2 exI [of _ xs] exI [of _ "[]"]) simp
    qed (use r q in \<open>auto simp: better_final_def\<close>)
  next
    fix ys zs
    assume q: "xs = ys @ q # zs" "200 \<le> fst q" "\<forall>y \<in> set ys. 200 \<le> fst y \<longrightarrow> response_rank (fst y) < response_rank (fst q)"
      "\<forall>z \<in> set zs. 200 \<le> fst z \<longrightarrow> response_rank (fst z) \<le> response_rank (fst q)"
    show ?thesis
    proof (cases "200 \<le> fst x \<and> response_rank (fst q) < response_rank (fst x)")
      case True
      then have "r = x" using r q(2) by (auto simp: better_final_def)
      with q True show ?thesis by (intro disjI2 exI [of _ xs] exI [of _ "[]"]) auto
    next
      case False
      then have "r = q" using r q(2) by (auto simp: better_final_def)
      with q False show ?thesis by (intro disjI2 exI [of _ ys] exI [of _ "zs @ [x]"]) auto
    qed
  qed
qed simp

definition responses :: "trace \<Rightarrow> (int \<times> string) list" where
  "responses t = List.map_filter status_line (map (\<lambda>m. trim_space (sm_summary m)) (tr_messages t))"

text \<open>
  C38: the final response shown for a call is the one of the best class among the captured final
  responses, success first, and the first of that class; it is absent exactly when no final
  response was captured.
\<close>

theorem final_response_best:
  "(tr_code (derive t) = 0 \<and> filter (\<lambda>x. 200 \<le> fst x) (responses t) = []) \<or>
   (\<exists>ys zs. filter (\<lambda>x. 200 \<le> fst x) (responses t) = ys @ (tr_code (derive t), tr_reason (derive t)) # zs \<and>
      list_all (\<lambda>y. response_rank (fst y) < response_rank (tr_code (derive t))) ys \<and>
      list_all (\<lambda>z. response_rank (fst z) \<le> response_rank (tr_code (derive t))) zs)"
proof -
  define r where "r = foldl better_final (0, []) (responses t)"
  have d: "tr_code (derive t) = fst r" "tr_reason (derive t) = snd r" by (simp_all add: derive_def Let_def r_def responses_def)
  from better_final_first [OF r_def] show ?thesis
  proof (elim disjE conjE exE)
    fix ys zs
    assume q: "responses t = ys @ r # zs" "200 \<le> fst r" "\<forall>y \<in> set ys. 200 \<le> fst y \<longrightarrow> response_rank (fst y) < response_rank (fst r)"
      "\<forall>z \<in> set zs. 200 \<le> fst z \<longrightarrow> response_rank (fst z) \<le> response_rank (fst r)"
    let ?f = "filter (\<lambda>x. 200 \<le> fst x)"
    have "?f (responses t) = ?f ys @ (fst r, snd r) # ?f zs" using q(1,2) by simp
    moreover have "list_all (\<lambda>y. response_rank (fst y) < response_rank (fst r)) (?f ys)"
      "list_all (\<lambda>z. response_rank (fst z) \<le> response_rank (fst r)) (?f zs)" using q(3,4) by (auto simp: list_all_iff)
    ultimately show ?thesis unfolding d by blast
  qed (auto simp: d filter_empty_conv)
qed

subsection \<open>A second lookup\<close>

lemma cache_get_put: "0 \<le> now' - now \<Longrightarrow> tr_messages t \<noteq> [] \<Longrightarrow> now' - now \<le> cache_ttl \<Longrightarrow>
    cache_get now' k (cache_put now k t c) = Some (clone_trace t)"
proof -
  assume a: "0 \<le> now' - now" "tr_messages t \<noteq> []" "now' - now \<le> cache_ttl"
  let ?e = "\<lparr>ce_trace = t, ce_at = now, ce_ttl = cache_ttl\<rparr>"
  have m: "map_of (AList.update k ?e c) k = Some ?e" by (simp add: update_conv')
  have "map_of (filter (\<lambda>(k, e). \<not> ce_at e < now - cache_ttl) d) k = Some ?e" if "map_of d k = Some ?e" for d
    using that by (induction d) (auto simp: cache_ttl_def)
  with m a show ?thesis by (simp add: cache_get_def cache_put_def Let_def cache_ttl_def)
qed

text \<open>
  C39: a call that was looked up is served from memory for a day: a later lookup under any form of
  the Call-ID reads no capture file and gives the same messages and the same raw text, but the
  summary of the trace, its endpoints and its final response, is gone.
\<close>

theorem second_lookup:
  assumes "lookup_window cap now call ours w c = Some ((t, True), c')" "tr_messages t \<noteq> []"
    and "sanitize_call_id call' = sanitize_call_id call" "now \<le> now'" "now' \<le> now + cache_ttl" "pcaps_of cap' w' \<noteq> None"
  shows "\<exists>u. lookup_window cap' now' call' ours' w' c' = Some ((u, False), c') \<and> tr_messages u = tr_messages t \<and>
    tr_raw u = tr_raw t \<and> tr_endpoints u = [] \<and> tr_code u = 0"
proof -
  obtain pcaps where t: "t = read_trace cap ours (sanitize_call_id call) pcaps" "c' = cache_put now (sanitize_call_id call) t c"
      "sanitize_call_id call \<noteq> []"
    using assms(1) by (auto simp: lookup_window_def Let_def split: option.splits if_splits)
  have "cache_get now' (sanitize_call_id call) c' = Some (clone_trace t)"
    unfolding t(2) by (rule cache_get_put) (use assms in simp_all)
  then show ?thesis
    using assms(3,6) t(3) by (auto simp: lookup_window_def Let_def clone_trace_def empty_trace_def)
qed

definition one_file :: capture where
  "one_file = \<lparr>cap_glob = Some [''f''], cap_exists = (\<lambda>_. True), cap_grep = (\<lambda>_ _. True),
     cap_fields = (\<lambda>_ _. ''1|203.0.113.7|5060|198.51.100.2|5060||SIP/2.0 200 OK''), cap_verbose = (\<lambda>_ _. ''203.0.113.7''),
     cap_sort = sort_key sm_time\<rparr>"

definition one_lookup :: "((trace \<times> bool) \<times> trace_cache) option" where
  "one_lookup = lookup_window one_file 100 ''abc@h'' ''198.51.100.2'' None []"

lemma one_lookup_reads:
  "map_option (\<lambda>((t, sh), c). (sh, tr_messages t \<noteq> [], tr_endpoints t, tr_code t)) one_lookup =
    Some (True, True, [''203.0.113.7:5060'', ''198.51.100.2:5060''], 200)"
  by code_simp

theorem second_lookup_witness:
  "\<exists>c u. map_option snd one_lookup = Some c \<and>
     lookup_window one_file 200 ''abc'' ''198.51.100.2'' None c = Some ((u, False), c) \<and> tr_endpoints u = [] \<and> tr_code u = 0"
proof -
  obtain t c where l: "one_lookup = Some ((t, True), c)" "tr_messages t \<noteq> []"
    using one_lookup_reads by (auto split: prod.splits)
  have p: "sanitize_call_id ''abc'' = sanitize_call_id ''abc@h''" by code_simp
  have g: "pcaps_of one_file None \<noteq> None" by (simp add: pcaps_of_def one_file_def)
  obtain u where "lookup_window one_file 200 ''abc'' ''198.51.100.2'' None c = Some ((u, False), c) \<and> tr_endpoints u = [] \<and> tr_code u = 0"
    using second_lookup [OF l(1) [unfolded one_lookup_def] l(2) p, of 200 one_file None "''198.51.100.2''"] g by (auto simp: cache_ttl_def)
  moreover have "map_option snd one_lookup = Some c" by (simp add: l(1))
  ultimately show ?thesis by blast
qed

end
