(* ===== verification/Trace_Diagram.thy ===== *)
theory Trace_Diagram
  imports Sip_Trace Causes
begin

text \<open>
  \<open>web/trace_diagram.go\<close>: the ladder drawn from a trace, its phases, the marks of the admins'
  actions, the observations shown above it and the split of the raw text. The logarithm of
  the row height is an argument. Texts that only explain an observation are left out; the
  findings on retransmits come in the order of the first repeat, where the code walks a map.
\<close>

subsection \<open>Names\<close>

definition strip_port :: "string \<Rightarrow> string" where
  "strip_port addr = (case last_index_byte addr (CHR '':'') of None \<Rightarrow> addr | Some i \<Rightarrow> take i addr)"

definition ip_private :: "string \<Rightarrow> bool" where
  "ip_private ip \<longleftrightarrow> list_ex (has_prefix ip) [''10.'', ''192.168.'', ''172.'', ''127.'']"

definition shorten_summary :: "string \<Rightarrow> string" where
  "shorten_summary s0 =
     (let s = trim_space s0 in
      if s = [] then []
      else if has_prefix s ''SIP/'' then
        (case split_n 3 (CHR '' '') s of
           [_, code, reason] \<Rightarrow> code @ '' '' @ reason
         | [_, code] \<Rightarrow> code
         | _ \<Rightarrow> s)
      else hd (split_n 2 (CHR '' '') s))"

definition classify_message :: "string \<Rightarrow> string" where
  "classify_message s0 =
     (let s = trim_space s0 in
      if has_prefix s ''SIP/'' then
        (case split_n 3 (CHR '' '') s of
           _ # (c # _) # _ \<Rightarrow> ''response-'' @ [c] @ ''xx''
         | _ \<Rightarrow> ''response'')
      else ''request'')"

definition first_code :: "string \<Rightarrow> int" where
  "first_code s =
     (if \<not> has_prefix s ''SIP/'' then 0
      else case split_n 3 (CHR '' '') s of _ # c # _ \<Rightarrow> atoi64 c | _ \<Rightarrow> 0)"

definition time_short :: "string \<Rightarrow> string" where
  "time_short v =
     (if length v < 19 then v
      else let t = drop 11 v;
               z = (case index_byte t (CHR ''Z'') of Some i \<Rightarrow> take i t | None \<Rightarrow> t) in
        case index_byte t (CHR ''.'') of
          Some i \<Rightarrow> if i + 4 < length t then take (i + 4) t else z
        | None \<Rightarrow> z)"

subsection \<open>Phases\<close>

datatype phase = Setup | Ringback | Talk | Teardown

definition phase_rank :: "phase \<Rightarrow> nat" where
  "phase_rank p = (case p of Setup \<Rightarrow> 0 | Ringback \<Rightarrow> 1 | Talk \<Rightarrow> 2 | Teardown \<Rightarrow> 3)"

lemma phase_rank_inj: "phase_rank p = phase_rank q \<longleftrightarrow> p = q"
  by (cases p; cases q) (simp_all add: phase_rank_def)

instantiation phase :: linorder
begin

definition less_eq_phase :: "phase \<Rightarrow> phase \<Rightarrow> bool" where
  "less_eq_phase p q \<longleftrightarrow> phase_rank p \<le> phase_rank q"

definition less_phase :: "phase \<Rightarrow> phase \<Rightarrow> bool" where
  "less_phase p q \<longleftrightarrow> phase_rank p < phase_rank q"

instance
  by standard (auto simp: less_eq_phase_def less_phase_def phase_rank_inj)

end

definition next_phase :: "phase \<Rightarrow> string \<Rightarrow> phase" where
  "next_phase st s =
     (let c = first_code s; status = has_prefix s ''SIP/'' in
      if st = Setup \<and> status \<and> 100 \<le> c \<and> c < 200 then Ringback
      else if (st = Setup \<or> st = Ringback) \<and> status \<and> 200 \<le> c \<and> c < 300 then Talk
      else if st = Talk \<and> (has_prefix s ''BYE '' \<or> has_prefix s ''CANCEL '') then Teardown
      else st)"

fun phases_of :: "phase \<Rightarrow> string list \<Rightarrow> phase list" where
  "phases_of st [] = []"
| "phases_of st (s # ss) = (let st' = next_phase st s in st' # phases_of st' ss)"

text \<open>One band for every run of arrows in one phase; an arrow is its y and its phase.\<close>

record band =
  bd_kind :: phase
  bd_y :: int
  bd_h :: int

fun bands_from :: "(int \<times> phase) \<Rightarrow> int \<Rightarrow> (int \<times> phase) list \<Rightarrow> band list" where
  "bands_from (y0, p0) y [] = [\<lparr>bd_kind = p0, bd_y = y0 - 22, bd_h = (y + 22) - (y0 - 22)\<rparr>]"
| "bands_from (y0, p0) y ((y1, p1) # as) =
     (if p1 = p0 then bands_from (y0, p0) y1 as
      else \<lparr>bd_kind = p0, bd_y = y0 - 22, bd_h = (y1 - 22) - (y0 - 22)\<rparr> # bands_from (y1, p1) y1 as)"

definition phase_bands :: "(int \<times> phase) list \<Rightarrow> band list" where
  "phase_bands as = (case as of [] \<Rightarrow> [] | a # rest \<Rightarrow> bands_from a (fst a) rest)"

subsection \<open>The ladder\<close>

datatype lane_kind = Ours | SupplierLane | PeerLane

record lane =
  ln_x :: int
  ln_label :: string
  ln_kind :: lane_kind
  ln_packets :: nat

record arrow =
  ar_index :: nat
  ar_x1 :: int
  ar_x2 :: int
  ar_y :: int
  ar_label :: string
  ar_class :: string
  ar_time :: string
  ar_delta :: int
  ar_delta_text :: string
  ar_reverse :: bool
  ar_repeat :: nat
  ar_phase :: phase

definition lane_kind_of :: "string \<Rightarrow> (string \<Rightarrow> bool) \<Rightarrow> string \<Rightarrow> lane_kind" where
  "lane_kind_of ours supplier addr =
     (let ip = strip_port addr in
      if ip = ours \<or> ip_private ip then Ours else if supplier ip then SupplierLane else PeerLane)"

definition lane_bias :: "lane_kind \<Rightarrow> nat" where
  "lane_bias k = (case k of Ours \<Rightarrow> 3 | SupplierLane \<Rightarrow> 1 | PeerLane \<Rightarrow> 5)"

definition lane_addrs :: "string \<Rightarrow> (string \<Rightarrow> bool) \<Rightarrow> string list \<Rightarrow> string list" where
  "lane_addrs ours supplier es = sort_key (\<lambda>a. lane_bias (lane_kind_of ours supplier a)) es"

definition lane_x :: "nat \<Rightarrow> int" where
  "lane_x i = 200 + int i * 280"

definition lanes_of :: "string \<Rightarrow> (string \<Rightarrow> bool) \<Rightarrow> trace \<Rightarrow> lane list" where
  "lanes_of ours supplier t =
     (let as = lane_addrs ours supplier (tr_endpoints t) in
      map (\<lambda>(i, a). \<lparr>ln_x = lane_x i, ln_label = a, ln_kind = lane_kind_of ours supplier a,
         ln_packets = length (filter (\<lambda>m. sm_src m = a) (tr_messages t)) + length (filter (\<lambda>m. sm_dst m = a) (tr_messages t))\<rparr>)
        (enumerate 0 as))"

text \<open>\<open>indexOf\<close>: the lane of an address; a later lane of the same address would win.\<close>

definition lane_of :: "string list \<Rightarrow> string \<Rightarrow> nat option" where
  "lane_of as a = map_of (rev (zip as [0..<length as])) a"

text \<open>The messages drawn: number, message and its two lanes.\<close>

definition drawn :: "string list \<Rightarrow> sip_message list \<Rightarrow> (nat \<times> sip_message \<times> nat \<times> nat) list" where
  "drawn as ms =
     List.map_filter (\<lambda>(i, m). (case (lane_of as (sm_src m), lane_of as (sm_dst m)) of
        (Some f, Some t) \<Rightarrow> if f = t then None else Some (i, m, f, t)
      | _ \<Rightarrow> None)) (enumerate 0 ms)"

text \<open>\<open>%.2f\<close> of a non-negative float, which is printed exactly and rounded to even.\<close>

definition two_decimals :: "rat \<Rightarrow> string" where
  "two_decimals x = cents_text (round_even (x * 100))"

definition format_delta :: "rat \<Rightarrow> string" where
  "format_delta s =
     (if s < fl64 (1 / 1000) then ''+0ms''
      else if s < 1 then ''+'' @ itoa (trunc (fl64 (s * 1000))) @ ''ms''
      else ''+'' @ two_decimals s @ ''s'')"

text \<open>\<open>lg n\<close> stands for \<open>int(math.Log10(float64(n)) * 22)\<close>.\<close>

definition row_height :: "(int \<Rightarrow> int) \<Rightarrow> int \<Rightarrow> int" where
  "row_height lg ms = min 110 (max 38 (38 + lg (ms + 1)))"

definition retransmit_key :: "sip_message \<Rightarrow> string" where
  "retransmit_key m = sm_src m @ ''|'' @ sm_dst m @ ''|'' @ shorten_summary (sm_summary m)"

definition mk_arrow :: "(nat \<times> sip_message \<times> nat \<times> nat) \<Rightarrow> int \<Rightarrow> int \<Rightarrow> string \<Rightarrow> nat \<Rightarrow> phase \<Rightarrow> arrow" where
  "mk_arrow x y ms txt n ph =
     (case x of (i, m, f, t) \<Rightarrow>
        \<lparr>ar_index = i + 1, ar_x1 = lane_x f, ar_x2 = lane_x t, ar_y = y, ar_label = shorten_summary (sm_summary m),
         ar_class = classify_message (sm_summary m), ar_time = time_short (sm_iso m), ar_delta = ms, ar_delta_text = txt,
         ar_reverse = lane_x t < lane_x f, ar_repeat = n, ar_phase = ph\<rparr>)"

text \<open>The second pass, with the y and the time of the arrow before and the keys seen so far.\<close>

fun layout :: "(int \<Rightarrow> int) \<Rightarrow> (int \<times> rat) option \<Rightarrow> string list \<Rightarrow> phase \<Rightarrow> (nat \<times> sip_message \<times> nat \<times> nat) list \<Rightarrow> arrow list" where
  "layout lg prev seen st [] = []"
| "layout lg prev seen st (x # xs) =
     (let m = fst (snd x); key = retransmit_key m; n = length (filter (\<lambda>k. k = key) seen) + 1;
          st' = next_phase st (sm_summary m);
          (y, ms, txt) =
            (case prev of
               None \<Rightarrow> (138, 0, [])
             | Some (y0, t0) \<Rightarrow>
                 let gap = max 0 (fl64 (sm_time m - t0)); ms = trunc (fl64 (gap * 1000))
                 in (y0 + row_height lg ms, ms, format_delta gap))
      in mk_arrow x y ms txt n st' # layout lg (Some (y, sm_time m)) (key # seen) st' xs)"

definition arrows_of :: "(int \<Rightarrow> int) \<Rightarrow> string \<Rightarrow> (string \<Rightarrow> bool) \<Rightarrow> trace \<Rightarrow> arrow list" where
  "arrows_of lg ours supplier t =
     layout lg None [] Setup (drawn (lane_addrs ours supplier (tr_endpoints t)) (tr_messages t))"

subsection \<open>The marks of the admins' actions\<close>

record admin_event =
  ae_action :: string
  ae_email :: string
  ae_reason :: string
  ae_time :: rat
  ae_label :: string

record marker =
  mk_y :: int
  mk_class :: string
  mk_title :: string
  mk_email :: string
  mk_reason :: string
  mk_time :: string
  mk_after :: nat
  mk_width :: int
  mk_x :: int

definition action_class :: "string \<Rightarrow> string" where
  "action_class a =
     (if a = ''live_hangup'' then ''hangup'' else if a = ''live_warn'' then ''warn''
      else if a = ''live_redirect'' then ''redirect'' else ''other'')"

definition action_title :: "string \<Rightarrow> string" where
  "action_title a =
     (if a = ''live_hangup'' then ''ADMIN HANGUP'' else if a = ''live_warn'' then ''ADMIN WARN (prompt + hangup)''
      else if a = ''live_redirect'' then ''ADMIN REDIRECT'' else to_upper a)"

text \<open>The arrows up to the event: the loop stops at the first later one. \<open>as\<close> pairs y with the time.\<close>

definition arrows_before :: "rat \<Rightarrow> (int \<times> rat) list \<Rightarrow> nat" where
  "arrows_before t as = length (takeWhile (\<lambda>(y, u). u \<le> t) as)"

definition mark_of :: "int \<Rightarrow> (int \<times> rat) list \<Rightarrow> admin_event \<Rightarrow> marker" where
  "mark_of width as ev =
     (let n = arrows_before (ae_time ev) as; title = action_title (ae_action ev);
          w = min (width - 80) (max 320 (int (length title) * 7 + 220)) in
      \<lparr>mk_y = (if n = 0 then fst (hd as) - 24 else fst (as ! (n - 1)) + 24), mk_class = action_class (ae_action ev),
       mk_title = title, mk_email = ae_email ev, mk_reason = ae_reason ev, mk_time = ae_label ev, mk_after = n,
       mk_width = w, mk_x = max 40 (quot (width - w) 2)\<rparr>)"

definition markers_of :: "int \<Rightarrow> (int \<times> rat) list \<Rightarrow> admin_event list \<Rightarrow> marker list" where
  "markers_of width as evs = (if as = [] then [] else map (mark_of width as) evs)"

record diagram =
  dg_width :: int
  dg_height :: int
  dg_lanes :: "lane list"
  dg_arrows :: "arrow list"
  dg_bands :: "band list"
  dg_markers :: "marker list"

text \<open>\<open>BuildSequenceDiagram\<close>; \<open>None\<close> when there is nothing to draw.\<close>

definition build_diagram ::
  "(int \<Rightarrow> int) \<Rightarrow> string \<Rightarrow> (string \<Rightarrow> bool) \<Rightarrow> admin_event list \<Rightarrow> trace \<Rightarrow> diagram option" where
  "build_diagram lg ours supplier evs t =
     (if tr_messages t = [] \<or> tr_endpoints t = [] then None
      else let lanes = lanes_of ours supplier t; as = arrows_of lg ours supplier t;
               width = max 760 (200 + (int (length lanes) - 1) * 280 + 140);
               times = map (\<lambda>(i, m, f, k). sm_time m) (drawn (lane_addrs ours supplier (tr_endpoints t)) (tr_messages t));
               marks = markers_of width (zip (map ar_y as) times) evs;
               height = (if as = [] then 158 else ar_y (List.last as) + 66) in
        Some \<lparr>dg_width = width, dg_height = foldl (\<lambda>h m. max h (mk_y m + 30)) height marks, dg_lanes = lanes, dg_arrows = as,
          dg_bands = phase_bands (map (\<lambda>a. (ar_y a, ar_phase a)) as), dg_markers = marks\<rparr>)"

subsection \<open>Observations\<close>

datatype finding =
    Retransmit string nat "nat list"
  | NoResponse
  | NoAck nat
  | SlowAck rat nat nat
  | Rejected int string
  | ServerError int string
  | PlatformDenied
  | LongRing rat nat nat

definition repeats_of :: "string \<Rightarrow> sip_message list \<Rightarrow> nat list" where
  "repeats_of key ms = tl (map (\<lambda>(i, m). i + 1) (filter (\<lambda>(i, m). retransmit_key m = key) (enumerate 0 ms)))"

definition retransmits :: "sip_message list \<Rightarrow> finding list" where
  "retransmits ms =
     List.map_filter (\<lambda>key. let is = repeats_of key ms in
         if is = [] then None
         else Some (Retransmit (shorten_summary (sm_summary (ms ! (hd is - 1)))) (length is + 1) is))
       (rev (remdups (rev (map retransmit_key ms))))"

text \<open>The 1-based number of the first message after the first \<open>k\<close> that satisfies a test.\<close>

definition first_from :: "nat \<Rightarrow> (string \<Rightarrow> bool) \<Rightarrow> sip_message list \<Rightarrow> nat option" where
  "first_from k P ms = map_option (\<lambda>(i, m). i + 1) (List.find (\<lambda>(i, m). k \<le> i \<and> P (trim_space (sm_summary m))) (enumerate 0 ms))"

definition is_ok :: "string \<Rightarrow> bool" where
  "is_ok s \<longleftrightarrow> has_prefix s ''SIP/'' \<and> first_code s = 200 \<and> str_contains s ''OK''"

definition gap_of :: "sip_message list \<Rightarrow> nat \<Rightarrow> nat \<Rightarrow> rat" where
  "gap_of ms a b = fl64 (sm_time (ms ! (b - 1)) - sm_time (ms ! (a - 1)))"

definition ack_findings :: "sip_message list \<Rightarrow> finding list" where
  "ack_findings ms =
     (case first_from 0 is_ok ms of
        None \<Rightarrow> []
      | Some two \<Rightarrow>
          (case first_from (two - 1) (\<lambda>s. has_prefix s ''ACK '') ms of
             None \<Rightarrow> [NoAck two]
           | Some ack \<Rightarrow> if 1 < gap_of ms two ack then [SlowAck (gap_of ms two ack) two ack] else []))"

definition response_findings :: "trace \<Rightarrow> finding list" where
  "response_findings t =
     (let c = tr_code t in
      if c = 0 then [NoResponse]
      else if c = 200 then ack_findings (tr_messages t)
      else if 400 \<le> c \<and> c < 500 then [Rejected c (tr_reason t)]
      else if 500 \<le> c \<and> c < 600 then [ServerError c (tr_reason t)]
      else [])"

definition ring_findings :: "sip_message list \<Rightarrow> finding list" where
  "ring_findings ms =
     (case first_from 0 (\<lambda>s. has_prefix s ''INVITE '') ms of
        None \<Rightarrow> []
      | Some a \<Rightarrow>
          (case first_from (a - 1) (\<lambda>s. has_prefix s ''SIP/'' \<and> 200 \<le> first_code s) ms of
             None \<Rightarrow> []
           | Some b \<Rightarrow> if 30 < gap_of ms a b then [LongRing (gap_of ms a b) a b] else []))"

definition findings_of :: "causes \<Rightarrow> trace \<Rightarrow> string \<Rightarrow> finding list" where
  "findings_of cs t cause =
     (if tr_messages t = [] then []
      else retransmits (tr_messages t) @ response_findings t @
           (if is_platform cs cause then [PlatformDenied] else []) @ ring_findings (tr_messages t))"

subsection \<open>The raw text of one packet\<close>

text \<open>The places where a line begins with \<open>Frame\<close> and a space.\<close>

fun frame_starts :: "bool \<Rightarrow> nat \<Rightarrow> string \<Rightarrow> nat list" where
  "frame_starts bol i [] = []"
| "frame_starts bol i (c # cs) =
     (if bol \<and> has_prefix (c # cs) ''Frame '' then [i] else []) @ frame_starts (c = CHR 0x0A) (Suc i) cs"

definition trim_right_white :: "string \<Rightarrow> string" where
  "trim_right_white s = rev (dropWhile (\<lambda>c. c \<in> {CHR '' '', CHR 0x0A, CHR 0x0D, CHR 0x09}) (rev s))"

definition split_raw :: "string \<Rightarrow> string list" where
  "split_raw raw =
     (if trim_space raw = [] then []
      else case frame_starts True 0 raw of
        [] \<Rightarrow> [raw]
      | is \<Rightarrow> map (\<lambda>(a, b). trim_right_white (take (b - a) (drop a raw))) (zip is (tl is @ [length raw])))"

subsection \<open>The phases only advance\<close>

lemma next_phase_mono: "st \<le> next_phase st s"
  by (cases st) (simp_all add: next_phase_def Let_def less_eq_phase_def phase_rank_def)

lemma phases_of_sorted: "sorted (st # phases_of st ss)"
proof (induction ss arbitrary: st)
  case (Cons s ss)
  from Cons [of "next_phase st s"] next_phase_mono [of st s] show ?case by (auto simp: Let_def)
qed simp

text \<open>A list of arrows as the layout makes it: rows apart, phases advancing.\<close>

definition row_ok :: "int \<times> phase \<Rightarrow> int \<times> phase \<Rightarrow> bool" where
  "row_ok a b \<longleftrightarrow> fst a + 38 \<le> fst b \<and> fst b \<le> fst a + 110 \<and> snd a \<le> snd b"

lemma row_height_bounds: "38 \<le> row_height lg ms" "row_height lg ms \<le> 110"
  by (auto simp: row_height_def)

lemma layout_rows:
  "successively row_ok ((y, st) # map (\<lambda>a. (ar_y a, ar_phase a)) (layout lg (Some (y, t)) seen st xs))"
proof (induction xs arbitrary: y t seen st)
  case (Cons x xs)
  let ?m = "fst (snd x)"
  let ?ms = "trunc (fl64 (max 0 (fl64 (sm_time ?m - t)) * 1000))"
  have "row_ok (y, st) (y + row_height lg ?ms, next_phase st (sm_summary ?m))"
    using row_height_bounds [of lg ?ms] next_phase_mono by (simp add: row_ok_def)
  with Cons [of "y + row_height lg ?ms" "next_phase st (sm_summary ?m)" "sm_time ?m" "retransmit_key ?m # seen"] show ?case
    by (cases x) (simp add: Let_def mk_arrow_def split: prod.splits)
qed simp

lemma arrows_rows: "successively row_ok (map (\<lambda>a. (ar_y a, ar_phase a)) (arrows_of lg ours supplier t))"
proof (cases "drawn (lane_addrs ours supplier (tr_endpoints t)) (tr_messages t)")
  case (Cons x xs)
  let ?m = "fst (snd x)"
  show ?thesis
    using layout_rows [of 138 "next_phase Setup (sm_summary ?m)" lg "sm_time ?m" "[retransmit_key ?m]" xs]
    by (cases x) (simp add: arrows_of_def Cons Let_def mk_arrow_def)
qed (simp add: arrows_of_def)

definition covers :: "band \<Rightarrow> int \<times> phase \<Rightarrow> bool" where
  "covers b a \<longleftrightarrow> bd_kind b = snd a \<and> bd_y b < fst a \<and> fst a < bd_y b + bd_h b"

definition touches :: "band \<Rightarrow> band \<Rightarrow> bool" where
  "touches b c \<longleftrightarrow> bd_y b + bd_h b = bd_y c \<and> bd_kind b < bd_kind c"

lemma bands_from_ok:
  assumes "successively row_ok ((y, p0) # as)" "y0 \<le> y"
  shows "successively touches (bands_from (y0, p0) y as) \<and> list_all (\<lambda>b. 0 < bd_h b) (bands_from (y0, p0) y as) \<and>
    (\<exists>h bs. bands_from (y0, p0) y as = \<lparr>bd_kind = p0, bd_y = y0 - 22, bd_h = h\<rparr> # bs \<and> y < y0 - 22 + h) \<and>
    (\<forall>a \<in> set as. list_ex (\<lambda>b. covers b a) (bands_from (y0, p0) y as))"
  using assms
proof (induction as arbitrary: y y0 p0)
  case Nil
  then show ?case by simp
next
  case (Cons a as)
  obtain y1 p1 where a: "a = (y1, p1)" by (cases a)
  from Cons.prems(1) have r: "row_ok (y, p0) (y1, p1)" "successively row_ok ((y1, p1) # as)" by (simp_all add: a)
  show ?case
  proof (cases "p1 = p0")
    case True
    have "y0 \<le> y1" using r(1) Cons.prems(2) by (simp add: row_ok_def)
    from Cons.IH [OF r(2) [unfolded True] this] obtain h bs where
      ih: "successively touches (bands_from (y0, p0) y1 as)" "list_all (\<lambda>b. 0 < bd_h b) (bands_from (y0, p0) y1 as)"
        "bands_from (y0, p0) y1 as = \<lparr>bd_kind = p0, bd_y = y0 - 22, bd_h = h\<rparr> # bs" "y1 < y0 - 22 + h"
        "\<forall>a \<in> set as. list_ex (\<lambda>b. covers b a) (bands_from (y0, p0) y1 as)" by blast
    have "covers \<lparr>bd_kind = p0, bd_y = y0 - 22, bd_h = h\<rparr> (y1, p1)" "y < y0 - 22 + h"
      using ih(4) r(1) \<open>y0 \<le> y1\<close> True by (simp_all add: covers_def row_ok_def)
    with ih True show ?thesis by (auto simp: a)
  next
    case False
    have lt: "p0 < p1" using r(1) False by (auto simp: row_ok_def)
    from Cons.IH [OF r(2) order_refl] obtain h bs where
      ih: "successively touches (bands_from (y1, p1) y1 as)" "list_all (\<lambda>b. 0 < bd_h b) (bands_from (y1, p1) y1 as)"
        "bands_from (y1, p1) y1 as = \<lparr>bd_kind = p1, bd_y = y1 - 22, bd_h = h\<rparr> # bs" "y1 < y1 - 22 + h"
        "\<forall>a \<in> set as. list_ex (\<lambda>b. covers b a) (bands_from (y1, p1) y1 as)" by blast
    have "covers \<lparr>bd_kind = p1, bd_y = y1 - 22, bd_h = h\<rparr> (y1, p1)" using ih(4) by (simp add: covers_def)
    with ih lt False r(1) Cons.prems(2) show ?thesis by (auto simp: a touches_def row_ok_def)
  qed
qed

lemma successively_mono_list: "successively R xs \<Longrightarrow> (\<And>x y. R x y \<Longrightarrow> S x y) \<Longrightarrow> successively S xs"
  by (induction xs rule: induct_list012) auto

lemma few_phases:
  assumes "successively touches bs"
  shows "length bs \<le> 4"
proof -
  have "successively (<) (map bd_kind bs)"
    using successively_mono_list [OF assms, of "\<lambda>b c. bd_kind b < bd_kind c"] by (simp add: successively_map touches_def)
  then have "sorted_wrt (<) (map bd_kind bs)" by (simp add: successively_conv_sorted_wrt transp_on_less)
  then have d: "distinct (map bd_kind bs)" by (simp add: strict_sorted_iff)
  have "set (map bd_kind bs) \<subseteq> {Setup, Ringback, Talk, Teardown}" by (auto intro: phase.exhaust)
  then have "card (set (map bd_kind bs)) \<le> card {Setup, Ringback, Talk, Teardown}" by (rule card_mono [rotated]) simp
  with distinct_card [OF d] show ?thesis by simp
qed

text \<open>
  C40: the ladder of a call reads top to bottom: the arrows are at least 38 and at most 110 units
  apart, the phases only advance, and there are at most four bands, one for every phase that
  occurs, each of positive height and touching the next, with every arrow inside the band of
  its phase.
\<close>

theorem ladder_bands:
  assumes "build_diagram lg ours supplier evs t = Some d"
  shows "successively (\<lambda>a b. ar_y a + 38 \<le> ar_y b \<and> ar_y b \<le> ar_y a + 110 \<and> ar_phase a \<le> ar_phase b) (dg_arrows d) \<and>
    length (dg_bands d) \<le> 4 \<and> successively touches (dg_bands d) \<and> list_all (\<lambda>b. 0 < bd_h b) (dg_bands d) \<and>
    list_all (\<lambda>a. list_ex (\<lambda>b. covers b (ar_y a, ar_phase a)) (dg_bands d)) (dg_arrows d)"
proof -
  let ?as = "arrows_of lg ours supplier t" and ?r = "\<lambda>a. (ar_y a, ar_phase a)"
  have d: "dg_arrows d = ?as" "dg_bands d = phase_bands (map ?r ?as)"
    using assms by (auto simp: build_diagram_def Let_def split: if_splits)
  note rows = arrows_rows [of lg ours supplier t]
  have gaps: "successively (\<lambda>a b. ar_y a + 38 \<le> ar_y b \<and> ar_y b \<le> ar_y a + 110 \<and> ar_phase a \<le> ar_phase b) ?as"
    using rows by (simp add: successively_map row_ok_def)
  show ?thesis
  proof (cases "map ?r ?as")
    case Nil
    then show ?thesis by (simp add: d phase_bands_def)
  next
    case (Cons x xs)
    obtain y p where x: "x = (y, p)" by (cases x)
    let ?bs = "bands_from (y, p) y xs"
    have b: "dg_bands d = ?bs" by (simp add: d(2) Cons phase_bands_def x)
    from bands_from_ok [OF rows [unfolded Cons x] order_refl] obtain h bs where ok:
      "successively touches ?bs" "list_all (\<lambda>b. 0 < bd_h b) ?bs" "?bs = \<lparr>bd_kind = p, bd_y = y - 22, bd_h = h\<rparr> # bs" "y < y - 22 + h"
      "\<forall>a \<in> set xs. list_ex (\<lambda>b. covers b a) ?bs" by blast
    have "list_ex (\<lambda>b. covers b x) ?bs" using ok(3,4) by (simp add: x covers_def)
    then have "\<forall>a \<in> set (map ?r ?as). list_ex (\<lambda>b. covers b a) ?bs" using ok(5) Cons by simp
    then show ?thesis using gaps ok(1,2) few_phases [OF ok(1)] by (simp add: d(1) b list_all_iff)
  qed
qed

definition ladder_example :: "diagram option" where
  "ladder_example =
     (let m = (\<lambda>t a b s. \<lparr>sm_time = t, sm_iso = [], sm_dir = ''in'', sm_src = a, sm_dst = b, sm_summary = s\<rparr>);
          a = ''203.0.113.7:5060''; b = ''10.0.0.2:5060'' in
      build_diagram (\<lambda>n. n) ''198.51.100.2'' (\<lambda>_. False) []
        (derive ((empty_trace ''abc'' [])\<lparr>tr_messages :=
           [m 1 a b ''INVITE sip:1 SIP/2.0'', m 2 b a ''SIP/2.0 180 Ringing'', m 3 b a ''SIP/2.0 200 OK'', m 9 a b ''BYE sip:1 SIP/2.0'']\<rparr>)))"

lemma ladder_example_drawn:
  "map_option (\<lambda>d. map (\<lambda>b. (bd_kind b, bd_y b, bd_h b)) (dg_bands d)) ladder_example =
     Some [(Setup, 116, 110), (Ringback, 226, 110), (Talk, 336, 110), (Teardown, 446, 44)]"
  by code_simp

theorem ladder_bands_witness:
  "map_option (\<lambda>d. (length (dg_bands d) \<le> 4, successively touches (dg_bands d))) ladder_example = Some (True, True)"
proof -
  obtain d where d: "ladder_example = Some d" using ladder_example_drawn by (cases ladder_example) simp_all
  from ladder_bands [OF d [unfolded ladder_example_def Let_def]] show ?thesis by (simp add: d)
qed

end
