(* ===== verification/Spec2Isabelle.thy ===== *)
theory Spec2Isabelle
  imports Causes Settings Callquality Pagination Rate_Life Suppliers Reseller_Isolation Trace_Diagram
begin

text \<open>
  A verification model of didstorage, a Go service that rents phone numbers (DIDs) to users
  and routes, meters and bills the calls to them.

  \<^bold>\<open>The program.\<close> Asterisk asks the control plane (\<open>internal/sipctl\<close>) on every INVITE whether
  a call may be set up, and reports the hang-up afterwards. The control plane reads users,
  orders, DIDs and rate cards from PostgreSQL, reserves channels in Redis, keeps the live
  index of \<open>internal/livecalls\<close> and picks clips with \<open>internal/audiogroup\<close>; prices come from
  \<open>internal/domain\<close>. A reconciler sweeps the live index against the channels Asterisk has. A
  daily job (\<open>internal/billing\<close>) charges the monthly fees of the orders. The web interface
  (\<open>internal/web\<close>) edits the tables: imports of numbers (\<open>internal/didsimport\<close>), KYC bundles
  (\<open>internal/kyc\<close>), blocks of users, hang-up causes (\<open>internal/causes\<close>) and settings
  (\<open>internal/settings\<close>), and the orders, users, numbers, rate cards, suppliers, resellers and
  SIP accounts (\<open>web/crud.go\<close>, \<open>web/did_handlers.go\<close>); it shows the SIP messages of a call
  (\<open>internal/siptrace\<close>) and its media quality (\<open>internal/callquality\<close>). Resellers reach the
  same tables through a JSON API (\<open>internal/resellerapi\<close>).

  \<^bold>\<open>The theories, base first.\<close>
  \<^item> \<open>Prelude\<close>: types, generic lemmas, lemma collections and the locale \<open>safe_machine\<close> (an
    invariant that holds initially and is kept by every step holds in every reachable state).
  \<^item> \<open>Go_Strings\<close>, \<open>Go_Float\<close>, \<open>Go_Time\<close>, \<open>Go_Net\<close>, \<open>Go_Path\<close>, \<open>Go_Url\<close>, \<open>Go_Number\<close>,
    \<open>Go_Md5\<close>: what the program uses of Go's standard library. \<open>Go_Float\<close> holds the locale \<open>rounding\<close> (a monotone rounding with
    a relative error) and its interpretation on \<open>fl64\<close>.
  \<^item> \<open>Sql_Table\<close>, \<open>Schema\<close>: a table as a list of rows with ids, the locale \<open>row_store\<close> on it,
    and the rows of \<open>migrations/\<close> the modelled statements touch. The database is the record
    \<open>db\<close>.
  \<^item> \<open>Redis_Store\<close>: the keys the program uses, with expiry; the locale \<open>ttl_store\<close>.
  \<^item> \<open>Domain\<close> (\<open>domain.go\<close>): prices, the longest call a balance allows, anniversaries, Call-ID
    and URI cleaning. Lemmas: the float price is within one cent of the exact one; the next
    billing date is the least anniversary after an instant.
  \<^item> \<open>Billing\<close> (\<open>billing.go\<close>): \<open>ProcessOne\<close> and \<open>Run\<close>. Lemmas: money is conserved between
    balances and ledger, nobody is overdrawn, a second run changes nothing.
  \<^item> \<open>Livecalls\<close> (\<open>livecalls.go\<close>, \<open>pending.go\<close>, \<open>reconciler.go\<close>), \<open>Audiogroup\<close>
    (\<open>audiogroup.go\<close>), \<open>Sip_Acl\<close> (the allow-list of \<open>sipctl.go\<close>).
  \<^item> \<open>Sipctl\<close> (\<open>sipctl.go\<close>): \<open>authorize\<close> and \<open>cdr\<close>, statement by statement. \<open>Call_Control\<close>:
    their properties, among them the inductive step relation \<open>sip_step\<close> over authorizations,
    hang-ups, sweeps and the clock, in which no cap is ever exceeded.
  \<^item> \<open>Did_Prefixes\<close>, \<open>Did_Parsers\<close>, \<open>Did_Import\<close> (\<open>internal/didsimport\<close>,
    \<open>web/dids_import.go\<close>): the three input modes, the worker, the job registry, the handlers.
  \<^item> \<open>Snapshot\<close>, \<open>Causes\<close>, \<open>Settings\<close>: a table with an in-memory copy that every write reloads.
    The locale \<open>snapshot_store\<close> states when the copy shows the table; the interpretation is the
    row loop both packages contain.
  \<^item> \<open>Kyc\<close> (\<open>kyc.go\<close>, \<open>web/kyc_handlers.go\<close>), \<open>User_Block\<close> (\<open>web/block_handlers.go\<close>),
    \<open>Callquality\<close> (\<open>callquality.go\<close>), \<open>Pagination\<close> (\<open>web/pagination.go\<close>).
  \<^item> \<open>Forms\<close> (the field helpers of \<open>crud.go\<close>), \<open>Orders\<close> (orders, top-ups, users and numbers in
    \<open>crud.go\<close> and \<open>did_handlers.go\<close>), \<open>Rates\<close> (rate cards and the old range form), \<open>Accounts\<close>
    (resellers, API keys, SIP accounts), \<open>Suppliers\<close> (suppliers, IP groups and the members the
    allow-list of \<open>Sip_Acl\<close> is made of). Lemmas on them are in \<open>Order_Life\<close> (price and status
    of a new order, guarded edits, swaps, deletion, reservations) and \<open>Rate_Life\<close> (one active
    card a slot, bulk imports, the card the next order pays).
  \<^item> \<open>Reseller_Api\<close> (\<open>resellerapi.go\<close>, \<open>extended.go\<close>, \<open>kyc_handlers.go\<close> of the API), request by
    request. \<open>Reseller_Isolation\<close>: the slice of the database a reseller owns, which no request
    of another one changes and from which the replies are read.
  \<^item> \<open>Books_Kept\<close>, \<open>Books\<close>: over calls, billing, imports, forms and API requests, in any order,
    every balance is the sum of its ledger rows and an open order holds its number alone.
  \<^item> \<open>Sip_Trace\<close> (\<open>siptrace.go\<close>): which capture files are opened, parsing, the summary of a
    trace, the cache and the rewriting for resellers. \<open>Trace_Diagram\<close>
    (\<open>web/trace_diagram.go\<close>): the ladder of a call, its phases, marks and observations.

  \<^bold>\<open>Conventions.\<close> A function that reads or writes state takes the state and returns it; a
  handler returns its reply and the new state. A statement or service that may fail does so
  when the fault argument of the definition says so, and the branches of the source follow.
  A transaction that is not committed leaves the state unchanged. What the source leaves
  open is an argument: which row a \<open>LIMIT 1\<close> without an order returns, which ready case a
  \<open>select\<close> takes, the pages of a Redis SCAN, DNS answers, the rows \<open>csv.Reader\<close> returned,
  the output of grep and tshark, the result of \<open>sort.Slice\<close> where equal keys can occur, the
  logarithm behind the height of a row of the ladder, bcrypt. A property holds for all of them. The clock is
  an argument too; one request runs at one instant and handlers do not overlap, except that
  the Redis operations of several calls interleave in \<open>sip_step\<close>.

  \<^bold>\<open>Bounds.\<close> \<open>int\<close> of Go is unbounded \<open>int\<close>, except where overflow matters (\<open>wrap64\<close>: range
  imports, page offsets) and where a parsed number saturates (\<open>atoi64\<close>). \<open>float64\<close> is a
  rational rounded to 53 bits by \<open>fl64\<close>, with an unbounded exponent. A BIGSERIAL id is one
  more than the largest id. ZREVRANGE reads the 501 members the source asks for. The only
  loop that may run forever is the range import (\<open>range_loop\<close>, a partial function): its
  termination is part of the property on it. Case mapping is ASCII unless a Go routine under
  test depends on more (\<open>flag_emoji\<close>).

  \<^bold>\<open>Not modelled.\<close> Page templates, list and dashboard queries of \<open>web.go\<close>, exports, search and
  static configuration only render or read. The actions on live calls (\<open>live_handlers.go\<close>),
  the order page and the audio pages run commands of Asterisk or play files; only what others
  read of them is modelled (\<open>pending.go\<close>, \<open>audiogroup.go\<close>). The HTML of \<open>EndResultLabel\<close>, the
  command line and the semaphores of tshark are left out. Files the program writes for Asterisk
  and certbot (\<open>asteriskcfg\<close>, \<open>sslmgr\<close>) and the process start-up (\<open>cmd/\<close>) are glue around
  other programs. JSON decoding is a choice between a decoded value and failure.
\<close>

end
